(* ===== verification/Prelude.thy ===== *)
theory Prelude
  imports Main
begin

text \<open>
  Shared vocabulary of the development: the errors the services raise, the outcome of a
  handler (a result or an error, always together with the state that is left behind), and the
  handful of query forms the services write against a table.

  A table is the list of its rows in insertion order.  \<open>find_row\<close> is a lookup by a
  condition, \<open>find_latest\<close> the same with the newest row first, \<open>update_rows\<close> and
  \<open>update_count\<close> are the two halves of an \<open>updateMany\<close> (the new table and the
  \<open>count\<close> it returns), \<open>count_rows\<close> and \<open>sum_rows\<close> the aggregates.
\<close>

section \<open>Collections of facts\<close>

named_theorems op_defs \<open>definitions of the service operations\<close>
named_theorems frame_simps \<open>which tables an operation leaves alone\<close>

section \<open>Errors and outcomes\<close>

text \<open>
  The exception classes of the HTTP layer and the two database errors the code inspects.
  Only the class is kept: the message texts are for display.
\<close>

datatype error =
    BadRequest
  | Unauthorized
  | Forbidden
  | NotFound
  | Conflict
  | PayloadTooLarge
  | UnsupportedMediaType
  | UniqueViolation
  | InternalError

type_synonym 'a result = "error + 'a"
type_synonym ('a, 's) outcome = "(error + 'a) \<times> 's"

text \<open>
  An exception leaves the writes made before it in place, so an outcome carries a state in
  both cases; a transaction puts the old state back.
\<close>

definition ok :: "'a \<Rightarrow> 's \<Rightarrow> ('a, 's) outcome" where
  "ok x s = (Inr x, s)"

definition raise :: "error \<Rightarrow> 's \<Rightarrow> ('a, 's) outcome" where
  "raise e s = (Inl e, s)"

fun and_then :: "('a, 's) outcome \<Rightarrow> ('a \<Rightarrow> 's \<Rightarrow> ('b, 's) outcome) \<Rightarrow> ('b, 's) outcome" where
  "and_then (Inl e, s) f = (Inl e, s)"
| "and_then (Inr x, s) f = f x s"

definition transaction :: "('s \<Rightarrow> ('a, 's) outcome) \<Rightarrow> 's \<Rightarrow> ('a, 's) outcome" where
  "transaction body s = (case body s of (Inl e, s') \<Rightarrow> (Inl e, s) | (Inr x, s') \<Rightarrow> (Inr x, s'))"

fun succeeded :: "('a, 's) outcome \<Rightarrow> bool" where
  "succeeded (Inl e, s) = False"
| "succeeded (Inr x, s) = True"

lemma ok_simps [simp]: "fst (ok x s) = Inr x" "snd (ok x s) = s" "succeeded (ok x s)"
  by (simp_all add: ok_def)

lemma raise_simps [simp]: "fst (raise e s) = Inl e" "snd (raise e s) = s" "\<not> succeeded (raise e s)"
  by (simp_all add: raise_def)

lemma and_then_ok [simp]: "and_then (ok x s) f = f x s"
  by (simp add: ok_def)

lemma and_then_raise [simp]: "and_then (raise e s) f = raise e s"
  by (simp add: raise_def)

lemma ok_eq_iff [simp]: "ok x s = (r, t) \<longleftrightarrow> r = Inr x \<and> t = s"
  by (auto simp: ok_def)

lemma raise_eq_iff [simp]: "raise e s = (r, t) \<longleftrightarrow> r = Inl e \<and> t = s"
  by (auto simp: raise_def)

lemma ok_neq_raise [simp]: "ok x s \<noteq> raise e t" "raise e t \<noteq> ok x s"
  by (auto simp: ok_def raise_def)

lemma succeeded_iff: "succeeded r \<longleftrightarrow> (\<exists>x s. r = (Inr x, s))"
  by (cases r rule: succeeded.cases) auto

lemma and_then_Inr:
  "and_then r f = (Inr y, t) \<longleftrightarrow> (\<exists>x s. r = (Inr x, s) \<and> f x s = (Inr y, t))"
  by (cases r rule: succeeded.cases) auto

lemma and_then_eq:
  "and_then r f = (y, t) \<longleftrightarrow>
   (\<exists>e. r = (Inl e, t) \<and> y = Inl e) \<or> (\<exists>x s. r = (Inr x, s) \<and> f x s = (y, t))"
  by (cases r rule: succeeded.cases) auto

lemma transaction_Inr:
  "transaction body s = (Inr x, t) \<longleftrightarrow> body s = (Inr x, t)"
  by (auto simp: transaction_def split: prod.splits sum.splits)

text \<open>A failed transaction changes nothing.\<close>

lemma transaction_Inl: "transaction body s = (Inl e, t) \<Longrightarrow> t = s"
  by (auto simp: transaction_def split: prod.splits sum.splits)

lemma transaction_raise [simp]: "body s = raise e s' \<Longrightarrow> transaction body s = raise e s"
  by (simp add: transaction_def raise_def)

lemma transaction_ok [simp]: "body s = ok x s' \<Longrightarrow> transaction body s = ok x s'"
  by (simp add: transaction_def ok_def)

section \<open>Tables\<close>

definition find_row :: "('r \<Rightarrow> bool) \<Rightarrow> 'r list \<Rightarrow> 'r option" where
  "find_row P t = List.find P t"

definition find_latest :: "('r \<Rightarrow> bool) \<Rightarrow> 'r list \<Rightarrow> 'r option" where
  "find_latest P t = List.find P (rev t)"

definition update_rows :: "('r \<Rightarrow> bool) \<Rightarrow> ('r \<Rightarrow> 'r) \<Rightarrow> 'r list \<Rightarrow> 'r list" where
  "update_rows P f t = map (\<lambda>r. if P r then f r else r) t"

definition update_count :: "('r \<Rightarrow> bool) \<Rightarrow> 'r list \<Rightarrow> nat" where
  "update_count P t = length (filter P t)"

definition count_rows :: "('r \<Rightarrow> bool) \<Rightarrow> 'r list \<Rightarrow> nat" where
  "count_rows P t = length (filter P t)"

definition sum_rows :: "('r \<Rightarrow> bool) \<Rightarrow> ('r \<Rightarrow> int) \<Rightarrow> 'r list \<Rightarrow> int" where
  "sum_rows P f t = sum_list (map f (filter P t))"

definition delete_rows :: "('r \<Rightarrow> bool) \<Rightarrow> 'r list \<Rightarrow> 'r list" where
  "delete_rows P t = filter (\<lambda>r. \<not> P r) t"

lemma find_row_simps [simp]:
  "find_row P [] = None"
  "find_row P (r # t) = (if P r then Some r else find_row P t)"
  by (simp_all add: find_row_def)

lemma find_row_Some: "find_row P t = Some r \<Longrightarrow> r \<in> set t \<and> P r"
  by (auto simp: find_row_def find_Some_iff)

lemma find_row_None: "find_row P t = None \<longleftrightarrow> (\<forall>r \<in> set t. \<not> P r)"
  by (auto simp: find_row_def find_None_iff)

lemma find_latest_Some: "find_latest P t = Some r \<Longrightarrow> r \<in> set t \<and> P r"
  by (auto simp: find_latest_def find_Some_iff) (metis length_rev nth_mem set_rev)

lemma find_latest_None: "find_latest P t = None \<longleftrightarrow> (\<forall>r \<in> set t. \<not> P r)"
  by (auto simp: find_latest_def find_None_iff)

lemma find_row_append:
  "find_row P (t @ u) = (case find_row P t of Some r \<Rightarrow> Some r | None \<Rightarrow> find_row P u)"
  by (induction t) auto

lemma update_rows_simps [simp]:
  "update_rows P f [] = []"
  "update_rows P f (r # t) = (if P r then f r else r) # update_rows P f t"
  "update_rows P f (t @ u) = update_rows P f t @ update_rows P f u"
  "length (update_rows P f t) = length t"
  by (simp_all add: update_rows_def)

lemma set_update_rows: "set (update_rows P f t) = (\<lambda>r. if P r then f r else r) ` set t"
  by (simp add: update_rows_def)

lemma in_update_rowsD:
  "r \<in> set (update_rows P f t) \<Longrightarrow> (r \<in> set t \<and> \<not> P r) \<or> (\<exists>r' \<in> set t. P r' \<and> r = f r')"
  by (auto simp: set_update_rows split: if_splits)

lemma update_rows_id: "\<forall>r \<in> set t. \<not> P r \<Longrightarrow> update_rows P f t = t"
  by (induction t) auto

lemma update_count_0: "update_count P t = 0 \<longleftrightarrow> (\<forall>r \<in> set t. \<not> P r)"
  by (simp add: update_count_def filter_empty_conv)

lemma update_count_0_same: "update_count P t = 0 \<Longrightarrow> update_rows P f t = t"
  by (simp add: update_count_0 update_rows_id)

lemma map_key_update_rows:
  "(\<And>r. r \<in> set t \<Longrightarrow> P r \<Longrightarrow> key (f r) = key r) \<Longrightarrow> map key (update_rows P f t) = map key t"
  by (induction t) auto

lemma count_rows_simps [simp]:
  "count_rows P [] = 0"
  "count_rows P (r # t) = (if P r then Suc (count_rows P t) else count_rows P t)"
  "count_rows P (t @ u) = count_rows P t + count_rows P u"
  by (simp_all add: count_rows_def)

lemma sum_rows_simps [simp]:
  "sum_rows P f [] = 0"
  "sum_rows P f (r # t) = (if P r then f r + sum_rows P f t else sum_rows P f t)"
  "sum_rows P f (t @ u) = sum_rows P f t + sum_rows P f u"
  by (simp_all add: sum_rows_def)

lemma sum_rows_nonneg: "(\<And>r. r \<in> set t \<Longrightarrow> P r \<Longrightarrow> 0 \<le> f r) \<Longrightarrow> 0 \<le> sum_rows P f t"
  by (induction t) auto

lemma set_delete_rows [simp]: "set (delete_rows P t) = {r \<in> set t. \<not> P r}"
  by (auto simp: delete_rows_def)

section \<open>Lookup by primary key\<close>

text \<open>With distinct keys, a lookup by key finds the row that has it, and an update by key
  changes exactly that row.\<close>

lemma find_row_key:
  assumes "distinct (map key t)" "r \<in> set t"
  shows "find_row (\<lambda>x. key x = key r) t = Some r"
  using assms by (induction t) (auto simp: rev_image_eqI)

lemma find_row_key_unique:
  assumes "distinct (map key t)" "r \<in> set t" "r' \<in> set t" "key r = key r'"
  shows "r = r'"
  using assms by (metis find_row_key option.inject)

lemma find_row_update_rows:
  assumes "\<And>r. r \<in> set t \<Longrightarrow> P r \<Longrightarrow> key (f r) = key r"
  shows "find_row (\<lambda>x. key x = k) (update_rows P f t) =
         map_option (\<lambda>r. if P r then f r else r) (find_row (\<lambda>x. key x = k) t)"
  using assms by (induction t) auto

lemma update_count_key_le_1:
  assumes "distinct (map key t)"
  shows "update_count (\<lambda>r. key r = k \<and> Q r) t \<le> 1"
  using assms
proof (induction t)
  case (Cons r t)
  have "key r = k \<Longrightarrow> filter (\<lambda>r. key r = k \<and> Q r) t = []"
    using Cons.prems by (auto simp: filter_empty_conv rev_image_eqI)
  then show ?case using Cons by (auto simp: update_count_def)
qed (simp add: update_count_def)

lemma update_count_key_1:
  assumes "distinct (map key t)"
  shows "update_count (\<lambda>r. key r = k \<and> Q r) t = 1 \<longleftrightarrow> (\<exists>r \<in> set t. key r = k \<and> Q r)"
  using update_count_key_le_1 [OF assms, of k Q] update_count_0 [of "\<lambda>r. key r = k \<and> Q r" t]
  by (cases "update_count (\<lambda>r. key r = k \<and> Q r) t") auto

section \<open>Guarded updates\<close>

text \<open>
  The services resolve races with one idiom: read a row, decide on the status it had, then
  write with \<open>updateMany where id = k and status = <the status read>\<close> and treat
  \<open>count = 0\<close> as having lost.  \<open>cas_rows\<close> and \<open>cas_count\<close> are that write;
  the locale states what makes it safe, for any table.
\<close>

definition cas_rows :: "('r \<Rightarrow> 'k) \<Rightarrow> ('r \<Rightarrow> 'st) \<Rightarrow> 'k \<Rightarrow> 'st \<Rightarrow> ('r \<Rightarrow> 'r) \<Rightarrow> 'r list \<Rightarrow> 'r list" where
  "cas_rows key st k old f t = update_rows (\<lambda>r. key r = k \<and> st r = old) f t"

definition cas_count :: "('r \<Rightarrow> 'k) \<Rightarrow> ('r \<Rightarrow> 'st) \<Rightarrow> 'k \<Rightarrow> 'st \<Rightarrow> 'r list \<Rightarrow> nat" where
  "cas_count key st k old t = update_count (\<lambda>r. key r = k \<and> st r = old) t"

text \<open>
  \<open>upd a\<close> is the write of request \<open>a\<close>, \<open>guard a old\<close> the check the request made on
  the status it read.  A guarded write keeps the key and leaves the status it was guarded on.
\<close>

locale guarded_update =
  fixes key :: "'r \<Rightarrow> 'k"
    and st :: "'r \<Rightarrow> 'st"
    and upd :: "'a \<Rightarrow> 'r \<Rightarrow> 'r"
    and guard :: "'a \<Rightarrow> 'st \<Rightarrow> bool"
  assumes upd_key: "key (upd a r) = key r"
    and upd_moves: "guard a (st r) \<Longrightarrow> st (upd a r) \<noteq> st r"
begin

lemma keys_kept: "map key (cas_rows key st k old (upd a) t) = map key t"
  unfolding cas_rows_def by (rule map_key_update_rows) (simp add: upd_key)

text \<open>After a guarded write nobody else that read the same status can write.\<close>

lemma second_writer_loses:
  "guard a old \<Longrightarrow> cas_count key st k old (cas_rows key st k old (upd a) t) = 0"
proof -
  assume g: "guard a old"
  have "\<not> (key r = k \<and> st r = old)" if "r \<in> set (cas_rows key st k old (upd a) t)" for r
    using in_update_rowsD [OF that [unfolded cas_rows_def]] upd_moves [of a] g by blast
  then show ?thesis unfolding cas_count_def update_count_0 by blast
qed

lemma wins_iff:
  assumes "distinct (map key t)"
  shows "cas_count key st k old t = 1 \<longleftrightarrow> (\<exists>r \<in> set t. key r = k \<and> st r = old)"
  unfolding cas_count_def by (rule update_count_key_1 [OF assms])

text \<open>So of two racing writers exactly one wins, when the row still had the status.\<close>

lemma one_winner:
  assumes "distinct (map key t)" "r \<in> set t" "key r = k" "st r = old" "guard a old"
  shows "cas_count key st k old t = 1"
    "cas_count key st k old (cas_rows key st k old (upd a) t) = 0"
  using assms second_writer_loses wins_iff by auto

text \<open>A losing write leaves the table as it is.\<close>

lemma loser_changes_nothing:
  "cas_count key st k old t = 0 \<Longrightarrow> cas_rows key st k old (upd a) t = t"
  unfolding cas_count_def cas_rows_def by (rule update_count_0_same)

lemma other_rows_kept:
  assumes "r \<in> set t" "key r \<noteq> k"
  shows "r \<in> set (cas_rows key st k old (upd a) t)"
proof -
  have "(\<lambda>r. if key r = k \<and> st r = old then upd a r else r) r \<in> set (cas_rows key st k old (upd a) t)"
    unfolding cas_rows_def set_update_rows using assms(1) by (rule imageI)
  then show ?thesis using assms(2) by simp
qed

text \<open>What a winning write leaves in the row.\<close>

lemma winner_row:
  assumes "find_row (\<lambda>r. key r = k) t = Some r" "st r = old"
  shows "find_row (\<lambda>r. key r = k) (cas_rows key st k old (upd a) t) = Some (upd a r)"
proof -
  have "find_row (\<lambda>r. key r = k) (cas_rows key st k old (upd a) t) =
        map_option (\<lambda>r. if key r = k \<and> st r = old then upd a r else r) (find_row (\<lambda>r. key r = k) t)"
    unfolding cas_rows_def by (rule find_row_update_rows) (simp add: upd_key)
  then show ?thesis using assms find_row_Some [OF assms(1)] by simp
qed

end

end
