(* ===== verification/JsNumber.thy ===== *)
theory JsNumber
  imports Prelude Complex_Main
begin

text \<open>
  JavaScript numbers.  The code computes prices, scores and rates with IEEE-754 doubles, and
  a rounding error of one unit in the last place moves a quote by a whole step, so the model
  keeps the rounding: a number is a rational, and every product, quotient, sum and decimal
  literal of the source is followed by \<open>fl64\<close>, rounding to the nearest 53-bit
  significand with ties to even.  Overflow, subnormal numbers, infinities and NaN do not occur
  at the magnitudes of the program (amounts of so'm, scores, distances in metres) and are not
  modelled.

  What the services rely on is stated by the locale \<open>rounding\<close> and proved there for any
  rounding with those laws; \<open>fl64\<close> and exact arithmetic are its two interpretations.
\<close>

section \<open>Powers of two\<close>

definition pow2 :: "int \<Rightarrow> rat" where
  "pow2 e = (if 0 \<le> e then 2 ^ nat e else 1 / 2 ^ nat (- e))"

lemma pow2_pos [simp]: "0 < pow2 e"
  by (simp add: pow2_def)

lemma pow2_nonneg [simp]: "0 \<le> pow2 e"
  using pow2_pos [of e] by linarith

lemma pow2_nonzero [simp]: "pow2 e \<noteq> 0"
  using pow2_pos [of e] by linarith

lemma pow2_neg: "pow2 (- int n) = 1 / 2 ^ n"
  by (cases "n = 0") (simp_all add: pow2_def)

lemma pow2_Suc: "pow2 (e + 1) = 2 * pow2 e"
proof (cases "0 \<le> e")
  case True
  then show ?thesis by (simp add: pow2_def nat_add_distrib)
next
  case False
  define n where "n = nat (- e) - 1"
  have e: "e = - int (Suc n)" "e + 1 = - int n" using False by (simp_all add: n_def)
  show ?thesis unfolding e(2) pow2_neg unfolding e(1) pow2_neg by simp
qed

lemma pow2_add_nat: "pow2 (e + int n) = pow2 e * 2 ^ n"
proof (induction n)
  case (Suc n)
  have "pow2 (e + int (Suc n)) = pow2 ((e + int n) + 1)" by (simp add: algebra_simps)
  then show ?case using Suc by (simp only: pow2_Suc) simp
qed simp

lemma pow2_add: "pow2 (a + b) = pow2 a * pow2 b"
proof (cases "0 \<le> b")
  case True
  then show ?thesis using pow2_add_nat [of a "nat b"] by (simp add: pow2_def)
next
  case False
  have "pow2 a = pow2 ((a + b) + int (nat (- b)))" using False by simp
  also have "\<dots> = pow2 (a + b) * 2 ^ nat (- b)" by (rule pow2_add_nat)
  finally show ?thesis using False by (simp add: pow2_def)
qed

lemma pow2_mono: "a \<le> b \<Longrightarrow> pow2 a \<le> pow2 b"
proof -
  assume "a \<le> b"
  then have "pow2 b = pow2 a * 2 ^ nat (b - a)" using pow2_add_nat [of a "nat (b - a)"] by simp
  moreover have "(1::rat) \<le> 2 ^ nat (b - a)" by simp
  ultimately show ?thesis using mult_left_mono [of 1 "2 ^ nat (b - a)" "pow2 a"] by simp
qed

section \<open>The binary exponent of a positive rational\<close>

function bit_len :: "int \<Rightarrow> nat" where
  "bit_len n = (if n \<le> 0 then 0 else Suc (bit_len (n div 2)))"
  by pat_completeness auto
termination by (relation "measure nat") auto

declare bit_len.simps [simp del]

lemma bit_len_bounds: "0 < n \<Longrightarrow> 2 ^ (bit_len n - 1) \<le> n \<and> n < 2 ^ bit_len n"
proof (induction n rule: bit_len.induct)
  case (1 n)
  show ?case
  proof (cases "n = 1")
    case True
    then show ?thesis by (simp add: bit_len.simps [of 1] bit_len.simps [of 0])
  next
    case False
    with 1 have IH: "2 ^ (bit_len (n div 2) - 1) \<le> n div 2" "n div 2 < 2 ^ bit_len (n div 2)"
      by auto
    have "bit_len (n div 2) \<noteq> 0" using 1 False by (simp add: bit_len.simps [of "n div 2"])
    then obtain k where k: "bit_len (n div 2) = Suc k" by (cases "bit_len (n div 2)") auto
    from 1 k have "bit_len n = Suc (Suc k)" by (simp add: bit_len.simps [of n])
    with IH k show ?thesis by auto
  qed
qed

definition ilog2 :: "rat \<Rightarrow> int" where
  "ilog2 x = (let (n, d) = quotient_of x;
                  k = int (bit_len n) - int (bit_len d)
              in if pow2 k \<le> x then k else k - 1)"

lemma bit_len_pow2:
  assumes "0 < n"
  shows "pow2 (int (bit_len n) - 1) \<le> of_int n" "of_int n < pow2 (int (bit_len n))"
proof -
  from assms have b: "2 ^ (bit_len n - 1) \<le> n" "n < 2 ^ bit_len n"
    using bit_len_bounds [of n] by auto
  have pos: "0 < bit_len n" using assms by (simp add: bit_len.simps [of n])
  have "(of_int (2 ^ (bit_len n - 1)) :: rat) \<le> of_int n"
    using b(1) by (simp only: of_int_le_iff)
  then show "pow2 (int (bit_len n) - 1) \<le> of_int n"
    using pos by (simp add: pow2_def nat_diff_distrib)
  have "(of_int n :: rat) < of_int (2 ^ bit_len n)"
    using b(2) by (simp only: of_int_less_iff)
  then show "of_int n < pow2 (int (bit_len n))" by (simp add: pow2_def)
qed

lemma ilog2_bounds:
  assumes "0 < x"
  shows "pow2 (ilog2 x) \<le> x \<and> x < pow2 (ilog2 x + 1)"
proof -
  obtain n d where q: "quotient_of x = (n, d)" by (cases "quotient_of x")
  have d: "0 < d" and x: "x = of_int n / of_int d"
    using quotient_of_denom_pos [OF q] quotient_of_div [OF q] by auto
  have n: "0 < n" using assms d by (simp add: x zero_less_divide_iff)
  define a b where "a = int (bit_len n)" and "b = int (bit_len d)"
  note bn = bit_len_pow2 [OF n, folded a_def] and bd = bit_len_pow2 [OF d, folded b_def]
  have dpos: "(0::rat) < of_int d" using d by simp
  have "of_int n < pow2 a" by (rule bn)
  also have "pow2 a = pow2 (a - b + 1) * pow2 (b - 1)"
    using pow2_add [of "a - b + 1" "b - 1"] by simp
  also have "\<dots> \<le> pow2 (a - b + 1) * of_int d" using bd(1) by (simp add: mult_left_mono)
  finally have up: "x < pow2 (a - b + 1)" using dpos by (simp add: x pos_divide_less_eq)
  have "pow2 (a - b - 1) * of_int d \<le> pow2 (a - b - 1) * pow2 b"
    using bd(2) by (simp add: mult_left_mono)
  also have "\<dots> = pow2 (a - 1)" using pow2_add [of "a - b - 1" b] by simp
  also have "\<dots> \<le> of_int n" by (rule bn)
  finally have low: "pow2 (a - b - 1) \<le> x" using dpos by (simp add: x pos_le_divide_eq)
  show ?thesis using up low unfolding ilog2_def q a_def b_def by (auto simp: Let_def)
qed

lemma ilog2_mono:
  assumes "0 < x" "x \<le> y"
  shows "ilog2 x \<le> ilog2 y"
proof (rule ccontr)
  assume "\<not> ilog2 x \<le> ilog2 y"
  then have "ilog2 y + 1 \<le> ilog2 x" by simp
  then have "pow2 (ilog2 y + 1) \<le> pow2 (ilog2 x)" by (rule pow2_mono)
  moreover have "pow2 (ilog2 x) \<le> x" "y < pow2 (ilog2 y + 1)"
    using ilog2_bounds [of x] ilog2_bounds [of y] assms by auto
  ultimately show False using assms by linarith
qed

section \<open>Rounding to an integer, ties to even\<close>

definition round_even :: "rat \<Rightarrow> int" where
  "round_even x = (let f = \<lfloor>x\<rfloor>; r = x - of_int f in
     if r < 1 / 2 then f else if r > 1 / 2 then f + 1 else if even f then f else f + 1)"

lemma round_even_int [simp]: "round_even (of_int n) = n"
  by (simp add: round_even_def Let_def)

lemma round_even_bounds: "\<lfloor>x\<rfloor> \<le> round_even x" "round_even x \<le> \<lfloor>x\<rfloor> + 1"
  by (auto simp: round_even_def Let_def)

lemma round_even_mono: "x \<le> y \<Longrightarrow> round_even x \<le> round_even y"
proof (cases "\<lfloor>x\<rfloor> = \<lfloor>y\<rfloor>")
  case True
  then show "x \<le> y \<Longrightarrow> round_even x \<le> round_even y" by (auto simp: round_even_def Let_def)
next
  case False
  assume "x \<le> y"
  then have "\<lfloor>x\<rfloor> + 1 \<le> \<lfloor>y\<rfloor>" using False floor_mono [of x y] by linarith
  then show ?thesis using round_even_bounds [of x] round_even_bounds [of y] by linarith
qed

lemma round_even_err: "\<bar>of_int (round_even x) - x\<bar> \<le> 1 / 2"
proof -
  have "of_int \<lfloor>x\<rfloor> \<le> x" "x < of_int \<lfloor>x\<rfloor> + 1" by linarith+
  then show ?thesis
    unfolding round_even_def Let_def by (simp split: if_split)
qed

lemma round_even_minus: "round_even (- x) = - round_even x"
proof (cases "x = of_int \<lfloor>x\<rfloor>")
  case True
  then show ?thesis by (metis of_int_minus round_even_int)
next
  case False
  have b: "of_int \<lfloor>x\<rfloor> \<le> x" "x < of_int \<lfloor>x\<rfloor> + 1" by linarith+
  have "\<lfloor>- x\<rfloor> = - \<lfloor>x\<rfloor> - 1"
    by (rule floor_unique) (use b False in \<open>auto simp: less_le\<close>)
  then show ?thesis by (auto simp: round_even_def Let_def)
qed

section \<open>Doubles\<close>

definition fl64 :: "rat \<Rightarrow> rat" where
  "fl64 x = (if x = 0 then 0
     else let p = pow2 (ilog2 \<bar>x\<bar> - 52) in of_int (round_even (x / p)) * p)"

lemma fl64_0 [simp]: "fl64 0 = 0"
  by (simp add: fl64_def)

lemma fl64_minus: "fl64 (- x) = - fl64 x"
  by (simp add: fl64_def Let_def round_even_minus)

lemma fl64_scaled:
  assumes "0 < x"
  defines "p \<equiv> pow2 (ilog2 x - 52)"
  shows "fl64 x = of_int (round_even (x / p)) * p" "2 ^ 52 \<le> x / p" "x / p < 2 ^ 53"
proof -
  show "fl64 x = of_int (round_even (x / p)) * p"
    using assms by (simp add: fl64_def Let_def)
  have p: "0 < p" by (simp add: p_def)
  have "pow2 (ilog2 x) = 2 ^ 52 * p"
    using pow2_add_nat [of "ilog2 x - 52" 52] by (simp add: p_def)
  moreover have "pow2 (ilog2 x + 1) = 2 ^ 53 * p"
    using pow2_add_nat [of "ilog2 x - 52" 53] by (simp add: p_def algebra_simps)
  ultimately show "2 ^ 52 \<le> x / p" "x / p < 2 ^ 53"
    using ilog2_bounds [OF assms(1)] p by (simp_all add: pos_le_divide_eq pos_divide_less_eq)
qed

lemma fl64_between:
  assumes "0 < x"
  shows "pow2 (ilog2 x) \<le> fl64 x" "fl64 x \<le> pow2 (ilog2 x + 1)"
proof -
  define p where "p = pow2 (ilog2 x - 52)"
  note s = fl64_scaled [OF assms, folded p_def]
  have "(2 ^ 52 :: int) \<le> round_even (x / p)"
    using round_even_mono [of "of_int (2 ^ 52)" "x / p"] s(2) by (simp only: round_even_int) simp
  then have lo: "(2 ^ 52 :: rat) \<le> of_int (round_even (x / p))"
    by (metis of_int_le_iff of_int_numeral of_int_power)
  have "round_even (x / p) \<le> 2 ^ 53"
    using round_even_mono [of "x / p" "of_int (2 ^ 53)"] s(3) by (simp only: round_even_int) simp
  then have hi: "of_int (round_even (x / p)) \<le> (2 ^ 53 :: rat)"
    by (metis of_int_le_iff of_int_numeral of_int_power)
  have "pow2 (ilog2 x) = 2 ^ 52 * p"
    using pow2_add_nat [of "ilog2 x - 52" 52] by (simp add: p_def)
  with lo s(1) show "pow2 (ilog2 x) \<le> fl64 x" by (simp add: p_def mult_right_mono)
  have "pow2 (ilog2 x + 1) = 2 ^ 53 * p"
    using pow2_add_nat [of "ilog2 x - 52" 53] by (simp add: p_def algebra_simps)
  with hi s(1) show "fl64 x \<le> pow2 (ilog2 x + 1)" by (simp add: p_def mult_right_mono)
qed

lemma fl64_pos: "0 < x \<Longrightarrow> 0 < fl64 x"
  using fl64_between(1) [of x] pow2_pos [of "ilog2 x"] by linarith

lemma fl64_mono_pos:
  assumes "0 < x" "x \<le> y"
  shows "fl64 x \<le> fl64 y"
proof (cases "ilog2 x = ilog2 y")
  case True
  define p where "p = pow2 (ilog2 x - 52)"
  have "x / p \<le> y / p" using assms by (simp add: p_def divide_right_mono)
  then have "of_int (round_even (x / p)) \<le> (of_int (round_even (y / p)) :: rat)"
    by (simp add: round_even_mono)
  then show ?thesis
    using fl64_scaled(1) [of x] fl64_scaled(1) [of y] assms True
    by (simp add: p_def mult_right_mono)
next
  case False
  then have "ilog2 x + 1 \<le> ilog2 y" using ilog2_mono [OF assms] by linarith
  then have "pow2 (ilog2 x + 1) \<le> pow2 (ilog2 y)" by (rule pow2_mono)
  then show ?thesis using fl64_between [of x] fl64_between [of y] assms by linarith
qed

lemma fl64_mono: "x \<le> y \<Longrightarrow> fl64 x \<le> fl64 y"
proof -
  assume le: "x \<le> y"
  consider "0 < x" | "x \<le> 0" "0 \<le> y" | "y < 0" by linarith
  then show ?thesis
  proof cases
    case 1
    then show ?thesis using le by (rule fl64_mono_pos)
  next
    case 2
    have "fl64 x \<le> 0" using 2 fl64_pos [of "- x"] fl64_minus [of x] by (cases "x = 0") auto
    moreover have "0 \<le> fl64 y" using 2 fl64_pos [of y] by (cases "y = 0") auto
    ultimately show ?thesis by linarith
  next
    case 3
    have "fl64 (- y) \<le> fl64 (- x)" using 3 le by (intro fl64_mono_pos) auto
    then show ?thesis by (simp add: fl64_minus)
  qed
qed

text \<open>A number with a 53-bit significand is its own rounding.\<close>

lemma fl64_representable:
  assumes "0 < m" "m \<le> 2 ^ 53"
  shows "fl64 (of_int m * pow2 e) = of_int m * pow2 e"
proof -
  define y where "y = (of_int m * pow2 e :: rat)"
  have y: "0 < y" using assms by (simp add: y_def)
  define k where "k = ilog2 y"
  have p: "0 < pow2 (k - 52)" by simp
  have "\<exists>n::int. y / pow2 (k - 52) = of_int n"
  proof (cases "k - 52 \<le> e")
    case True
    have "pow2 e = pow2 (k - 52) * 2 ^ nat (e - (k - 52))"
      using pow2_add_nat [of "k - 52" "nat (e - (k - 52))"] True by simp
    then have "y / pow2 (k - 52) = of_int (m * 2 ^ nat (e - (k - 52)))" by (simp add: y_def)
    then show ?thesis by blast
  next
    case False
    then have "pow2 e \<le> pow2 (k - 53)" by (intro pow2_mono) simp
    moreover have "(of_int m :: rat) \<le> 2 ^ 53" using assms(2) by simp
    ultimately have "y \<le> 2 ^ 53 * pow2 (k - 53)" unfolding y_def using assms(1)
      by (intro mult_mono) auto
    also have "\<dots> = pow2 k" using pow2_add_nat [of "k - 53" 53] by simp
    finally have "y = pow2 k" using ilog2_bounds [OF y] by (simp add: k_def)
    moreover have "pow2 k = pow2 (k - 52) * 2 ^ 52" using pow2_add_nat [of "k - 52" 52] by simp
    ultimately have "y / pow2 (k - 52) = of_int (2 ^ 52)" by simp
    then show ?thesis by blast
  qed
  then obtain n :: int where n: "y / pow2 (k - 52) = of_int n" by blast
  then have "y = of_int n * pow2 (k - 52)" using p by (simp add: field_simps)
  then show ?thesis
    using fl64_scaled(1) [OF y] n by (simp add: k_def flip: y_def)
qed

lemma fl64_int_pos: "0 < n \<Longrightarrow> n \<le> 2 ^ 53 \<Longrightarrow> fl64 (of_int n) = of_int n"
  using fl64_representable [of n 0] by (simp add: pow2_def)

lemma fl64_idem_pos:
  assumes "0 < x" shows "fl64 (fl64 x) = fl64 x"
proof -
  note s = fl64_scaled [OF assms]
  let ?p = "pow2 (ilog2 x - 52)"
  have "(2 ^ 52 :: int) \<le> round_even (x / ?p)"
    using round_even_mono [of "of_int (2 ^ 52)" "x / ?p"] s(2) by (simp only: round_even_int) simp
  moreover have "round_even (x / ?p) \<le> 2 ^ 53"
    using round_even_mono [of "x / ?p" "of_int (2 ^ 53)"] s(3) by (simp only: round_even_int) simp
  ultimately show ?thesis
    unfolding s(1) by (intro fl64_representable) simp_all
qed

lemma fl64_idem: "fl64 (fl64 x) = fl64 x"
proof -
  consider "0 < x" | "x = 0" | "0 < - x" by linarith
  then show ?thesis
  proof cases
    case 3
    then show ?thesis using fl64_idem_pos [of "- x"] by (simp add: fl64_minus)
  qed (simp_all add: fl64_idem_pos)
qed

lemma fl64_int:
  assumes "\<bar>n\<bar> \<le> 2 ^ 53"
  shows "fl64 (of_int n) = of_int n"
proof -
  consider "0 < n" | "n = 0" | "n < 0" by linarith
  then show ?thesis
  proof cases
    case 3
    then have "fl64 (of_int (- n)) = of_int (- n)" using assms by (intro fl64_int_pos) auto
    then show ?thesis using fl64_minus [of "of_int n"] by simp
  qed (use assms fl64_int_pos in auto)
qed

lemma fl64_err: "\<bar>fl64 x - x\<bar> \<le> \<bar>x\<bar> / 2 ^ 53"
proof -
  have pos: "\<bar>fl64 y - y\<bar> \<le> y / 2 ^ 53" if y: "0 < y" for y
  proof -
    define p where "p = pow2 (ilog2 y - 52)"
    note s = fl64_scaled [OF y, folded p_def]
    have p: "0 < p" by (simp add: p_def)
    have "fl64 y - y = (of_int (round_even (y / p)) - y / p) * p"
      using p by (simp add: s(1) algebra_simps)
    then have "\<bar>fl64 y - y\<bar> = \<bar>of_int (round_even (y / p)) - y / p\<bar> * p"
      using p by (simp add: abs_mult)
    also have "\<dots> \<le> 1 / 2 * p" using round_even_err p by (intro mult_right_mono) auto
    also have "\<dots> \<le> y / 2 ^ 53" using s(2) p by (simp add: pos_le_divide_eq field_simps)
    finally show ?thesis .
  qed
  consider "0 < x" | "x = 0" | "0 < - x" by linarith
  then show ?thesis
    by cases (use pos [of x] pos [of "- x"] fl64_minus [of x] in \<open>auto simp: abs_if split: if_splits\<close>)
qed

section \<open>What the services rely on\<close>

locale rounding =
  fixes fl :: "rat \<Rightarrow> rat"
  assumes fl_mono: "x \<le> y \<Longrightarrow> fl x \<le> fl y"
    and fl_int: "\<bar>n\<bar> \<le> 2 ^ 53 \<Longrightarrow> fl (of_int n) = of_int n"
    and fl_err: "\<bar>fl x - x\<bar> \<le> \<bar>x\<bar> / 2 ^ 53"
    and fl_idem: "fl (fl x) = fl x"
begin

lemma fl_0: "fl 0 = 0"
  using fl_int [of 0] by simp

lemma fl_1: "fl 1 = 1"
  using fl_int [of 1] by simp

lemma fl_numeral: "(numeral w :: int) \<le> 2 ^ 53 \<Longrightarrow> fl (numeral w) = numeral w"
  using fl_int [of "numeral w"] by simp

lemma fl_nonneg: "0 \<le> x \<Longrightarrow> 0 \<le> fl x"
  using fl_mono [of 0 x] fl_0 by simp

lemma fl_le_int: "x \<le> of_int n \<Longrightarrow> \<bar>n\<bar> \<le> 2 ^ 53 \<Longrightarrow> fl x \<le> of_int n"
  using fl_mono [of x "of_int n"] fl_int [of n] by simp

lemma fl_ge_int: "of_int n \<le> x \<Longrightarrow> \<bar>n\<bar> \<le> 2 ^ 53 \<Longrightarrow> of_int n \<le> fl x"
  using fl_mono [of "of_int n" x] fl_int [of n] by simp

lemma fl_unit: "0 \<le> x \<Longrightarrow> x \<le> 1 \<Longrightarrow> 0 \<le> fl x \<and> fl x \<le> 1"
  using fl_nonneg [of x] fl_le_int [of x 1] by simp

end

interpretation double: rounding fl64
  by (rule rounding.intro) (rule fl64_mono fl64_int fl64_err fl64_idem, assumption?)+

interpretation exact: rounding "\<lambda>x. x"
  by unfold_locales simp_all

section \<open>\<open>Math.floor\<close>, \<open>Math.ceil\<close>, \<open>Math.round\<close>\<close>

text \<open>
  \<open>Math.round\<close> rounds half up, exactly; the other two are the integer floor and ceiling.
\<close>

definition js_floor :: "rat \<Rightarrow> int" where
  "js_floor x = \<lfloor>x\<rfloor>"

definition js_ceil :: "rat \<Rightarrow> int" where
  "js_ceil x = \<lceil>x\<rceil>"

definition js_round :: "rat \<Rightarrow> int" where
  "js_round x = \<lfloor>x + 1 / 2\<rfloor>"

lemma js_round_mono: "x \<le> y \<Longrightarrow> js_round x \<le> js_round y"
  by (simp add: js_round_def floor_mono)

lemma js_round_int [simp]: "js_round (of_int n) = n"
  unfolding js_round_def by (rule floor_unique) auto

lemma js_round_0 [simp]: "js_round 0 = 0"
  using js_round_int [of 0] by simp

lemma js_round_err: "\<bar>of_int (js_round x) - x\<bar> \<le> 1 / 2"
  unfolding js_round_def by linarith

text \<open>A value written to a \<open>numeric(_, 2)\<close> column keeps two decimals (half up for the
  nonnegative values the code writes).\<close>

definition numeric2 :: "rat \<Rightarrow> rat" where
  "numeric2 x = of_int (js_round (x * 100)) / 100"

lemma numeric2_mono: "x \<le> y \<Longrightarrow> numeric2 x \<le> numeric2 y"
  by (simp add: numeric2_def js_round_mono divide_right_mono)

lemma numeric2_int [simp]: "numeric2 (of_int n) = of_int n"
proof -
  have "(of_int n :: rat) * 100 = of_int (n * 100)" by simp
  then show ?thesis unfolding numeric2_def using js_round_int [of "n * 100"] by simp
qed

text \<open>A coordinate column is \<open>numeric(9, 6)\<close>: six decimals, half away from zero.\<close>

definition numeric6 :: "rat \<Rightarrow> rat" where
  "numeric6 x = (if 0 \<le> x then of_int (js_round (x * 1000000)) / 1000000
                 else - (of_int (js_round (- x * 1000000)) / 1000000))"

end
