(* ===== verification/Schema.thy ===== *)
theory Schema
  imports Prelude JsNumber "HOL-Library.Word"
begin

text \<open>
  The data of the program: the enumerations of \<open>packages/contracts/src\<close>, one record per
  table of \<open>apps/api/prisma/schema.prisma\<close>, and the state \<open>db\<close> every operation reads and
  returns updated.  Ids are naturals taken from one counter, times are milliseconds, texts are
  character lists, coordinates, ratings and rates are rationals.

  Besides the tables the state keeps what the services send out of the process: the socket
  events per user room, the delayed jobs of the dispatch queue, the SMS messages, the stored
  files, the push messages, and the Redis counters of the rate limits.

  Titles and bodies of notifications are display texts and are left out; the kind, the addressee
  and the data of a notification are kept.
\<close>

section \<open>Enumerations\<close>

datatype role = CUSTOMER | MASTER | ADMIN

datatype user_status = U_PENDING | U_ACTIVE | U_SUSPENDED | U_BANNED

datatype locale_code = UZ | RU

datatype verification_status = V_UNVERIFIED | V_PENDING | V_VERIFIED | V_REJECTED

datatype verification_provider = MYID | MANUAL

datatype otp_purpose = SIGNUP | LOGIN | RESET

datatype media_kind = PHOTO | VIDEO

datatype uploader = By_Customer | By_Master

datatype master_media_kind = CERTIFICATION | PORTFOLIO

datatype availability_kind = BUSY | BOOKED

datatype service_tier = SCHEDULED | PRIORITY | EMERGENCY

datatype complexity = SIMPLE | MEDIUM | COMPLEX | CRITICAL

datatype order_status =
    DRAFT | PRICED | SEARCHING | ASSIGNED | EN_ROUTE | IN_PROGRESS | COMPLETED | CLOSED
  | CANCELLED_BY_CUSTOMER | CANCELLED_BY_MASTER | EXPIRED | DISPUTED

datatype dispatch_status = D_OFFERED | D_ACCEPTED | D_DECLINED | D_EXPIRED | D_WITHDRAWN

datatype notification_type =
    OFFER_RECEIVED | OFFER_EXPIRED | ORDER_ASSIGNED | ORDER_SEARCH_FAILED | ORDER_COMPLETED
  | ORDER_CLOSED | PAYMENT_SUCCEEDED | PAYMENT_FAILED | VERIFICATION_APPROVED
  | VERIFICATION_REJECTED | GUARANTEE_CLAIM_DECIDED | PENALTY_ISSUED | REFERRAL_REWARDED
  | ORDER_CANCELLED_BY_MASTER | PAYMENT_RESOLVED

datatype payment_status =
    P_PENDING | P_PROCESSING | P_SUCCEEDED | P_FAILED | P_CANCELLED | P_REFUNDED

datatype payment_method = CLICK | PAYME | UZUM | MOCK

datatype penalty_event = CANCELLATION | NO_SHOW | LATE_RESPONSE | POOR_QUALITY | CUSTOMER_COMPLAINT

datatype penalty_severity = MINOR | MODERATE | SEVERE

datatype claim_status = C_OPEN | C_UNDER_REVIEW | C_APPROVED | C_REJECTED

datatype referral_status = R_PENDING | R_ACTIVE | R_REWARDED

datatype cashback_source = REFERRAL_REWARD | PROMOTION

datatype cashback_status = ELIGIBLE | REDEEMED

datatype subscription_plan = FREE | PREMIUM

datatype subscription_status = S_ACTIVE | S_TRIAL | S_EXPIRED | S_CANCELLED

section \<open>Rows\<close>

type_synonym id = nat
type_synonym time = int
type_synonym byte = "8 word"

datatype json =
    JNull
  | JBool bool
  | JInt int
  | JStr string
  | JObj "(string \<times> json) list"

datatype object_key = Object_Key id string

record user_row =
  u_id :: id
  u_phone :: string
  u_password :: string
  u_role :: role
  u_status :: user_status
  u_referral_code :: string
  u_locale :: locale_code
  u_created :: time

record customer_profile_row =
  cp_user :: id
  cp_name :: "string option"
  cp_avatar :: "string option"

record master_row =
  m_user :: id
  m_name :: "string option"
  m_avatar :: "string option"
  m_years :: int
  m_bio :: "string option"
  m_verification :: verification_status
  m_trust_tier :: int
  m_rating :: rat
  m_jobs :: int
  m_pinfl :: "string option"
  m_self_employed :: bool
  m_online :: bool
  m_online_since :: "time option"

record category_row =
  c_id :: id
  c_slug :: string
  c_name_uz :: string
  c_name_ru :: string
  c_base_min :: int
  c_base_max :: int
  c_warranty :: bool
  c_active :: bool
  c_icon :: "string option"
  c_sort :: int

record skill_row =
  sk_master :: id
  sk_category :: id

record master_media_row =
  mm_id :: id
  mm_master :: id
  mm_kind :: master_media_kind
  mm_key :: object_key
  mm_mime :: string
  mm_caption :: "string option"
  mm_approved :: bool

record area_row =
  sa_id :: id
  sa_master :: id
  sa_label :: string
  sa_lat :: rat
  sa_lng :: rat
  sa_radius :: int

record slot_row =
  av_master :: id
  av_day :: string
  av_kind :: availability_kind

record verification_row =
  v_id :: id
  v_master :: id
  v_provider :: verification_provider
  v_status :: verification_status
  v_note :: "string option"
  v_decided_by :: "id option"
  v_decided_at :: "time option"
  v_created :: time

record address_row =
  a_id :: id
  a_user :: id
  a_label :: string
  a_text :: string
  a_lat :: rat
  a_lng :: rat
  a_default :: bool
  a_created :: time

record session_row =
  s_id :: id
  s_user :: id
  s_hash :: string
  s_expires :: time
  s_revoked :: "time option"

record otp_row =
  otp_id :: id
  otp_phone :: string
  otp_hash :: string
  otp_purpose :: otp_purpose
  otp_attempts :: nat
  otp_expires :: time
  otp_used :: "time option"

record device_row =
  dv_user :: id
  dv_token :: string

record ai_diagnosis =
  ai_summary :: string
  ai_category :: "id option"
  ai_slug :: "string option"
  ai_complexity :: complexity
  ai_confidence :: rat
  ai_source :: string
  ai_version :: string

record order_row =
  o_id :: id
  o_no :: nat
  o_customer :: id
  o_category :: "id option"
  o_description :: string
  o_status :: order_status
  o_tier :: service_tier
  o_scheduled :: "time option"
  o_address :: "string option"
  o_lat :: "rat option"
  o_lng :: "rat option"
  o_master :: "id option"
  o_complexity :: "complexity option"
  o_ai :: "ai_diagnosis option"
  o_price_min :: "int option"
  o_price_max :: "int option"
  o_fee :: int
  o_final :: "int option"
  o_consent :: "time option"
  o_submitted :: "time option"
  o_cancelled :: "time option"
  o_created :: time

record media_row =
  md_id :: id
  md_order :: id
  md_kind :: media_kind
  md_role :: uploader
  md_key :: object_key
  md_mime :: string
  md_size :: nat

record history_row =
  h_id :: id
  h_order :: id
  h_from :: "order_status option"
  h_to :: order_status
  h_actor :: "id option"
  h_note :: "string option"
  h_at :: time

record payment_row =
  p_id :: id
  p_order :: id
  p_customer :: id
  p_method :: payment_method
  p_status :: payment_status
  p_amount :: int
  p_fee :: int
  p_tax_rate :: rat
  p_tax :: int
  p_net :: int
  p_ref :: "string option"
  p_failure :: "string option"
  p_note :: "string option"
  p_resolved_by :: "id option"
  p_resolved_at :: "time option"
  p_created :: time
  p_succeeded_at :: "time option"
  p_failed_at :: "time option"

record dispatch_row =
  d_id :: id
  d_order :: id
  d_master :: id
  d_rank :: nat
  d_distance :: int
  d_score :: rat
  d_status :: dispatch_status
  d_lead :: bool
  d_offered_at :: time
  d_expires :: time
  d_responded :: "time option"

record notification_row =
  n_id :: id
  n_user :: id
  n_type :: notification_type
  n_data :: "(string \<times> json) list"
  n_read :: "time option"
  n_at :: time

record review_row =
  r_id :: id
  r_order :: id
  r_customer :: id
  r_master :: id
  r_rating :: int
  r_comment :: "string option"
  r_at :: time

record penalty_row =
  pn_id :: id
  pn_master :: id
  pn_event :: penalty_event
  pn_severity :: penalty_severity
  pn_points :: int
  pn_order :: "id option"
  pn_note :: "string option"
  pn_at :: time

record claim_row =
  g_id :: id
  g_order :: id
  g_customer :: id
  g_reason :: string
  g_status :: claim_status
  g_decided_by :: "id option"
  g_decided_at :: "time option"
  g_note :: "string option"
  g_at :: time

record referral_row =
  rf_id :: id
  rf_referrer :: id
  rf_referee :: id
  rf_status :: referral_status
  rf_rewarded_at :: "time option"
  rf_at :: time

record cashback_row =
  cb_id :: id
  cb_user :: id
  cb_amount :: int
  cb_source :: cashback_source
  cb_status :: cashback_status
  cb_referral :: "id option"
  cb_at :: time

record subscription_row =
  sb_master :: id
  sb_plan :: subscription_plan
  sb_status :: subscription_status
  sb_trial_ends :: "time option"
  sb_period_end :: "time option"

record audit_row =
  al_id :: id
  al_actor :: id
  al_action :: string
  al_entity :: string
  al_entity_id :: "string option"
  al_before :: "json option"
  al_after :: "json option"
  al_at :: time

record flag_row =
  ff_key :: string
  ff_enabled :: bool
  ff_description :: "string option"
  ff_updated :: time

section \<open>What leaves the process\<close>

datatype socket_event =
    Ev_Order_Updated id order_status
  | Ev_Offer_Received id
  | Ev_Notification id
  | Ev_Location id rat rat

datatype redis_key =
    Otp_Cooldown otp_purpose string
  | Otp_Daily string
  | Login_Fail string

record redis_entry =
  re_count :: nat
  re_expires :: "time option"

section \<open>The state\<close>

record db =
  users :: "user_row list"
  customer_profiles :: "customer_profile_row list"
  masters :: "master_row list"
  categories :: "category_row list"
  skills :: "skill_row list"
  master_media :: "master_media_row list"
  areas :: "area_row list"
  slots :: "slot_row list"
  verifications :: "verification_row list"
  addresses :: "address_row list"
  sessions :: "session_row list"
  otps :: "otp_row list"
  devices :: "device_row list"
  orders :: "order_row list"
  media :: "media_row list"
  history :: "history_row list"
  payments :: "payment_row list"
  dispatches :: "dispatch_row list"
  notifications :: "notification_row list"
  reviews :: "review_row list"
  penalties :: "penalty_row list"
  claims :: "claim_row list"
  referrals :: "referral_row list"
  cashbacks :: "cashback_row list"
  subscriptions :: "subscription_row list"
  audit_logs :: "audit_row list"
  flags :: "flag_row list"
  next_id :: id
  next_order_no :: nat
  emitted :: "(id \<times> socket_event) list"
  jobs :: "(id \<times> time) list"
  sms_sent :: "(string \<times> string) list"
  files :: "(object_key \<times> byte list) list"
  pushes :: "(string \<times> id) list"
  redis :: "(redis_key \<times> redis_entry) list"

end
