(* ===== verification/OrderState.thy ===== *)
theory OrderState
  imports Schema
begin

text \<open>
  The order state machine of \<open>modules/orders/order-state.ts\<close>: the transition table, its
  guard \<open>canTransition\<close> and the status sets the services test.  The lemmas give the shape
  of every path through the table; the orders theory shows that the recorded histories are such
  paths.
\<close>

section \<open>The table and its guard\<close>

fun transitions :: "order_status \<Rightarrow> order_status list" where
  "transitions DRAFT = [PRICED, CANCELLED_BY_CUSTOMER]"
| "transitions PRICED = [PRICED, DRAFT, SEARCHING, CANCELLED_BY_CUSTOMER]"
| "transitions SEARCHING = [ASSIGNED, EXPIRED, CANCELLED_BY_CUSTOMER]"
| "transitions ASSIGNED = [EN_ROUTE, CANCELLED_BY_CUSTOMER, CANCELLED_BY_MASTER]"
| "transitions EN_ROUTE = [IN_PROGRESS, CANCELLED_BY_CUSTOMER, CANCELLED_BY_MASTER]"
| "transitions IN_PROGRESS = [COMPLETED]"
| "transitions COMPLETED = [CLOSED]"
| "transitions CLOSED = []"
| "transitions CANCELLED_BY_CUSTOMER = []"
| "transitions CANCELLED_BY_MASTER = []"
| "transitions EXPIRED = []"
| "transitions DISPUTED = []"

definition can_transition :: "order_status \<Rightarrow> order_status \<Rightarrow> bool" where
  "can_transition from to = (to \<in> set (transitions from))"

definition editable_statuses :: "order_status list" where
  "editable_statuses = [DRAFT, PRICED]"

definition active_master_job_statuses :: "order_status list" where
  "active_master_job_statuses = [ASSIGNED, EN_ROUTE, IN_PROGRESS, COMPLETED]"

lemma can_transition_iff [simp]:
  "can_transition s PRICED \<longleftrightarrow> s = DRAFT \<or> s = PRICED"
  "can_transition s DRAFT \<longleftrightarrow> s = PRICED"
  "can_transition s SEARCHING \<longleftrightarrow> s = PRICED"
  "can_transition s ASSIGNED \<longleftrightarrow> s = SEARCHING"
  "can_transition s EN_ROUTE \<longleftrightarrow> s = ASSIGNED"
  "can_transition s IN_PROGRESS \<longleftrightarrow> s = EN_ROUTE"
  "can_transition s COMPLETED \<longleftrightarrow> s = IN_PROGRESS"
  "can_transition s CLOSED \<longleftrightarrow> s = COMPLETED"
  "can_transition s EXPIRED \<longleftrightarrow> s = SEARCHING"
  "can_transition s CANCELLED_BY_MASTER \<longleftrightarrow> s = ASSIGNED \<or> s = EN_ROUTE"
  "can_transition s CANCELLED_BY_CUSTOMER \<longleftrightarrow> s \<in> {DRAFT, PRICED, SEARCHING, ASSIGNED, EN_ROUTE}"
  "\<not> can_transition s DISPUTED"
  by (cases s; simp add: can_transition_def)+

lemma can_transition_irrefl: "can_transition s s \<Longrightarrow> s = PRICED"
  by (cases s) (auto simp: can_transition_def)

section \<open>Statuses and assignment\<close>

definition terminal :: "order_status \<Rightarrow> bool" where
  "terminal s = (transitions s = [])"

lemma terminal_iff:
  "terminal s \<longleftrightarrow> s \<in> {CLOSED, CANCELLED_BY_CUSTOMER, CANCELLED_BY_MASTER, EXPIRED, DISPUTED}"
  by (cases s) (simp_all add: terminal_def)

lemma terminal_stuck: "terminal s \<Longrightarrow> \<not> can_transition s t"
  by (simp add: terminal_def can_transition_def)

section \<open>Paths\<close>

fun legal_path :: "order_status list \<Rightarrow> bool" where
  "legal_path (s # t # r) = (can_transition s t \<and> legal_path (t # r))"
| "legal_path _ = True"

lemma legal_path_snoc:
  "legal_path (p @ [s]) \<longleftrightarrow> legal_path p \<and> (p = [] \<or> can_transition (last p) s)"
  by (induction p rule: legal_path.induct) auto

definition order_path :: "order_status list \<Rightarrow> bool" where
  "order_path p = (p \<noteq> [] \<and> hd p = DRAFT \<and> legal_path p)"

lemma order_path_start [simp]: "order_path [DRAFT]"
  by (simp add: order_path_def)

lemma order_path_snoc:
  "p \<noteq> [] \<Longrightarrow> order_path (p @ [s]) \<longleftrightarrow> order_path p \<and> can_transition (last p) s"
  by (auto simp: order_path_def legal_path_snoc)

lemma order_path_prev:
  assumes "order_path p" "last p = s" "s \<noteq> DRAFT"
  obtains q t where "p = q @ [s]" "order_path q" "last q = t" "can_transition t s"
proof -
  from assms have "p \<noteq> []" by (simp add: order_path_def)
  then obtain q where q: "p = q @ [s]" using assms(2) by (metis append_butlast_last_id)
  with assms have "q \<noteq> []" by (auto simp: order_path_def)
  then show thesis using that [of q "last q"] q assms(1) by (simp add: order_path_snoc)
qed

lemma order_path_never_disputed:
  assumes "order_path p" shows "DISPUTED \<notin> set p"
  using assms
proof (induction p rule: rev_induct)
  case (snoc s p)
  then show ?case by (cases "p = []") (auto simp: order_path_def legal_path_snoc)
qed simp

text \<open>The only way to a status of the job phase, read backwards.\<close>

lemma order_path_back:
  assumes "order_path p" "last p = s" "\<And>t. can_transition t s \<longleftrightarrow> t = u" "s \<noteq> DRAFT"
  shows "\<exists>q. p = q @ [s] \<and> order_path q \<and> last q = u"
  using order_path_prev [OF assms(1,2,4)] assms(3) by metis

lemma order_path_to_closed:
  assumes "order_path p" "last p = CLOSED"
  shows "\<exists>q. order_path q \<and> last q = PRICED \<and>
             p = q @ [SEARCHING, ASSIGNED, EN_ROUTE, IN_PROGRESS, COMPLETED, CLOSED]"
proof -
  obtain p1 where p1: "p = p1 @ [CLOSED]" "order_path p1" "last p1 = COMPLETED"
    using order_path_back [OF assms] by auto
  obtain p2 where p2: "p1 = p2 @ [COMPLETED]" "order_path p2" "last p2 = IN_PROGRESS"
    using order_path_back [OF p1(2,3)] by auto
  obtain p3 where p3: "p2 = p3 @ [IN_PROGRESS]" "order_path p3" "last p3 = EN_ROUTE"
    using order_path_back [OF p2(2,3)] by auto
  obtain p4 where p4: "p3 = p4 @ [EN_ROUTE]" "order_path p4" "last p4 = ASSIGNED"
    using order_path_back [OF p3(2,3)] by auto
  obtain p5 where p5: "p4 = p5 @ [ASSIGNED]" "order_path p5" "last p5 = SEARCHING"
    using order_path_back [OF p4(2,3)] by auto
  obtain p6 where "p5 = p6 @ [SEARCHING]" "order_path p6" "last p6 = PRICED"
    using order_path_back [OF p5(2,3)] by auto
  then show ?thesis using p1 p2 p3 p4 p5 by (intro exI [of _ p6]) simp
qed

text \<open>An order leaves the quoting phase only once: after it was submitted it never returns.\<close>

definition before_search :: "order_status \<Rightarrow> bool" where
  "before_search s = (s \<in> {DRAFT, PRICED})"

lemma before_search_back: "can_transition s t \<Longrightarrow> before_search t \<Longrightarrow> before_search s"
  by (cases t) (auto simp: before_search_def)

lemma before_search_prefix:
  assumes "legal_path p" "before_search (last p)" "s \<in> set p"
  shows "before_search s"
  using assms
proof (induction p rule: rev_induct)
  case (snoc t p)
  show ?case
  proof (cases "p = []")
    case False
    with snoc.prems have "before_search (last p)"
      by (auto simp: legal_path_snoc intro: before_search_back)
    with snoc False show ?thesis by (auto simp: legal_path_snoc)
  qed (use snoc in simp)
qed simp

section \<open>Rows, histories and the guarded write\<close>

definition find_order :: "id \<Rightarrow> db \<Rightarrow> order_row option" where
  "find_order i s = find_row (\<lambda>x. o_id x = i) (orders s)"

definition add_history ::
  "time \<Rightarrow> id \<Rightarrow> order_status option \<Rightarrow> order_status \<Rightarrow> id option \<Rightarrow> string option \<Rightarrow> db \<Rightarrow> db" where
  "add_history now order from to actor note_text s =
     s\<lparr>history := history s @ [\<lparr>h_id = next_id s, h_order = order, h_from = from, h_to = to,
                               h_actor = actor, h_note = note_text, h_at = now\<rparr>],
       next_id := next_id s + 1\<rparr>"

text \<open>
  The \<open>data\<close> of the guarded writes of an order: the new status, and the final amount or
  the cancellation time where the transition sets one.
\<close>

record order_commit =
  oc_to :: order_status
  oc_final :: "int option"
  oc_cancelled :: "time option"

definition commit_to :: "order_status \<Rightarrow> order_commit" where
  "commit_to st = \<lparr>oc_to = st, oc_final = None, oc_cancelled = None\<rparr>"

definition apply_commit :: "order_commit \<Rightarrow> order_row \<Rightarrow> order_row" where
  "apply_commit c r =
     r\<lparr>o_status := oc_to c,
       o_final := (case oc_final c of None \<Rightarrow> o_final r | Some a \<Rightarrow> Some a),
       o_cancelled := (case oc_cancelled c of None \<Rightarrow> o_cancelled r | Some t \<Rightarrow> Some t)\<rparr>"

definition cas_order :: "id \<Rightarrow> order_status \<Rightarrow> order_commit \<Rightarrow> db \<Rightarrow> nat \<times> db" where
  "cas_order i old c s =
     (cas_count o_id o_status i old (orders s),
      s\<lparr>orders := cas_rows o_id o_status i old (apply_commit c) (orders s)\<rparr>)"

text \<open>
  The transaction around it: a guarded write that touches no row rolls back with a conflict,
  one that does records the transition.
\<close>

definition transition_body ::
  "time \<Rightarrow> id \<Rightarrow> order_status \<Rightarrow> order_commit \<Rightarrow> id option \<Rightarrow> string option \<Rightarrow> db \<Rightarrow> (unit, db) outcome" where
  "transition_body now i old c actor note_text s =
     (let (n, s1) = cas_order i old c s
      in if n \<noteq> 1 then raise Conflict s1
         else ok () (add_history now i (Some old) (oc_to c) actor note_text s1))"

definition transition ::
  "time \<Rightarrow> id \<Rightarrow> order_status \<Rightarrow> order_commit \<Rightarrow> id option \<Rightarrow> string option \<Rightarrow> db \<Rightarrow> (unit, db) outcome" where
  "transition now i old c actor note_text = transaction (transition_body now i old c actor note_text)"

interpretation order_cas: guarded_update o_id o_status apply_commit
    "\<lambda>c old. can_transition old (oc_to c) \<and> old \<noteq> oc_to c"
  by unfold_locales (auto simp: apply_commit_def)

lemma apply_commit_simps [simp]:
  "o_id (apply_commit c r) = o_id r" "o_status (apply_commit c r) = oc_to c"
  "o_master (apply_commit c r) = o_master r" "o_customer (apply_commit c r) = o_customer r"
  "o_price_min (apply_commit c r) = o_price_min r" "o_price_max (apply_commit c r) = o_price_max r"
  "o_fee (apply_commit c r) = o_fee r"
  by (simp_all add: apply_commit_def)

lemma find_order_id: "find_order i s = Some x \<Longrightarrow> x \<in> set (orders s) \<and> o_id x = i"
  by (auto simp: find_order_def dest: find_row_Some)

lemma transition_cases:
  assumes "transition now i old c actor nt s = (r, t)"
  shows "r = Inl Conflict \<and> t = s \<and> cas_count o_id o_status i old (orders s) \<noteq> 1 \<or>
         r = Inr () \<and> cas_count o_id o_status i old (orders s) = 1 \<and>
         t = add_history now i (Some old) (oc_to c) actor nt
               (s\<lparr>orders := cas_rows o_id o_status i old (apply_commit c) (orders s)\<rparr>)"
  using assms
  by (auto simp: transition_def transaction_def transition_body_def cas_order_def ok_def raise_def
      split: if_splits)

end
