(* ===== verification/Pricing.thy ===== *)
theory Pricing
  imports Schema
begin

text \<open>
  The deterministic quote of \<open>modules/orders/pricing.ts\<close> with the multipliers of
  \<open>packages/contracts/src/order.ts\<close>.  \<open>compute_quote_with\<close> is the routine over any
  rounding of the intermediate results; \<open>compute_quote\<close> is the code (doubles) and
  \<open>exact_quote\<close> the same routine in exact arithmetic, its specification.  Products of an
  integer by \<open>ROUND_TO\<close> are exact in doubles at these magnitudes and are kept as integers.
\<close>

section \<open>Multipliers\<close>

fun complexity_multiplier :: "complexity \<Rightarrow> rat" where
  "complexity_multiplier SIMPLE = 8 / 10"
| "complexity_multiplier MEDIUM = 1"
| "complexity_multiplier COMPLEX = 16 / 10"
| "complexity_multiplier CRITICAL = 22 / 10"

fun tier_multiplier :: "service_tier \<Rightarrow> rat" where
  "tier_multiplier SCHEDULED = 1"
| "tier_multiplier PRIORITY = 115 / 100"
| "tier_multiplier EMERGENCY = 13 / 10"

fun tier_fee :: "service_tier \<Rightarrow> int" where
  "tier_fee SCHEDULED = 0"
| "tier_fee PRIORITY = 15000"
| "tier_fee EMERGENCY = 30000"

section \<open>The quote\<close>

record quote =
  q_min :: int
  q_max :: int
  q_fee :: int

definition round_to :: int where
  "round_to = 5000"

definition price_floor :: int where
  "price_floor = 30000"

definition raw_price :: "(rat \<Rightarrow> rat) \<Rightarrow> int \<Rightarrow> complexity \<Rightarrow> service_tier \<Rightarrow> rat" where
  "raw_price fl base cx tier =
     fl (fl (of_int base * fl (complexity_multiplier cx)) * fl (tier_multiplier tier))"

definition compute_quote_with ::
  "(rat \<Rightarrow> rat) \<Rightarrow> int \<Rightarrow> int \<Rightarrow> complexity \<Rightarrow> service_tier \<Rightarrow> quote" where
  "compute_quote_with fl base_min base_max cx tier =
     (let raw_min = raw_price fl base_min cx tier;
          raw_max = raw_price fl base_max cx tier;
          price_min = max price_floor (js_floor (fl (raw_min / of_int round_to)) * round_to);
          price_max = max (price_min + round_to) (js_ceil (fl (raw_max / of_int round_to)) * round_to)
      in \<lparr>q_min = price_min, q_max = price_max, q_fee = tier_fee tier\<rparr>)"

definition compute_quote :: "int \<Rightarrow> int \<Rightarrow> complexity \<Rightarrow> service_tier \<Rightarrow> quote" where
  "compute_quote = compute_quote_with fl64"

definition exact_quote :: "int \<Rightarrow> int \<Rightarrow> complexity \<Rightarrow> service_tier \<Rightarrow> quote" where
  "exact_quote = compute_quote_with (\<lambda>x. x)"

section \<open>Shape of a quote\<close>

lemma quote_bounds:
  fixes bmin bmax :: int and cx :: complexity and tier :: service_tier and fl :: "rat \<Rightarrow> rat"
  defines "q \<equiv> compute_quote_with fl bmin bmax cx tier"
  shows "30000 \<le> q_min q" "q_min q + 5000 \<le> q_max q" "5000 dvd q_min q" "5000 dvd q_max q"
    "0 \<le> q_fee q" "q_fee q \<le> 30000"
proof -
  show "30000 \<le> q_min q" "q_min q + 5000 \<le> q_max q"
    by (simp_all add: q_def compute_quote_with_def Let_def price_floor_def round_to_def)
  have five: "(5000::int) dvd 30000" by presburger
  show lo: "5000 dvd q_min q"
    using five by (simp add: q_def compute_quote_with_def Let_def price_floor_def round_to_def max_def)
  have "q_max q = max (q_min q + 5000) (js_ceil (fl (raw_price fl bmax cx tier / 5000)) * 5000)"
    by (simp add: q_def compute_quote_with_def Let_def round_to_def)
  then show "5000 dvd q_max q" using lo by (simp add: max_def)
  show "0 \<le> q_fee q" "q_fee q \<le> 30000"
    by (cases tier; simp add: q_def compute_quote_with_def Let_def)+
qed

instantiation complexity :: linorder
begin

definition less_eq_complexity :: "complexity \<Rightarrow> complexity \<Rightarrow> bool" where
  "less_eq_complexity a b = (complexity_multiplier a \<le> complexity_multiplier b)"

definition less_complexity :: "complexity \<Rightarrow> complexity \<Rightarrow> bool" where
  "less_complexity a b = (complexity_multiplier a < complexity_multiplier b)"

instance
proof
  fix a b c :: complexity
  show "a < b \<longleftrightarrow> a \<le> b \<and> \<not> b \<le> a"
    by (auto simp: less_complexity_def less_eq_complexity_def)
  show "a \<le> a" by (simp add: less_eq_complexity_def)
  show "a \<le> b \<Longrightarrow> b \<le> c \<Longrightarrow> a \<le> c" by (simp add: less_eq_complexity_def)
  show "a \<le> b \<Longrightarrow> b \<le> a \<Longrightarrow> a = b" by (cases a; cases b; simp add: less_eq_complexity_def)
  show "a \<le> b \<or> b \<le> a" by (auto simp: less_eq_complexity_def)
qed

end

instantiation service_tier :: linorder
begin

definition less_eq_service_tier :: "service_tier \<Rightarrow> service_tier \<Rightarrow> bool" where
  "less_eq_service_tier a b = (tier_multiplier a \<le> tier_multiplier b)"

definition less_service_tier :: "service_tier \<Rightarrow> service_tier \<Rightarrow> bool" where
  "less_service_tier a b = (tier_multiplier a < tier_multiplier b)"

instance
proof
  fix a b c :: service_tier
  show "a < b \<longleftrightarrow> a \<le> b \<and> \<not> b \<le> a"
    by (auto simp: less_service_tier_def less_eq_service_tier_def)
  show "a \<le> a" by (simp add: less_eq_service_tier_def)
  show "a \<le> b \<Longrightarrow> b \<le> c \<Longrightarrow> a \<le> c" by (simp add: less_eq_service_tier_def)
  show "a \<le> b \<Longrightarrow> b \<le> a \<Longrightarrow> a = b" by (cases a; cases b; simp add: less_eq_service_tier_def)
  show "a \<le> b \<or> b \<le> a" by (auto simp: less_eq_service_tier_def)
qed

end

lemma multipliers_pos [simp]: "0 < complexity_multiplier cx" "0 < tier_multiplier tier"
  by (cases cx; simp) (cases tier; simp)

lemma multipliers_le: "complexity_multiplier cx \<le> 22 / 10" "tier_multiplier tier \<le> 13 / 10"
  by (cases cx; simp) (cases tier; simp)

lemma tier_fee_mono: "t \<le> t' \<Longrightarrow> tier_fee t \<le> tier_fee t'"
  by (cases t; cases t'; simp add: less_eq_service_tier_def)

section \<open>Monotonicity, for any monotone rounding\<close>

context rounding
begin

lemma raw_price_mono:
  assumes "0 \<le> b" "b \<le> b'" "cx \<le> cx'" "t \<le> t'"
  shows "raw_price fl b cx t \<le> raw_price fl b' cx' t'"
proof -
  have c: "fl (complexity_multiplier cx) \<le> fl (complexity_multiplier cx')"
    using assms(3) by (simp add: fl_mono less_eq_complexity_def)
  have t: "fl (tier_multiplier t) \<le> fl (tier_multiplier t')"
    using assms(4) by (simp add: fl_mono less_eq_service_tier_def)
  have nn: "0 \<le> fl (complexity_multiplier x)" "0 \<le> fl (tier_multiplier y)" for x y
    by (simp_all add: fl_nonneg less_imp_le)
  have p: "fl (of_int b * fl (complexity_multiplier cx))
             \<le> fl (of_int b' * fl (complexity_multiplier cx'))"
    by (rule fl_mono, rule mult_mono) (use assms c nn in auto)
  show ?thesis
    unfolding raw_price_def
    by (rule fl_mono, rule mult_mono) (use p t nn assms in \<open>auto intro: fl_nonneg\<close>)
qed

lemma quote_mono:
  assumes "0 \<le> b" "b \<le> b'" "0 \<le> c" "c \<le> c'" "cx \<le> cx'" "t \<le> t'"
  defines "q \<equiv> compute_quote_with fl b c cx t" and "q' \<equiv> compute_quote_with fl b' c' cx' t'"
  shows "q_min q \<le> q_min q'" "q_max q \<le> q_max q'" "q_fee q \<le> q_fee q'"
proof -
  have r: "fl (raw_price fl x cx t / 5000) \<le> fl (raw_price fl y cx' t' / 5000)"
    if "0 \<le> x" "x \<le> y" for x y
    using raw_price_mono [OF that assms(5,6)] by (intro fl_mono) simp
  have lo: "js_floor (fl (raw_price fl b cx t / 5000)) \<le> js_floor (fl (raw_price fl b' cx' t' / 5000))"
    using r [OF assms(1,2)] by (simp add: js_floor_def floor_mono)
  have hi: "js_ceil (fl (raw_price fl c cx t / 5000)) \<le> js_ceil (fl (raw_price fl c' cx' t' / 5000))"
    using r [OF assms(3,4)] by (simp add: js_ceil_def ceiling_mono)
  show m: "q_min q \<le> q_min q'"
    using lo by (simp add: q_def q'_def compute_quote_with_def Let_def round_to_def max_def)
  have q: "q_max q = max (q_min q + 5000) (js_ceil (fl (raw_price fl c cx t / 5000)) * 5000)"
    "q_max q' = max (q_min q' + 5000) (js_ceil (fl (raw_price fl c' cx' t' / 5000)) * 5000)"
    by (simp_all add: q_def q'_def compute_quote_with_def Let_def round_to_def)
  show "q_max q \<le> q_max q'" unfolding q using m hi by (simp add: max_def)
  show "q_fee q \<le> q_fee q'"
    using tier_fee_mono [OF assms(6)] by (simp add: q_def q'_def compute_quote_with_def Let_def)
qed

end

section \<open>How far the double quote is from the exact one\<close>

text \<open>
  Each product and each literal is off by at most one part in \<open>2\<^sup>5\<^sup>3\<close>, so for
  base prices up to a billion the quotient by the step is off by less than one unit, and the
  floor (or ceiling) by at most one step.
\<close>

definition ulp :: rat where
  "ulp = 1 / 2 ^ 53"

lemma ulp_bounds [simp]: "0 \<le> ulp" "0 \<le> 1 - ulp" "0 \<le> 1 + ulp" "ulp \<le> 1"
  by (simp_all add: ulp_def)

definition near :: "nat \<Rightarrow> rat \<Rightarrow> rat \<Rightarrow> bool" where
  "near k x y = (0 \<le> x \<and> x * (1 - ulp) ^ k \<le> y \<and> y \<le> x * (1 + ulp) ^ k)"

lemma near_0: "near 0 x y \<longleftrightarrow> 0 \<le> x \<and> y = x"
  by (auto simp: near_def)

lemma near_refl: "0 \<le> x \<Longrightarrow> near 0 x x"
  by (simp add: near_0)

lemma near_pos: "near k x y \<Longrightarrow> 0 \<le> y"
proof -
  assume n: "near k x y"
  then have "0 \<le> x * (1 - ulp) ^ k" by (simp add: near_def)
  then show ?thesis using n unfolding near_def by linarith
qed

lemma near_mult: "near k x y \<Longrightarrow> near l a b \<Longrightarrow> near (k + l) (x * a) (y * b)"
proof -
  assume n: "near k x y" "near l a b"
  have "(x * (1 - ulp) ^ k) * (a * (1 - ulp) ^ l) \<le> y * b"
    using n near_pos [OF n(1)] by (intro mult_mono) (auto simp: near_def)
  moreover have "y * b \<le> (x * (1 + ulp) ^ k) * (a * (1 + ulp) ^ l)"
    using n near_pos [OF n(2)] by (intro mult_mono) (auto simp: near_def)
  ultimately show ?thesis using n by (simp add: near_def power_add ac_simps)
qed

lemma near_divide: "near k x y \<Longrightarrow> 0 < c \<Longrightarrow> near k (x / c) (y / c)"
  by (simp add: near_def field_simps)

context rounding
begin

lemma near_fl: "near k x y \<Longrightarrow> near (k + 1) x (fl y)"
proof -
  assume n: "near k x y"
  have y: "0 \<le> y" by (rule near_pos [OF n])
  then have f: "y * (1 - ulp) \<le> fl y" "fl y \<le> y * (1 + ulp)"
    using fl_err [of y] by (simp_all add: ulp_def abs_if algebra_simps split: if_splits)
  have "x * (1 - ulp) ^ k * (1 - ulp) \<le> y * (1 - ulp)"
    using n by (intro mult_right_mono) (auto simp: near_def)
  moreover have "y * (1 + ulp) \<le> x * (1 + ulp) ^ k * (1 + ulp)"
    using n by (intro mult_right_mono) (auto simp: near_def)
  ultimately show ?thesis using n f by (simp add: near_def ac_simps)
qed

lemma steps_near:
  assumes "0 \<le> b"
  shows "near 5 (raw_price (\<lambda>x. x) b cx t / 5000) (fl (raw_price fl b cx t / 5000))"
proof -
  have c: "near 1 (complexity_multiplier cx) (fl (complexity_multiplier cx))"
    and t: "near 1 (tier_multiplier t) (fl (tier_multiplier t))"
    using near_fl [OF near_refl] by (simp_all add: less_imp_le)
  have "near 1 (of_int b * complexity_multiplier cx) (of_int b * fl (complexity_multiplier cx))"
    using near_mult [OF near_refl [of "of_int b"] c] assms by simp
  then have "near 3 (of_int b * complexity_multiplier cx * tier_multiplier t)
      (fl (of_int b * fl (complexity_multiplier cx)) * fl (tier_multiplier t))"
    using near_mult [OF near_fl t] by (simp add: numeral_3_eq_3)
  then have "near 4 (raw_price (\<lambda>x. x) b cx t) (raw_price fl b cx t)"
    using near_fl by (fastforce simp: raw_price_def)
  then have "near 4 (raw_price (\<lambda>x. x) b cx t / 5000) (raw_price fl b cx t / 5000)"
    by (rule near_divide) simp
  then show ?thesis using near_fl by fastforce
qed

lemma exact_steps_bound:
  assumes "0 \<le> b" "b \<le> 1000000000"
  shows "raw_price (\<lambda>x. x) b cx t / 5000 \<le> 572000"
proof -
  have "of_int b * complexity_multiplier cx * tier_multiplier t \<le> 1000000000 * (22 / 10) * (13 / 10)"
    using assms multipliers_le(1) [of cx] multipliers_le(2) [of t]
    by (intro mult_mono) (auto simp: less_imp_le)
  then show ?thesis by (simp add: raw_price_def)
qed

lemma steps_error:
  assumes "0 \<le> b" "b \<le> 1000000000"
  shows "\<bar>fl (raw_price fl b cx t / 5000) - raw_price (\<lambda>x. x) b cx t / 5000\<bar> < 1"
proof -
  let ?x = "raw_price (\<lambda>x. x) b cx t / 5000" and ?y = "fl (raw_price fl b cx t / 5000)"
  have n: "near 5 ?x ?y" using assms by (intro steps_near)
  have x: "0 \<le> ?x" "?x \<le> 572000" using n exact_steps_bound [OF assms] by (auto simp: near_def)
  have "?x * ((1 + ulp) ^ 5 - 1) \<le> 572000 * ((1 + ulp) ^ 5 - 1)"
    using x by (intro mult_right_mono) (simp_all add: ulp_def power_numeral_reduce)
  moreover have "(572000::rat) * ((1 + ulp) ^ 5 - 1) < 1" by (simp add: ulp_def power_numeral_reduce)
  moreover have "?x * (1 - (1 - ulp) ^ 5) \<le> 572000 * (1 - (1 - ulp) ^ 5)"
    using x by (intro mult_right_mono) (simp_all add: ulp_def power_numeral_reduce)
  moreover have "(572000::rat) * (1 - (1 - ulp) ^ 5) < 1" by (simp add: ulp_def power_numeral_reduce)
  moreover have "?x * (1 - ulp) ^ 5 \<le> ?y" "?y \<le> ?x * (1 + ulp) ^ 5"
    using n by (auto simp: near_def)
  ultimately show ?thesis by (simp only: abs_less_iff right_diff_distrib mult_1_right) linarith
qed

end

lemma floor_ceil_near:
  fixes x y :: rat
  assumes "\<bar>y - x\<bar> < 1"
  shows "\<bar>\<lfloor>y\<rfloor> - \<lfloor>x\<rfloor>\<bar> \<le> 1" "\<bar>\<lceil>y\<rceil> - \<lceil>x\<rceil>\<bar> \<le> 1"
  using assms by linarith+

context rounding
begin

lemma quote_error:
  assumes "0 \<le> b" "b \<le> 1000000000" "0 \<le> c" "c \<le> 1000000000"
  shows "\<bar>q_min (compute_quote_with fl b c cx t) - q_min (compute_quote_with (\<lambda>x. x) b c cx t)\<bar> \<le> 5000"
    "\<bar>q_max (compute_quote_with fl b c cx t) - q_max (compute_quote_with (\<lambda>x. x) b c cx t)\<bar> \<le> 5000"
proof -
  note lo = floor_ceil_near(1) [OF steps_error [OF assms(1,2), of cx t]]
  note hi = floor_ceil_near(2) [OF steps_error [OF assms(3,4), of cx t]]
  have m: "\<bar>max a (x * 5000) - max a (y * 5000)\<bar> \<le> 5000" if "\<bar>x - y\<bar> \<le> 1" for a x y :: int
    using that by (auto simp: max_def)
  show qmin: "\<bar>q_min (compute_quote_with fl b c cx t) - q_min (compute_quote_with (\<lambda>x. x) b c cx t)\<bar> \<le> 5000"
    using m [OF lo] by (simp add: compute_quote_with_def Let_def round_to_def js_floor_def)
  have M: "\<bar>max (p + 5000) (x * 5000) - max (q + 5000) (y * 5000)\<bar> \<le> 5000"
    if "\<bar>x - y\<bar> \<le> 1" "\<bar>p - q\<bar> \<le> 5000" for p q x y :: int
    using that by (auto simp: max_def)
  show "\<bar>q_max (compute_quote_with fl b c cx t) - q_max (compute_quote_with (\<lambda>x. x) b c cx t)\<bar> \<le> 5000"
    using M [OF hi qmin]
    by (simp add: compute_quote_with_def Let_def round_to_def js_ceil_def)
qed

end

end
