(* ===== verification/DispatchScoring.thy ===== *)
theory DispatchScoring
  imports Schema
begin

text \<open>
  Ranking of dispatch candidates, \<open>modules/dispatch/dispatch-scoring.ts\<close>: the tier gate,
  the score and the weighted random pick.  The arithmetic is over any rounding; the code is the
  instance \<open>fl64\<close>.  \<open>Math.random()\<close> is the argument \<open>rnd\<close>.
\<close>

section \<open>Tier gate\<close>

fun required_tier_for_complexity :: "complexity option \<Rightarrow> int" where
  "required_tier_for_complexity (Some CRITICAL) = 3"
| "required_tier_for_complexity (Some COMPLEX) = 2"
| "required_tier_for_complexity (Some MEDIUM) = 1"
| "required_tier_for_complexity (Some SIMPLE) = 0"
| "required_tier_for_complexity None = 0"

lemma required_tier_bounds: "0 \<le> required_tier_for_complexity c" "required_tier_for_complexity c \<le> 3"
  by (cases c rule: required_tier_for_complexity.cases; simp)+

section \<open>Score\<close>

record scoring_input =
  sc_distance :: int
  sc_rating :: rat
  sc_jobs :: int
  sc_premium :: bool

definition clamp01 :: "rat \<Rightarrow> rat" where
  "clamp01 n = max 0 (min 1 n)"

definition score_base :: "(rat \<Rightarrow> rat) \<Rightarrow> rat \<Rightarrow> rat \<Rightarrow> rat \<Rightarrow> rat" where
  "score_base fl x y z =
     fl (fl (fl (fl (5 / 10) * x) + fl (fl (35 / 100) * y)) + fl (fl (15 / 100) * z))"

definition score_candidate_with :: "(rat \<Rightarrow> rat) \<Rightarrow> scoring_input \<Rightarrow> rat" where
  "score_candidate_with fl c =
     (let distance_score = clamp01 (fl (1 - fl (of_int (sc_distance c) / 20000)));
          rating_score = clamp01 (fl (sc_rating c / 5));
          jobs_score = clamp01 (fl (of_int (sc_jobs c) / 100));
          base = score_base fl distance_score rating_score jobs_score
      in if sc_premium c then fl (base + fl (1 / 10)) else base)"

definition score_candidate :: "scoring_input \<Rightarrow> rat" where
  "score_candidate = score_candidate_with fl64"

lemma clamp01_unit: "0 \<le> clamp01 x" "clamp01 x \<le> 1"
  by (simp_all add: clamp01_def)

lemma clamp01_mono: "x \<le> y \<Longrightarrow> clamp01 x \<le> clamp01 y"
  by (auto simp: clamp01_def)

context rounding
begin

lemma score_base_nonneg: "0 \<le> x \<Longrightarrow> 0 \<le> y \<Longrightarrow> 0 \<le> z \<Longrightarrow> 0 \<le> score_base fl x y z"
  unfolding score_base_def
  by (rule fl_nonneg, rule add_nonneg_nonneg; rule fl_nonneg; rule add_nonneg_nonneg mult_nonneg_nonneg;
      (rule fl_nonneg)?; auto intro!: fl_nonneg mult_nonneg_nonneg)

lemma score_base_mono:
  assumes "x \<le> x'" "y \<le> y'" "z \<le> z'"
  shows "score_base fl x y z \<le> score_base fl x' y' z'"
proof -
  have c: "0 \<le> fl (5 / 10)" "0 \<le> fl (35 / 100)" "0 \<le> fl (15 / 100)" by (simp_all add: fl_nonneg)
  have "fl (fl (5 / 10) * x) \<le> fl (fl (5 / 10) * x')" "fl (fl (35 / 100) * y) \<le> fl (fl (35 / 100) * y')"
    "fl (fl (15 / 100) * z) \<le> fl (fl (15 / 100) * z')"
    using assms c by (auto intro!: fl_mono mult_left_mono)
  then show ?thesis
    unfolding score_base_def by - (rule fl_mono, rule add_mono, rule fl_mono, rule add_mono)
qed

lemma fl_score_base: "fl (score_base fl x y z) = score_base fl x y z"
  unfolding score_base_def by (rule fl_idem)

lemma score_nonneg: "0 \<le> score_candidate_with fl c"
proof -
  have "0 \<le> fl (1 / 10)" by (simp add: fl_nonneg)
  then show ?thesis
    unfolding score_candidate_with_def Let_def
    by (simp add: fl_nonneg score_base_nonneg clamp01_unit)
qed

lemma score_le:
  "score_candidate_with fl c
   \<le> (if sc_premium c then fl (score_base fl 1 1 1 + fl (1 / 10)) else score_base fl 1 1 1)"
  unfolding score_candidate_with_def Let_def
  by (auto intro!: fl_mono add_right_mono score_base_mono clamp01_unit)

text \<open>Closer, better rated, more experienced or premium never scores lower.\<close>

lemma score_mono:
  assumes "sc_distance d \<le> sc_distance c" "sc_rating c \<le> sc_rating d" "sc_jobs c \<le> sc_jobs d"
    "sc_premium c \<Longrightarrow> sc_premium d"
  shows "score_candidate_with fl c \<le> score_candidate_with fl d"
proof -
  let ?base = "\<lambda>c. score_base fl (clamp01 (fl (1 - fl (of_int (sc_distance c) / 20000))))
      (clamp01 (fl (sc_rating c / 5))) (clamp01 (fl (of_int (sc_jobs c) / 100)))"
  have base: "?base c \<le> ?base d"
    using assms
    by (intro score_base_mono clamp01_mono fl_mono diff_left_mono divide_right_mono) auto
  have "fl (?base d) \<le> fl (?base d + fl (1 / 10))" by (intro fl_mono) (simp add: fl_nonneg)
  then have bonus: "?base d \<le> fl (?base d + fl (1 / 10))" by (simp only: fl_score_base)
  have "fl (?base c + fl (1 / 10)) \<le> fl (?base d + fl (1 / 10))"
    using base by (intro fl_mono add_right_mono)
  then show ?thesis
    using base bonus assms(4) unfolding score_candidate_with_def Let_def
    by (cases "sc_premium c"; cases "sc_premium d") auto
qed

end

text \<open>The best score of a free master is exactly 1 in doubles, and 1.1 (rounded) with the bonus.\<close>

lemma score_base_top: "score_base fl64 1 1 1 = 1"
  by code_simp

section \<open>Weighted random pick\<close>

text \<open>
  \<open>walk\<close> is the loop: subtract each weight from the roll and stop at the first candidate
  that brings it to zero or below; the last candidate is the fall-back of the code.
\<close>

definition weights_of :: "(rat \<Rightarrow> rat) \<Rightarrow> ('c \<Rightarrow> rat) \<Rightarrow> 'c list \<Rightarrow> rat list" where
  "weights_of fl weight cs = map (\<lambda>c. max (weight c) (fl (1 / 10000))) cs"

definition total_weight :: "(rat \<Rightarrow> rat) \<Rightarrow> rat list \<Rightarrow> rat" where
  "total_weight fl ws = foldl (\<lambda>sum w. fl (sum + w)) 0 ws"

fun walk :: "(rat \<Rightarrow> rat) \<Rightarrow> rat \<Rightarrow> ('c \<times> rat) list \<Rightarrow> 'c option" where
  "walk fl roll [] = None"
| "walk fl roll ((c, w) # cws) =
     (let roll' = fl (roll - w) in if roll' \<le> 0 then Some c else walk fl roll' cws)"

definition weighted_random_pick ::
  "(rat \<Rightarrow> rat) \<Rightarrow> rat \<Rightarrow> ('c \<Rightarrow> rat) \<Rightarrow> 'c list \<Rightarrow> 'c result" where
  "weighted_random_pick fl rnd weight cs =
     (if cs = [] then Inl InternalError
      else let ws = weights_of fl weight cs; roll = fl (rnd * total_weight fl ws)
           in Inr (case walk fl roll (zip cs ws) of Some c \<Rightarrow> c | None \<Rightarrow> last cs))"

lemma walk_member: "walk fl roll cws = Some c \<Longrightarrow> c \<in> fst ` set cws"
  by (induction cws arbitrary: roll) (fastforce simp: Let_def split: if_splits)+

lemma pick_member:
  assumes "weighted_random_pick fl rnd weight cs = Inr c"
  shows "c \<in> set cs"
proof -
  have "walk fl roll (zip cs ws) = Some d \<Longrightarrow> d \<in> set cs" for roll ws d
    by (drule walk_member) (auto dest: set_zip_leftD)
  then show ?thesis
    using assms unfolding weighted_random_pick_def
    by (auto simp: Let_def split: if_splits option.splits)
qed

lemma pick_defined: "cs \<noteq> [] \<Longrightarrow> \<exists>c. weighted_random_pick fl rnd weight cs = Inr c"
  by (simp add: weighted_random_pick_def Let_def)

text \<open>
  In exact arithmetic the pick is fair: candidate number \<open>i\<close> is chosen exactly when the
  roll lies above the weights before it and not above the weights up to it, an interval as long
  as its own weight.
\<close>

lemma walk_interval:
  assumes "length cs = length ws" "i < length cs" "\<forall>w \<in> set ws. 0 < w"
    "sum_list (take i ws) < roll" "roll \<le> sum_list (take (i + 1) ws)"
  shows "walk (\<lambda>x. x) roll (zip cs ws) = Some (cs ! i)"
  using assms
proof (induction cs ws arbitrary: roll i rule: list_induct2)
  case (Cons c cs w ws)
  show ?case
  proof (cases i)
    case 0
    then show ?thesis using Cons.prems by (simp add: Let_def)
  next
    case (Suc j)
    have nn: "0 \<le> sum_list (take j ws)"
      using Cons.prems(2) by (intro sum_list_nonneg) (auto dest!: in_set_takeD simp: less_imp_le)
    have "walk (\<lambda>x. x) (roll - w) (zip cs ws) = Some (cs ! j)"
      using Cons.prems Suc by (intro Cons.IH) auto
    then show ?thesis using Cons.prems Suc nn by (simp add: Let_def)
  qed
qed simp

end
