(* ===== verification/DispatchEligibility.thy ===== *)
theory DispatchEligibility
  imports DispatchScoring OrderState
begin

text \<open>
  The eligibility query of \<open>modules/dispatch/dispatch-eligibility.ts\<close>.  The PostGIS distance
  between two points is the argument \<open>geo\<close> (metres); \<open>ST_DWithin(a, b, r)\<close> is
  \<open>geo a b \<le> r\<close> and \<open>::int\<close> rounds a double to the nearest integer, ties to even.

  \<open>eligible_master\<close> is the conjunction of the joins and of the conditions on the master,
  \<open>area_distances\<close> the matching service areas, \<open>find_eligible_candidates\<close> the query:
  one row per master at his closest area, nearest first, at most \<open>limit\<close> rows.
\<close>

section \<open>The query\<close>

type_synonym point = "rat \<times> rat"

record candidate = scoring_input +
  ca_master :: id

record eligibility_params =
  ep_order :: id
  ep_category :: id
  ep_tier :: int
  ep_today :: string
  ep_multiplier :: rat
  ep_limit :: nat

definition service_area_max_radius_m :: rat where
  "service_area_max_radius_m = 50000"

definition premium_at :: "time \<Rightarrow> id \<Rightarrow> db \<Rightarrow> bool" where
  "premium_at now m s =
     (case find_row (\<lambda>r. sb_master r = m) (subscriptions s) of
        None \<Rightarrow> False
      | Some r \<Rightarrow> sb_plan r = PREMIUM \<and>
          (sb_status r = S_ACTIVE \<or>
           (sb_status r = S_TRIAL \<and> (case sb_trial_ends r of None \<Rightarrow> False | Some e \<Rightarrow> e > now))))"

definition busy_master :: "id \<Rightarrow> db \<Rightarrow> bool" where
  "busy_master m s =
     (\<exists>x \<in> set (orders s). o_master x = Some m \<and> o_status x \<in> set active_master_job_statuses)"

definition eligible_master :: "eligibility_params \<Rightarrow> db \<Rightarrow> master_row \<Rightarrow> bool" where
  "eligible_master p s mp =
     ((\<exists>u \<in> set (users s). u_id u = m_user mp \<and> u_status u = U_ACTIVE) \<and>
      (\<exists>k \<in> set (skills s). sk_master k = m_user mp \<and> sk_category k = ep_category p) \<and>
      m_verification mp = V_VERIFIED \<and>
      m_online mp \<and>
      m_trust_tier mp \<ge> ep_tier p \<and>
      \<not> (\<exists>d \<in> set (dispatches s). d_order d = ep_order p \<and> d_master d = m_user mp) \<and>
      \<not> busy_master (m_user mp) s \<and>
      \<not> (\<exists>a \<in> set (slots s). av_master a = m_user mp \<and> av_day a = ep_today p
             \<and> (av_kind a = BUSY \<or> av_kind a = BOOKED)))"

definition area_distances ::
  "(point \<Rightarrow> point \<Rightarrow> rat) \<Rightarrow> eligibility_params \<Rightarrow> point \<Rightarrow> db \<Rightarrow> id \<Rightarrow> int list" where
  "area_distances geo p loc s m =
     map (\<lambda>a. round_even (geo (sa_lat a, sa_lng a) loc))
       (filter (\<lambda>a. sa_master a = m
                  \<and> geo (sa_lat a, sa_lng a) loc \<le> fl64 (service_area_max_radius_m * ep_multiplier p)
                  \<and> geo (sa_lat a, sa_lng a) loc \<le> fl64 (of_int (sa_radius a) * ep_multiplier p))
          (areas s))"

definition order_location :: "id \<Rightarrow> db \<Rightarrow> point option" where
  "order_location i s =
     (case find_row (\<lambda>x. o_id x = i) (orders s) of
        None \<Rightarrow> None
      | Some x \<Rightarrow> (case (o_lat x, o_lng x) of (Some a, Some b) \<Rightarrow> Some (a, b) | _ \<Rightarrow> None))"

definition candidate_of :: "time \<Rightarrow> db \<Rightarrow> master_row \<Rightarrow> int list \<Rightarrow> candidate" where
  "candidate_of now s mp ds =
     \<lparr>sc_distance = Min (set ds), sc_rating = fl64 (m_rating mp), sc_jobs = m_jobs mp,
      sc_premium = premium_at now (m_user mp) s, ca_master = m_user mp\<rparr>"

definition matching_candidates ::
  "(point \<Rightarrow> point \<Rightarrow> rat) \<Rightarrow> time \<Rightarrow> eligibility_params \<Rightarrow> db \<Rightarrow> candidate list" where
  "matching_candidates geo now p s =
     (case order_location (ep_order p) s of
        None \<Rightarrow> []
      | Some loc \<Rightarrow>
          map (\<lambda>mp. candidate_of now s mp (area_distances geo p loc s (m_user mp)))
            (filter (\<lambda>mp. eligible_master p s mp \<and> area_distances geo p loc s (m_user mp) \<noteq> [])
               (sort_key m_user (masters s))))"

definition find_eligible_candidates ::
  "(point \<Rightarrow> point \<Rightarrow> rat) \<Rightarrow> time \<Rightarrow> eligibility_params \<Rightarrow> db \<Rightarrow> candidate list" where
  "find_eligible_candidates geo now p s =
     take (ep_limit p) (sort_key sc_distance (matching_candidates geo now p s))"

section \<open>What the query returns\<close>

lemma set_matching:
  assumes "order_location (ep_order p) s = Some loc"
  shows "set (matching_candidates geo now p s) =
    {candidate_of now s mp (area_distances geo p loc s (m_user mp)) | mp.
       mp \<in> set (masters s) \<and> eligible_master p s mp \<and> area_distances geo p loc s (m_user mp) \<noteq> []}"
  using assms by (auto simp: matching_candidates_def)

lemma matching_masters:
  "map ca_master (matching_candidates geo now p s) =
   (case order_location (ep_order p) s of None \<Rightarrow> [] | Some loc \<Rightarrow>
      map m_user (filter (\<lambda>mp. eligible_master p s mp \<and> area_distances geo p loc s (m_user mp) \<noteq> [])
         (sort_key m_user (masters s))))"
  by (simp add: matching_candidates_def candidate_of_def comp_def split: option.splits)

lemma matching_distinct:
  assumes "distinct (map m_user (masters s))"
  shows "distinct (map ca_master (matching_candidates geo now p s))"
proof -
  have "distinct (map m_user (sort_key m_user (masters s)))"
    using assms by (simp add: distinct_map)
  then show ?thesis
    unfolding matching_masters by (auto simp: distinct_map_filter split: option.splits)
qed

lemma eligible_subset:
  "set (find_eligible_candidates geo now p s) \<subseteq> set (matching_candidates geo now p s)"
  by (auto simp: find_eligible_candidates_def dest: in_set_takeD)

lemma eligible_distinct:
  assumes "distinct (map m_user (masters s))"
  shows "distinct (map ca_master (find_eligible_candidates geo now p s))"
proof -
  have "distinct (map ca_master (sort_key sc_distance (matching_candidates geo now p s)))"
    using matching_distinct [OF assms] by (simp add: distinct_map)
  then show ?thesis by (simp add: find_eligible_candidates_def flip: take_map)
qed

lemma eligible_sorted: "sorted (map sc_distance (find_eligible_candidates geo now p s))"
  by (simp add: find_eligible_candidates_def sorted_wrt_take flip: take_map)

lemma eligible_limit: "length (find_eligible_candidates geo now p s) \<le> ep_limit p"
  by (simp add: find_eligible_candidates_def)

lemma sorted_take_rest:
  assumes "x \<in> set (take n (sort_key f xs))" "y \<in> set xs" "y \<notin> set (take n (sort_key f xs))"
  shows "f x \<le> (f y :: 'a :: linorder)"
proof -
  let ?l = "sort_key f xs"
  have "y \<in> set ?l" using assms(2) by simp
  then have "y \<in> set (drop n ?l)"
    using assms(3) by (metis UnE append_take_drop_id set_append)
  then obtain j where j: "n + j < length ?l" "?l ! (n + j) = y"
    unfolding in_set_conv_nth by (auto simp: less_diff_conv) (metis add.commute)
  obtain i where i: "i < n" "i < length ?l" "?l ! i = x"
    using assms(1) by (auto simp: in_set_conv_nth)
  have "sorted (map f ?l)" by simp
  then have "map f ?l ! i \<le> map f ?l ! (n + j)"
    using i j by (intro sorted_nth_mono) auto
  then show ?thesis using i j by simp
qed

text \<open>A master left out by the limit is at least as far away as everyone returned.\<close>

lemma eligible_closest:
  assumes "c \<in> set (find_eligible_candidates geo now p s)"
    "d \<in> set (matching_candidates geo now p s)" "d \<notin> set (find_eligible_candidates geo now p s)"
  shows "sc_distance c \<le> sc_distance d"
  using assms sorted_take_rest unfolding find_eligible_candidates_def by metis

text \<open>Every candidate meets every condition, and is measured at his closest matching area.\<close>

lemma eligible_conditions:
  assumes "c \<in> set (find_eligible_candidates geo now p s)"
  obtains mp loc where "mp \<in> set (masters s)" "ca_master c = m_user mp" "eligible_master p s mp"
    "order_location (ep_order p) s = Some loc"
    "c = candidate_of now s mp (area_distances geo p loc s (m_user mp))"
    "area_distances geo p loc s (m_user mp) \<noteq> []"
proof -
  have c: "c \<in> set (matching_candidates geo now p s)" using assms eligible_subset by blast
  then obtain loc where loc: "order_location (ep_order p) s = Some loc"
    by (cases "order_location (ep_order p) s") (auto simp: matching_candidates_def)
  from c obtain mp where "mp \<in> set (masters s)" "eligible_master p s mp"
    "area_distances geo p loc s (m_user mp) \<noteq> []"
    "c = candidate_of now s mp (area_distances geo p loc s (m_user mp))"
    unfolding set_matching [OF loc] by blast
  then show thesis using that loc by (simp add: candidate_of_def)
qed

lemma eligible_not_offered:
  assumes "c \<in> set (find_eligible_candidates geo now p s)" "d \<in> set (dispatches s)"
    "d_order d = ep_order p"
  shows "d_master d \<noteq> ca_master c"
  using assms by (elim eligible_conditions) (auto simp: eligible_master_def)

lemma eligible_no_limit:
  assumes "length (matching_candidates geo now p s) \<le> ep_limit p"
  shows "set (find_eligible_candidates geo now p s) = set (matching_candidates geo now p s)"
  using assms by (simp add: find_eligible_candidates_def)

lemma eligible_empty_iff:
  assumes "0 < ep_limit p"
  shows "find_eligible_candidates geo now p s = [] \<longleftrightarrow> matching_candidates geo now p s = []"
proof -
  have "length (find_eligible_candidates geo now p s) = 0 \<longleftrightarrow>
        length (matching_candidates geo now p s) = 0"
    using assms
    by (cases "matching_candidates geo now p s") (auto simp: find_eligible_candidates_def min_def)
  then show ?thesis by simp
qed

end
