(* ===== verification/Pagination.thy ===== *)
theory Pagination
  imports Prelude
begin

text \<open>
  The cursor pagination every list endpoint writes out: \<open>findMany\<close> with
  \<open>take: take + 1\<close> and, when a cursor is given, \<open>cursor: {id}, skip: 1\<close>; the first
  \<open>take\<close> rows are the items and the id of row number \<open>take\<close> is the next cursor
  (\<open>OrdersService.list\<close>, \<open>getJobHistory\<close>, \<open>NotificationsService.list\<close>,
  \<open>AuditService.list\<close>, \<open>PaymentsService.getMasterEarnings\<close>, the admin lists).
  \<open>pages\<close> follows the cursors as a client does, up to a number of requests.

  The query semantics is Prisma's: the cursor row is found in the ordered rows and
  \<open>skip: 1\<close> starts after it.
\<close>

section \<open>One page\<close>

definition find_page :: "('r \<Rightarrow> 'k) \<Rightarrow> 'k option \<Rightarrow> nat \<Rightarrow> 'r list \<Rightarrow> 'r list" where
  "find_page key cursor n rows = (case cursor of
     None \<Rightarrow> take n rows
   | Some c \<Rightarrow> take n (drop 1 (dropWhile (\<lambda>r. key r \<noteq> c) rows)))"

definition page :: "('r \<Rightarrow> 'k) \<Rightarrow> nat \<Rightarrow> 'k option \<Rightarrow> 'r list \<Rightarrow> 'r list \<times> 'k option" where
  "page key n cursor all_rows =
     (let rows = find_page key cursor (n + 1) all_rows
      in (take n rows, if n < length rows then Some (key (rows ! n)) else None))"

section \<open>All pages\<close>

fun pages :: "nat \<Rightarrow> ('r \<Rightarrow> 'k) \<Rightarrow> nat \<Rightarrow> 'k option \<Rightarrow> 'r list \<Rightarrow> 'r list list" where
  "pages 0 key n cursor rows = []"
| "pages (Suc fuel) key n cursor rows =
     (let (items, next) = page key n cursor rows
      in items # (case next of None \<Rightarrow> [] | Some c \<Rightarrow> pages fuel key n (Some c) rows))"

text \<open>The rows seen, from a position on: \<open>n\<close> rows, then one that no page shows.\<close>

fun seen_from :: "nat \<Rightarrow> nat \<Rightarrow> 'r list \<Rightarrow> 'r list" where
  "seen_from 0 n rows = []"
| "seen_from (Suc fuel) n rows =
     take n rows @ (if n < length rows then seen_from fuel n (drop (n + 1) rows) else [])"

lemma dropWhile_key:
  assumes "distinct (map key rows)" "i < length rows"
  shows "dropWhile (\<lambda>r. key r \<noteq> key (rows ! i)) rows = drop i rows"
  using assms
proof (induction rows arbitrary: i)
  case (Cons r rows)
  show ?case
  proof (cases i)
    case (Suc j)
    then have "key r \<noteq> key (rows ! j)" using Cons.prems by auto
    then show ?thesis using Suc Cons by simp
  qed simp
qed simp

lemma page_after:
  assumes "distinct (map key rows)" "i < length rows"
  shows "page key n (Some (key (rows ! i))) rows =
         (take n (drop (i + 1) rows),
          if i + 1 + n < length rows then Some (key (rows ! (i + 1 + n))) else None)"
  using dropWhile_key [OF assms]
  by (auto simp: page_def find_page_def Let_def min_def)

lemma page_first:
  "page key n None rows =
   (take n rows, if n < length rows then Some (key (rows ! n)) else None)"
  by (auto simp: page_def find_page_def Let_def min_def)

lemma pages_after:
  assumes "distinct (map key rows)" "i < length rows"
  shows "concat (pages fuel key n (Some (key (rows ! i))) rows) = seen_from fuel n (drop (i + 1) rows)"
  using assms(2)
proof (induction fuel arbitrary: i)
  case (Suc fuel)
  show ?case
  proof (cases "i + 1 + n < length rows")
    case True
    from Suc.IH [OF True] show ?thesis
      using True Suc.prems
      by (simp add: page_after [OF assms(1)] add.commute add.left_commute less_diff_conv)
  next
    case False
    then show ?thesis using Suc.prems by (simp add: page_after [OF assms(1)] less_diff_conv)
  qed
qed simp

lemma pages_seen:
  assumes "distinct (map key rows)"
  shows "concat (pages fuel key n None rows) = seen_from fuel n rows"
proof (cases fuel)
  case (Suc f)
  show ?thesis
    using pages_after [OF assms, of n f n] by (simp add: Suc page_first add.commute)
qed simp

lemma mod_shift: "(j + (n + 1)) mod (n + 1) = j mod (n + 1)" for j n :: nat
  by (rule mod_add_self2)

lemma seen_nths:
  assumes "length rows < fuel * (n + 1)"
  shows "seen_from fuel n rows = nths rows {i. i mod (n + 1) \<noteq> n}"
  using assms
proof (induction fuel arbitrary: rows)
  case (Suc fuel)
  let ?A = "{i. i mod (n + 1) \<noteq> n}"
  show ?case
  proof (cases "n < length rows")
    case True
    let ?m = "length (take (n + 1) rows)"
    have m: "?m = n + 1" using True by simp
    have "nths rows ?A = nths (take (n + 1) rows @ drop (n + 1) rows) ?A" by simp
    also have "\<dots> = nths (take (n + 1) rows) ?A @ nths (drop (n + 1) rows) {j. j + ?m \<in> ?A}"
      by (rule nths_append)
    also have "{j. j + ?m \<in> ?A} = ?A" unfolding m mem_Collect_eq mod_shift ..
    also have "nths (take (n + 1) rows) ?A = take n rows"
    proof -
      have t: "take (n + 1) rows = take n rows @ [rows ! n]" using True by (simp add: take_Suc_conv_app_nth)
      have "nths (take n rows) ?A = take n rows" by (rule nths_all) auto
      then show ?thesis unfolding t nths_append using True by (simp add: nths_Cons)
    qed
    finally show ?thesis using Suc.IH [of "drop (n + 1) rows"] Suc.prems True by auto
  next
    case False
    then have "nths rows ?A = rows" by (intro nths_all) auto
    then show ?thesis using False by simp
  qed
qed simp

end
