(* ===== verification/Notifications.thy ===== *)
theory Notifications
  imports Schema Pagination
begin

text \<open>
  \<open>modules/notifications/notifications.service.ts\<close> and the part of
  \<open>RealtimeGateway\<close> every service calls (\<open>emitToUser\<close>).  \<open>create_record\<close> is the
  database write, \<open>deliver\<close> the socket event and the push messages to the user's devices,
  \<open>notify\<close> both.  The frame lemmas say that none of them touches the business tables; they
  carry every handler proof that passes through a notification.
\<close>

section \<open>Socket events\<close>

definition emit_to_user :: "id \<Rightarrow> socket_event \<Rightarrow> db \<Rightarrow> db" where
  "emit_to_user user ev s = s\<lparr>emitted := emitted s @ [(user, ev)]\<rparr>"

section \<open>Records and delivery\<close>

definition create_record ::
  "time \<Rightarrow> id \<Rightarrow> notification_type \<Rightarrow> (string \<times> json) list \<Rightarrow> db \<Rightarrow> notification_row \<times> db" where
  "create_record now user ty data s =
     (let n = \<lparr>n_id = next_id s, n_user = user, n_type = ty, n_data = data, n_read = None, n_at = now\<rparr>
      in (n, s\<lparr>notifications := notifications s @ [n], next_id := next_id s + 1\<rparr>))"

definition deliver :: "notification_row \<Rightarrow> db \<Rightarrow> db" where
  "deliver n s =
     (let s1 = emit_to_user (n_user n) (Ev_Notification (n_id n)) s;
          tokens = map dv_token (filter (\<lambda>d. dv_user d = n_user n) (devices s1))
      in s1\<lparr>pushes := pushes s1 @ map (\<lambda>t. (t, n_id n)) tokens\<rparr>)"

definition notify :: "time \<Rightarrow> id \<Rightarrow> notification_type \<Rightarrow> (string \<times> json) list \<Rightarrow> db \<Rightarrow> db" where
  "notify now user ty data s = (let (n, s1) = create_record now user ty data s in deliver n s1)"

lemma emit_frame [simp, frame_simps]:
  "orders (emit_to_user u e s) = orders s" "history (emit_to_user u e s) = history s"
  "dispatches (emit_to_user u e s) = dispatches s" "payments (emit_to_user u e s) = payments s"
  "masters (emit_to_user u e s) = masters s" "penalties (emit_to_user u e s) = penalties s"
  "reviews (emit_to_user u e s) = reviews s" "referrals (emit_to_user u e s) = referrals s"
  "cashbacks (emit_to_user u e s) = cashbacks s" "claims (emit_to_user u e s) = claims s"
  "verifications (emit_to_user u e s) = verifications s" "users (emit_to_user u e s) = users s"
  "media (emit_to_user u e s) = media s" "next_id (emit_to_user u e s) = next_id s"
  "notifications (emit_to_user u e s) = notifications s" "jobs (emit_to_user u e s) = jobs s"
  "categories (emit_to_user u e s) = categories s" "skills (emit_to_user u e s) = skills s"
  "areas (emit_to_user u e s) = areas s" "slots (emit_to_user u e s) = slots s"
  "subscriptions (emit_to_user u e s) = subscriptions s" "devices (emit_to_user u e s) = devices s"
  by (simp_all add: emit_to_user_def)

lemma notify_frame [simp, frame_simps]:
  "orders (notify t u ty d s) = orders s" "history (notify t u ty d s) = history s"
  "dispatches (notify t u ty d s) = dispatches s" "payments (notify t u ty d s) = payments s"
  "masters (notify t u ty d s) = masters s" "penalties (notify t u ty d s) = penalties s"
  "reviews (notify t u ty d s) = reviews s" "referrals (notify t u ty d s) = referrals s"
  "cashbacks (notify t u ty d s) = cashbacks s" "claims (notify t u ty d s) = claims s"
  "verifications (notify t u ty d s) = verifications s" "users (notify t u ty d s) = users s"
  "media (notify t u ty d s) = media s" "next_id (notify t u ty d s) = next_id s + 1"
  "jobs (notify t u ty d s) = jobs s"
  "categories (notify t u ty d s) = categories s" "skills (notify t u ty d s) = skills s"
  "areas (notify t u ty d s) = areas s" "slots (notify t u ty d s) = slots s"
  "subscriptions (notify t u ty d s) = subscriptions s" "devices (notify t u ty d s) = devices s"
  by (simp_all add: notify_def create_record_def deliver_def emit_to_user_def Let_def)

lemma deliver_frame [simp, frame_simps]:
  "orders (deliver n s) = orders s" "history (deliver n s) = history s"
  "dispatches (deliver n s) = dispatches s" "payments (deliver n s) = payments s"
  "masters (deliver n s) = masters s" "penalties (deliver n s) = penalties s"
  "reviews (deliver n s) = reviews s" "referrals (deliver n s) = referrals s"
  "cashbacks (deliver n s) = cashbacks s" "claims (deliver n s) = claims s"
  "verifications (deliver n s) = verifications s" "users (deliver n s) = users s"
  "media (deliver n s) = media s" "next_id (deliver n s) = next_id s"
  "notifications (deliver n s) = notifications s" "jobs (deliver n s) = jobs s"
  by (simp_all add: deliver_def emit_to_user_def Let_def)

lemma notify_notifications:
  "notifications (notify t u ty d s) =
   notifications s @ [\<lparr>n_id = next_id s, n_user = u, n_type = ty, n_data = d, n_read = None, n_at = t\<rparr>]"
  by (simp add: notify_def create_record_def deliver_def emit_to_user_def Let_def)

section \<open>Reading and marking\<close>

definition newest_first :: "('r \<Rightarrow> time) \<Rightarrow> 'r list \<Rightarrow> 'r list" where
  "newest_first created rows = sort_key (\<lambda>r. - created r) rows"

lemma set_newest_first [simp]: "set (newest_first f rows) = set rows"
  by (simp add: newest_first_def)

lemma length_newest_first [simp]: "length (newest_first f rows) = length rows"
  by (simp add: newest_first_def)

lemma distinct_newest_first:
  "distinct (map key rows) \<Longrightarrow> distinct (map key (newest_first f rows))"
  by (simp add: newest_first_def distinct_map)

definition list_notifications :: "id \<Rightarrow> id option \<Rightarrow> db \<Rightarrow> notification_row list \<times> id option" where
  "list_notifications user cursor s =
     page n_id 20 cursor (newest_first n_at (filter (\<lambda>n. n_user n = user) (notifications s)))"

definition unread_count :: "id \<Rightarrow> db \<Rightarrow> nat" where
  "unread_count user s = count_rows (\<lambda>n. n_user n = user \<and> n_read n = None) (notifications s)"

definition mark_read :: "time \<Rightarrow> id \<Rightarrow> id \<Rightarrow> db \<Rightarrow> (notification_row, db) outcome" where
  "mark_read now user nid s =
     (case find_row (\<lambda>n. n_id n = nid) (notifications s) of
        None \<Rightarrow> raise NotFound s
      | Some n \<Rightarrow>
          if n_user n \<noteq> user then raise Forbidden s
          else if n_read n \<noteq> None then ok n s
          else ok (n\<lparr>n_read := Some now\<rparr>)
                  (s\<lparr>notifications := update_rows (\<lambda>r. n_id r = nid) (\<lambda>r. r\<lparr>n_read := Some now\<rparr>)
                                       (notifications s)\<rparr>))"

text \<open>Marking twice changes nothing more and keeps the first reading time.\<close>

lemma mark_read_idempotent:
  assumes "mark_read now user nid s = (Inr n, t)"
  shows "mark_read now' user nid t = (Inr n, t)"
proof (cases "find_row (\<lambda>n. n_id n = nid) (notifications s)")
  case (Some r)
  have "find_row (\<lambda>n. n_id n = nid)
          (update_rows (\<lambda>r. n_id r = nid) (\<lambda>r. r\<lparr>n_read := Some now\<rparr>) (notifications s)) =
        Some (r\<lparr>n_read := Some now\<rparr>)"
    using find_row_Some [OF Some] Some by (subst find_row_update_rows) auto
  then show ?thesis
    using assms Some by (auto simp: mark_read_def split: if_splits)
qed (use assms in \<open>simp add: mark_read_def\<close>)

lemma count_rows_update_key:
  assumes "distinct (map key t)" "r \<in> set t" "P r" "\<not> P (f r)"
  shows "count_rows P (update_rows (\<lambda>x. key x = key r) f t) + 1 = count_rows P t"
  using assms
proof (induction t)
  case (Cons x t)
  show ?case
  proof (cases "x = r")
    case True
    then have "update_rows (\<lambda>x. key x = key r) f t = t"
      using Cons.prems by (intro update_rows_id) (auto simp: rev_image_eqI)
    then show ?thesis using True Cons.prems by simp
  next
    case False
    then have "key x \<noteq> key r" using Cons.prems by (auto simp: rev_image_eqI)
    then show ?thesis using False Cons by auto
  qed
qed simp

lemma mark_read_unread_count:
  assumes "distinct (map n_id (notifications s))" "n \<in> set (notifications s)"
    "n_id n = nid" "n_user n = user" "n_read n = None"
    "mark_read now user nid s = (Inr n', t)"
  shows "unread_count user t + 1 = unread_count user s"
proof -
  have f: "find_row (\<lambda>n. n_id n = nid) (notifications s) = Some n"
    using find_row_key [OF assms(1,2)] assms(3) by simp
  have "notifications t =
        update_rows (\<lambda>r. n_id r = n_id n) (\<lambda>r. r\<lparr>n_read := Some now\<rparr>) (notifications s)"
    using assms(6) f assms(3-5) by (auto simp: mark_read_def)
  then show ?thesis
    unfolding unread_count_def
    using count_rows_update_key [OF assms(1,2), of "\<lambda>n. n_user n = user \<and> n_read n = None"]
      assms(4,5) by simp
qed

end
