(* ===== verification/Trust.thy ===== *)
theory Trust
  imports Notifications
begin

text \<open>
  The trust score of \<open>modules/trust\<close> and the penalty engine of \<open>modules/penalties\<close>.
  \<open>trust_factors\<close> is what \<open>computeTrustScore\<close> reads from the database,
  \<open>trust_score\<close> the formula on those factors (over any rounding of its arithmetic) and
  \<open>score_to_tier\<close> the thresholds.  \<open>recompute_trust_tier\<close> stores the tier;
  \<open>record_event\<close> inserts a penalty, recomputes and notifies.

  The lemmas bound score and tier, show the formula monotone in every factor for any monotone
  rounding, and that a penalty never raises a tier.
\<close>

section \<open>The formula\<close>

record trust_factors =
  tf_jobs :: int
  tf_rating :: rat
  tf_cancellation :: rat
  tf_response :: rat
  tf_verification :: verification_status
  tf_points :: int

record trust_result =
  tr_score :: int
  tr_tier :: int
  tr_factors :: trust_factors

definition jobs_done_cap :: int where
  "jobs_done_cap = 50"

definition max_penalty_deduction :: int where
  "max_penalty_deduction = 20"

definition penalty_lookback_ms :: int where
  "penalty_lookback_ms = 90 * 24 * 60 * 60 * 1000"

definition trust_tier_thresholds :: "int list" where
  "trust_tier_thresholds = [40, 60, 80]"

definition score_to_tier :: "int \<Rightarrow> int" where
  "score_to_tier score = foldl (\<lambda>tier t. if score \<ge> t then tier + 1 else tier) 0 trust_tier_thresholds"

definition trust_raw :: "(rat \<Rightarrow> rat) \<Rightarrow> trust_factors \<Rightarrow> rat" where
  "trust_raw fl f =
     (let jobs_factor = fl (of_int (min (tf_jobs f) jobs_done_cap) / of_int jobs_done_cap);
          rating_factor = fl (tf_rating f / 5);
          verification_factor = (if tf_verification f = V_VERIFIED then 1 else 0)
      in fl (fl (fl (fl (fl (jobs_factor * 30) + fl (rating_factor * 25))
               + fl (tf_response f * 15))
             + fl (fl (1 - tf_cancellation f) * 15))
           + fl (verification_factor * 15)))"

definition trust_score :: "(rat \<Rightarrow> rat) \<Rightarrow> trust_factors \<Rightarrow> int" where
  "trust_score fl f =
     (let deduction = min max_penalty_deduction (tf_points f)
      in max 0 (min 100 (js_round (fl (trust_raw fl f - of_int deduction)))))"

section \<open>Reading the factors\<close>

definition active_points :: "time \<Rightarrow> id \<Rightarrow> db \<Rightarrow> int" where
  "active_points now m s =
     sum_rows (\<lambda>p. pn_master p = m \<and> pn_at p \<ge> now - penalty_lookback_ms) pn_points (penalties s)"

definition rate :: "(rat \<Rightarrow> rat) \<Rightarrow> nat \<Rightarrow> nat \<Rightarrow> rat \<Rightarrow> rat" where
  "rate fl a b dflt = (if a + b > 0 then fl (of_nat a / of_nat (a + b)) else dflt)"

definition read_trust_factors :: "(rat \<Rightarrow> rat) \<Rightarrow> time \<Rightarrow> master_row \<Rightarrow> db \<Rightarrow> trust_factors" where
  "read_trust_factors fl now master s =
     (let m = m_user master;
          cancelled = count_rows (\<lambda>x. o_master x = Some m \<and> o_status x = CANCELLED_BY_MASTER) (orders s);
          closed = count_rows (\<lambda>x. o_master x = Some m \<and> o_status x = CLOSED) (orders s);
          accepted = count_rows (\<lambda>d. d_master d = m \<and> d_status d = D_ACCEPTED) (dispatches s);
          declined_or_expired =
            count_rows (\<lambda>d. d_master d = m \<and> d_status d \<in> {D_DECLINED, D_EXPIRED}) (dispatches s)
      in \<lparr>tf_jobs = m_jobs master,
          tf_rating = fl (m_rating master),
          tf_cancellation = rate fl cancelled closed 0,
          tf_response = rate fl accepted declined_or_expired 1,
          tf_verification = m_verification master,
          tf_points = active_points now m s\<rparr>)"

definition compute_trust_score_with :: "(rat \<Rightarrow> rat) \<Rightarrow> time \<Rightarrow> id \<Rightarrow> db \<Rightarrow> trust_result result" where
  "compute_trust_score_with fl now m s =
     (case find_row (\<lambda>r. m_user r = m) (masters s) of
        None \<Rightarrow> Inl NotFound
      | Some master \<Rightarrow>
          let f = read_trust_factors fl now master s; score = trust_score fl f
          in Inr \<lparr>tr_score = score, tr_tier = score_to_tier score, tr_factors = f\<rparr>)"

definition compute_trust_score :: "time \<Rightarrow> id \<Rightarrow> db \<Rightarrow> trust_result result" where
  "compute_trust_score = compute_trust_score_with fl64"

definition recompute_trust_tier :: "time \<Rightarrow> id \<Rightarrow> db \<Rightarrow> (trust_result, db) outcome" where
  "recompute_trust_tier now m s =
     (case compute_trust_score now m s of
        Inl e \<Rightarrow> raise e s
      | Inr r \<Rightarrow> ok r (s\<lparr>masters := update_rows (\<lambda>x. m_user x = m) (\<lambda>x. x\<lparr>m_trust_tier := tr_tier r\<rparr>)
                                     (masters s)\<rparr>))"

section \<open>Bounds\<close>

lemma score_to_tier_bounds: "0 \<le> score_to_tier x" "score_to_tier x \<le> 3"
  by (simp_all add: score_to_tier_def trust_tier_thresholds_def)

lemma score_to_tier_mono: "x \<le> y \<Longrightarrow> score_to_tier x \<le> score_to_tier y"
  by (simp add: score_to_tier_def trust_tier_thresholds_def)

lemma score_to_tier_cases:
  "score_to_tier x = (if x \<ge> 80 then 3 else if x \<ge> 60 then 2 else if x \<ge> 40 then 1 else 0)"
  by (simp add: score_to_tier_def trust_tier_thresholds_def)

lemma trust_score_bounds: "0 \<le> trust_score fl f" "trust_score fl f \<le> 100"
  by (simp_all add: trust_score_def Let_def)

text \<open>Points beyond the cap change nothing.\<close>

lemma trust_score_capped:
  assumes "max_penalty_deduction \<le> tf_points f"
  shows "trust_score fl f = trust_score fl (f\<lparr>tf_points := max_penalty_deduction\<rparr>)"
  using assms by (simp add: trust_score_def trust_raw_def Let_def)

section \<open>Monotonicity\<close>

context rounding
begin

lemma trust_raw_mono:
  assumes "tf_jobs f \<le> tf_jobs g" "tf_rating f \<le> tf_rating g" "tf_response f \<le> tf_response g"
    "tf_cancellation g \<le> tf_cancellation f"
    "tf_verification f = V_VERIFIED \<Longrightarrow> tf_verification g = V_VERIFIED"
  shows "trust_raw fl f \<le> trust_raw fl g"
  unfolding trust_raw_def Let_def jobs_done_cap_def
  using assms
  by (intro fl_mono add_mono mult_right_mono divide_right_mono diff_mono) auto

lemma trust_score_mono:
  assumes "tf_jobs f \<le> tf_jobs g" "tf_rating f \<le> tf_rating g" "tf_response f \<le> tf_response g"
    "tf_cancellation g \<le> tf_cancellation f" "tf_points g \<le> tf_points f"
    "tf_verification f = V_VERIFIED \<Longrightarrow> tf_verification g = V_VERIFIED"
  shows "trust_score fl f \<le> trust_score fl g"
proof -
  have "trust_raw fl f \<le> trust_raw fl g" using assms by (intro trust_raw_mono)
  moreover have "(of_int (min max_penalty_deduction (tf_points g)) :: rat)
                   \<le> of_int (min max_penalty_deduction (tf_points f))"
    using assms(5) by simp
  ultimately have "js_round (fl (trust_raw fl f - of_int (min max_penalty_deduction (tf_points f))))
      \<le> js_round (fl (trust_raw fl g - of_int (min max_penalty_deduction (tf_points g))))"
    by (intro js_round_mono fl_mono diff_mono)
  then show ?thesis by (simp add: trust_score_def Let_def)
qed

lemma rate_unit: "0 \<le> d \<Longrightarrow> d \<le> 1 \<Longrightarrow> 0 \<le> rate fl a b d \<and> rate fl a b d \<le> 1"
  unfolding rate_def by (auto intro!: fl_unit simp: divide_le_eq)

end

section \<open>Recomputing\<close>

lemma recompute_cases:
  assumes "recompute_trust_tier now m s = (Inr r, t)"
  shows "compute_trust_score now m s = Inr r"
    "t = s\<lparr>masters := update_rows (\<lambda>x. m_user x = m) (\<lambda>x. x\<lparr>m_trust_tier := tr_tier r\<rparr>) (masters s)\<rparr>"
  using assms by (auto simp: recompute_trust_tier_def split: sum.splits)

lemma recompute_error:
  "recompute_trust_tier now m s = (Inl e, t) \<Longrightarrow> t = s"
  by (auto simp: recompute_trust_tier_def split: sum.splits)

lemma compute_trust_found:
  assumes "find_row (\<lambda>r. m_user r = m) (masters s) = Some master"
  shows "\<exists>r. compute_trust_score now m s = Inr r"
  using assms by (simp add: compute_trust_score_def compute_trust_score_with_def Let_def)

lemma compute_trust_bounds:
  assumes "compute_trust_score now m s = Inr r"
  shows "0 \<le> tr_score r" "tr_score r \<le> 100" "0 \<le> tr_tier r" "tr_tier r \<le> 3"
  using assms
  by (auto simp: compute_trust_score_def compute_trust_score_with_def Let_def trust_score_bounds
      score_to_tier_bounds split: option.splits)

definition tiers_ok :: "db \<Rightarrow> bool" where
  "tiers_ok s = (\<forall>m \<in> set (masters s). 0 \<le> m_trust_tier m \<and> m_trust_tier m \<le> 3)"

lemma recompute_tiers_ok:
  assumes "tiers_ok s" "recompute_trust_tier now m s = (r, t)"
  shows "tiers_ok t"
proof (cases r)
  case (Inl e)
  then show ?thesis using assms recompute_error by blast
next
  case (Inr x)
  note c = recompute_cases [OF assms(2) [unfolded Inr]]
  show ?thesis
    using assms(1) compute_trust_bounds [OF c(1)] unfolding tiers_ok_def
    by (auto simp: c(2) dest!: in_update_rowsD)
qed

lemma recompute_frame [frame_simps]:
  assumes "recompute_trust_tier now m s = (r, t)"
  shows "orders t = orders s" "history t = history s" "dispatches t = dispatches s"
    "payments t = payments s" "penalties t = penalties s" "reviews t = reviews s"
    "map m_user (masters t) = map m_user (masters s)" "next_id t = next_id s"
    "claims t = claims s" "verifications t = verifications s" "referrals t = referrals s"
    "media t = media s" "map m_rating (masters t) = map m_rating (masters s)"
    "map m_verification (masters t) = map m_verification (masters s)"
    "map m_jobs (masters t) = map m_jobs (masters s)" "users t = users s"
    "cashbacks t = cashbacks s" "jobs t = jobs s"
  using assms
  by (auto simp: recompute_trust_tier_def split: sum.splits intro!: map_key_update_rows)

section \<open>Penalties\<close>

fun penalty_severity_of :: "penalty_event \<Rightarrow> penalty_severity" where
  "penalty_severity_of CANCELLATION = MODERATE"
| "penalty_severity_of NO_SHOW = SEVERE"
| "penalty_severity_of LATE_RESPONSE = MINOR"
| "penalty_severity_of POOR_QUALITY = MODERATE"
| "penalty_severity_of CUSTOMER_COMPLAINT = MINOR"

fun penalty_points_of :: "penalty_event \<Rightarrow> int" where
  "penalty_points_of CANCELLATION = 10"
| "penalty_points_of NO_SHOW = 20"
| "penalty_points_of LATE_RESPONSE = 3"
| "penalty_points_of POOR_QUALITY = 8"
| "penalty_points_of CUSTOMER_COMPLAINT = 5"

lemma penalty_points_pos: "0 < penalty_points_of ev" "penalty_points_of ev \<le> max_penalty_deduction"
  by (cases ev; simp add: max_penalty_deduction_def)+

fun penalty_event_name :: "penalty_event \<Rightarrow> string" where
  "penalty_event_name CANCELLATION = ''CANCELLATION''"
| "penalty_event_name NO_SHOW = ''NO_SHOW''"
| "penalty_event_name LATE_RESPONSE = ''LATE_RESPONSE''"
| "penalty_event_name POOR_QUALITY = ''POOR_QUALITY''"
| "penalty_event_name CUSTOMER_COMPLAINT = ''CUSTOMER_COMPLAINT''"

definition new_penalty :: "time \<Rightarrow> id \<Rightarrow> id \<Rightarrow> penalty_event \<Rightarrow> id option \<Rightarrow> string option \<Rightarrow> penalty_row" where
  "new_penalty now i m ev order note_text =
     \<lparr>pn_id = i, pn_master = m, pn_event = ev, pn_severity = penalty_severity_of ev,
      pn_points = penalty_points_of ev, pn_order = order, pn_note = note_text, pn_at = now\<rparr>"

definition insert_penalty :: "penalty_row \<Rightarrow> db \<Rightarrow> db" where
  "insert_penalty p s = s\<lparr>penalties := penalties s @ [p], next_id := next_id s + 1\<rparr>"

definition record_event ::
  "time \<Rightarrow> id \<Rightarrow> penalty_event \<Rightarrow> id option \<Rightarrow> string option \<Rightarrow> db \<Rightarrow> (penalty_row, db) outcome" where
  "record_event now m ev order note_text s =
     (let p = new_penalty now (next_id s) m ev order note_text
      in and_then (recompute_trust_tier now m (insert_penalty p s))
           (\<lambda>_ s2. ok p (notify now m PENALTY_ISSUED
                     [(''penaltyRecordId'', JInt (int (pn_id p))),
                      (''eventType'', JStr (penalty_event_name ev))] s2)))"

definition penalty_history :: "time \<Rightarrow> id \<Rightarrow> db \<Rightarrow> penalty_row list \<times> int" where
  "penalty_history now m s =
     (newest_first pn_at (filter (\<lambda>p. pn_master p = m) (penalties s)), active_points now m s)"

lemma insert_penalty_frame [simp, frame_simps]:
  "orders (insert_penalty p s) = orders s" "history (insert_penalty p s) = history s"
  "dispatches (insert_penalty p s) = dispatches s" "payments (insert_penalty p s) = payments s"
  "masters (insert_penalty p s) = masters s" "reviews (insert_penalty p s) = reviews s"
  "penalties (insert_penalty p s) = penalties s @ [p]" "next_id (insert_penalty p s) = next_id s + 1"
  by (simp_all add: insert_penalty_def)

lemma record_event_cases:
  assumes "record_event now m ev order nt s = (Inr p, t)"
  obtains r s2 where "p = new_penalty now (next_id s) m ev order nt"
    "recompute_trust_tier now m (insert_penalty p s) = (Inr r, s2)"
    "t = notify now m PENALTY_ISSUED [(''penaltyRecordId'', JInt (int (pn_id p))),
                      (''eventType'', JStr (penalty_event_name ev))] s2"
  using assms by (auto simp: record_event_def Let_def and_then_Inr)

lemma record_event_frame [frame_simps]:
  assumes "record_event now m ev order nt s = (r, t)"
  shows "orders t = orders s" "history t = history s" "dispatches t = dispatches s"
    "payments t = payments s" "reviews t = reviews s"
    "map m_user (masters t) = map m_user (masters s)"
    "penalties t = penalties s @ [new_penalty now (next_id s) m ev order nt]"
  using assms
  by (auto simp: record_event_def Let_def and_then_eq dest: recompute_frame)

text \<open>The factors a penalty leaves alone, and the one it changes.\<close>

lemma factors_insert_penalty:
  "read_trust_factors fl now master (insert_penalty p s) =
   (read_trust_factors fl now master s)\<lparr>tf_points := active_points now (m_user master) (insert_penalty p s)\<rparr>"
  by (simp add: read_trust_factors_def Let_def)

lemma active_points_insert:
  "pn_master p = m \<Longrightarrow> pn_at p = now \<Longrightarrow>
   active_points now m (insert_penalty p s) = active_points now m s + pn_points p"
  by (simp add: active_points_def penalty_lookback_ms_def)

lemma compute_after_penalty:
  assumes "compute_trust_score now m (insert_penalty p s) = Inr r" "pn_master p = m" "pn_at p = now"
    "0 \<le> pn_points p"
  shows "\<exists>r0. compute_trust_score now m s = Inr r0 \<and> tr_score r \<le> tr_score r0 \<and> tr_tier r \<le> tr_tier r0"
proof -
  obtain master where f: "find_row (\<lambda>r. m_user r = m) (masters s) = Some master"
    using assms(1)
    by (auto simp: compute_trust_score_def compute_trust_score_with_def split: option.splits)
  then have mu: "m_user master = m" by (auto dest: find_row_Some)
  let ?f = "read_trust_factors fl64 now master s"
  let ?g = "read_trust_factors fl64 now master (insert_penalty p s)"
  have "tf_points ?f = active_points now m s" by (simp add: read_trust_factors_def Let_def mu)
  then have "trust_score fl64 ?g \<le> trust_score fl64 ?f"
    using active_points_insert [OF assms(2,3), of s] assms(4)
    by (intro double.trust_score_mono) (simp_all add: factors_insert_penalty mu)
  then show ?thesis
    using assms(1) f score_to_tier_mono
    by (auto simp: compute_trust_score_def compute_trust_score_with_def Let_def)
qed

end
