(* ===== verification/Config.thy ===== *)
theory Config
  imports JsNumber
begin

text \<open>
  The typed configuration of \<open>infra/config/env.ts\<close>: one record field per variable, \<open>env_valid\<close> for the
  constraints the schema enforces at start-up (\<open>is_url\<close> is the test for a URL), \<open>env_default\<close> for its
  defaults (secrets and the database have none and are arguments), and the check \<open>loadEnv\<close> adds in
  production.
\<close>

datatype node_env = Development | Test | Production
datatype ai_choice = Ai_Mock | Ai_Claude
datatype tax_choice = Tax_Mock | Tax_Soliq
datatype sms_choice = Sms_Mock | Sms_Eskiz
datatype push_choice = Push_Mock | Push_Fcm
datatype payment_choice = Payment_Mock

record env =
  NODE_ENV :: node_env
  API_PORT :: int
  WEB_ORIGIN :: string
  TRUSTED_PROXY :: string
  DATABASE_URL :: string
  REDIS_URL :: string
  SENTRY_DSN :: string
  RATE_LIMIT_MAX :: int
  RATE_LIMIT_WINDOW_MS :: int
  JWT_ACCESS_SECRET :: string
  JWT_ACCESS_TTL :: string
  JWT_REFRESH_TTL_DAYS :: int
  FIELD_ENCRYPTION_KEY :: string
  OTP_TTL_SECONDS :: int
  OTP_RESEND_COOLDOWN_SECONDS :: int
  OTP_MAX_ATTEMPTS :: nat
  OTP_DAILY_CAP_PER_PHONE :: nat
  LOGIN_MAX_ATTEMPTS :: nat
  LOGIN_LOCKOUT_SECONDS :: int
  SMS_PROVIDER :: sms_choice
  ESKIZ_EMAIL :: string
  ESKIZ_PASSWORD :: string
  ESKIZ_BASE_URL :: string
  ESKIZ_FROM :: string
  TAX_PROVIDER :: tax_choice
  TAX_WITHHOLDING_RATE :: rat
  AI_PROVIDER :: ai_choice
  ANTHROPIC_API_KEY :: string
  AI_MODEL :: string
  AI_TIMEOUT_MS :: int
  UPLOAD_DIR :: string
  UPLOAD_MAX_PHOTO_MB :: rat
  UPLOAD_MAX_VIDEO_MB :: rat
  ORDER_MAX_MEDIA :: nat
  PUSH_PROVIDER :: push_choice
  FCM_PROJECT_ID :: string
  FCM_CLIENT_EMAIL :: string
  FCM_PRIVATE_KEY :: string
  DISPATCH_TOP_N :: nat
  DISPATCH_RADIUS_EXPANSION_FACTOR :: rat
  DISPATCH_OFFER_TTL_SCHEDULED_SECONDS :: int
  DISPATCH_OFFER_TTL_PRIORITY_SECONDS :: int
  DISPATCH_OFFER_TTL_EMERGENCY_SECONDS :: int
  PAYMENT_PROVIDER :: payment_choice

definition env_default :: "string \<Rightarrow> string \<Rightarrow> string \<Rightarrow> env" where
  "env_default database jwt_secret field_key =
     \<lparr>NODE_ENV = Development,
      API_PORT = 3001,
      WEB_ORIGIN = ''http://localhost:3000'',
      TRUSTED_PROXY = ''loopback'',
      DATABASE_URL = database,
      REDIS_URL = ''redis://localhost:6379'',
      SENTRY_DSN = [],
      RATE_LIMIT_MAX = 300,
      RATE_LIMIT_WINDOW_MS = 60000,
      JWT_ACCESS_SECRET = jwt_secret,
      JWT_ACCESS_TTL = ''15m'',
      JWT_REFRESH_TTL_DAYS = 30,
      FIELD_ENCRYPTION_KEY = field_key,
      OTP_TTL_SECONDS = 180,
      OTP_RESEND_COOLDOWN_SECONDS = 45,
      OTP_MAX_ATTEMPTS = 5,
      OTP_DAILY_CAP_PER_PHONE = 10,
      LOGIN_MAX_ATTEMPTS = 10,
      LOGIN_LOCKOUT_SECONDS = 900,
      SMS_PROVIDER = Sms_Mock,
      ESKIZ_EMAIL = [],
      ESKIZ_PASSWORD = [],
      ESKIZ_BASE_URL = ''https://notify.eskiz.uz/api'',
      ESKIZ_FROM = ''4546'',
      TAX_PROVIDER = Tax_Mock,
      TAX_WITHHOLDING_RATE = fl64 (1 / 100),
      AI_PROVIDER = Ai_Mock,
      ANTHROPIC_API_KEY = [],
      AI_MODEL = ''claude-opus-4-8'',
      AI_TIMEOUT_MS = 12000,
      UPLOAD_DIR = ''./uploads'',
      UPLOAD_MAX_PHOTO_MB = 10,
      UPLOAD_MAX_VIDEO_MB = 50,
      ORDER_MAX_MEDIA = 5,
      PUSH_PROVIDER = Push_Mock,
      FCM_PROJECT_ID = [],
      FCM_CLIENT_EMAIL = [],
      FCM_PRIVATE_KEY = [],
      DISPATCH_TOP_N = 5,
      DISPATCH_RADIUS_EXPANSION_FACTOR = 2,
      DISPATCH_OFFER_TTL_SCHEDULED_SECONDS = 600,
      DISPATCH_OFFER_TTL_PRIORITY_SECONDS = 120,
      DISPATCH_OFFER_TTL_EMERGENCY_SECONDS = 60,
      PAYMENT_PROVIDER = Payment_Mock\<rparr>"

definition env_valid :: "(string \<Rightarrow> bool) \<Rightarrow> env \<Rightarrow> bool" where
  "env_valid is_url e =
     (0 < API_PORT e \<and>
      is_url (WEB_ORIGIN e) \<and>
      DATABASE_URL e \<noteq> [] \<and>
      0 < RATE_LIMIT_MAX e \<and>
      0 < RATE_LIMIT_WINDOW_MS e \<and>
      8 \<le> length (JWT_ACCESS_SECRET e) \<and>
      0 < JWT_REFRESH_TTL_DAYS e \<and>
      16 \<le> length (FIELD_ENCRYPTION_KEY e) \<and>
      0 < OTP_TTL_SECONDS e \<and>
      0 \<le> OTP_RESEND_COOLDOWN_SECONDS e \<and>
      0 < OTP_MAX_ATTEMPTS e \<and>
      0 < OTP_DAILY_CAP_PER_PHONE e \<and>
      0 < LOGIN_MAX_ATTEMPTS e \<and>
      0 < LOGIN_LOCKOUT_SECONDS e \<and>
      0 \<le> TAX_WITHHOLDING_RATE e \<and> TAX_WITHHOLDING_RATE e \<le> 1 \<and>
      0 < AI_TIMEOUT_MS e \<and>
      0 < UPLOAD_MAX_PHOTO_MB e \<and>
      0 < UPLOAD_MAX_VIDEO_MB e \<and>
      0 < ORDER_MAX_MEDIA e \<and>
      0 < DISPATCH_TOP_N e \<and>
      0 < DISPATCH_RADIUS_EXPANSION_FACTOR e \<and>
      0 < DISPATCH_OFFER_TTL_SCHEDULED_SECONDS e \<and>
      0 < DISPATCH_OFFER_TTL_PRIORITY_SECONDS e \<and>
      0 < DISPATCH_OFFER_TTL_EMERGENCY_SECONDS e)"

definition known_dev_placeholders :: "string list" where
  "known_dev_placeholders = [''dev-access-secret-change-me'', ''dev-32-byte-key-change-me-please!'']"

definition unsafe_secret :: "string \<Rightarrow> bool" where
  "unsafe_secret x = (x \<in> set known_dev_placeholders \<or> length x < 32)"

text \<open>\<open>loadEnv\<close>: \<open>None\<close> is the refusal to start.\<close>

definition load_env :: "(string \<Rightarrow> bool) \<Rightarrow> env \<Rightarrow> env option" where
  "load_env is_url e =
     (if \<not> env_valid is_url e then None
      else if NODE_ENV e = Production \<and>
              (unsafe_secret (JWT_ACCESS_SECRET e) \<or> unsafe_secret (FIELD_ENCRYPTION_KEY e)) then None
      else Some e)"

lemma load_env_valid: "load_env is_url e = Some e' \<Longrightarrow> e' = e \<and> env_valid is_url e"
  by (auto simp: load_env_def split: if_splits)

end
