(* ===== verification/Dispatch.thy ===== *)
theory Dispatch
  imports DispatchEligibility Trust Config
begin

text \<open>
  The dispatch cascade, \<open>modules/dispatch/dispatch.service.ts\<close>, and its queue worker.
  \<open>cascade_read\<close> is what \<open>cascadeNext\<close> decides from the database, \<open>insert_offer\<close>
  the insert guarded by the unique key (order, master), \<open>cascade_next\<close> the whole method; the
  recursion of the source (the second, wider attempt, and the retry after a unique violation)
  is by fuel, and two rounds always suffice.  Accepting runs in one transaction that holds the
  order row, so it is one step of the model; declining and expiring are guarded updates.

  The environment of a call is \<open>dispatch_ctx\<close>: the configuration, the clock, Tashkent's
  date, the distance function and the random number of the pick.
\<close>

section \<open>Context\<close>

record dispatch_ctx =
  dc_env :: env
  dc_now :: time
  dc_today :: string
  dc_geo :: "point \<Rightarrow> point \<Rightarrow> rat"
  dc_random :: rat

fun offer_ttl_seconds :: "service_tier \<Rightarrow> env \<Rightarrow> int" where
  "offer_ttl_seconds EMERGENCY e = DISPATCH_OFFER_TTL_EMERGENCY_SECONDS e"
| "offer_ttl_seconds PRIORITY e = DISPATCH_OFFER_TTL_PRIORITY_SECONDS e"
| "offer_ttl_seconds SCHEDULED e = DISPATCH_OFFER_TTL_SCHEDULED_SECONDS e"

definition order_data :: "id \<Rightarrow> (string \<times> json) list" where
  "order_data i = [(''orderId'', JInt (int i))]"

definition find_dispatch :: "id \<Rightarrow> db \<Rightarrow> dispatch_row option" where
  "find_dispatch i s = find_row (\<lambda>d. d_id d = i) (dispatches s)"

section \<open>Giving up\<close>

definition fail_search :: "time \<Rightarrow> id \<Rightarrow> string \<Rightarrow> db \<Rightarrow> (unit, db) outcome" where
  "fail_search now i reason s =
     (case find_order i s of
        None \<Rightarrow> ok () s
      | Some x \<Rightarrow>
          if \<not> can_transition (o_status x) EXPIRED then ok () s
          else let (n, s1) = cas_order i (o_status x) (commit_to EXPIRED) s
               in if n = 0 then ok () s
                  else let s2 = add_history now i (Some (o_status x)) EXPIRED None (Some reason) s1;
                           s3 = emit_to_user (o_customer x) (Ev_Order_Updated i EXPIRED) s2
                       in ok () (notify now (o_customer x) ORDER_SEARCH_FAILED (order_data i) s3))"

section \<open>The cascade\<close>

datatype cascade_decision =
    Stop
  | Give_Up string
  | Widen
  | Offer candidate nat

definition cascade_params :: "dispatch_ctx \<Rightarrow> order_row \<Rightarrow> id \<Rightarrow> nat \<Rightarrow> eligibility_params" where
  "cascade_params ctx x cat attempt =
     \<lparr>ep_order = o_id x, ep_category = cat,
      ep_tier = required_tier_for_complexity (o_complexity x),
      ep_today = dc_today ctx,
      ep_multiplier = (if attempt = 1 then 1 else DISPATCH_RADIUS_EXPANSION_FACTOR (dc_env ctx)),
      ep_limit = DISPATCH_TOP_N (dc_env ctx)\<rparr>"

definition cascade_read :: "dispatch_ctx \<Rightarrow> id \<Rightarrow> nat \<Rightarrow> db \<Rightarrow> cascade_decision" where
  "cascade_read ctx i attempt s =
     (case find_order i s of
        None \<Rightarrow> Stop
      | Some x \<Rightarrow>
          if o_status x \<noteq> SEARCHING then Stop
          else case (o_category x, o_lat x, o_lng x) of
            (Some cat, Some _, Some _) \<Rightarrow>
              let rank_so_far = count_rows (\<lambda>d. d_order d = i) (dispatches s);
                  candidates = find_eligible_candidates (dc_geo ctx) (dc_now ctx)
                                 (cascade_params ctx x cat attempt) s
              in (case weighted_random_pick fl64 (dc_random ctx)
                         (\<lambda>c. score_candidate (scoring_input.truncate c)) candidates of
                    Inr picked \<Rightarrow> Offer picked (rank_so_far + 1)
                  | Inl _ \<Rightarrow> if attempt = 1 then Widen
                             else Give_Up ''pool exhausted after radius expansion'')
          | _ \<Rightarrow> Give_Up ''missing category or location'')"

definition new_offer :: "dispatch_ctx \<Rightarrow> id \<Rightarrow> int \<Rightarrow> id \<Rightarrow> candidate \<Rightarrow> nat \<Rightarrow> dispatch_row" where
  "new_offer ctx i ttl did c rank =
     \<lparr>d_id = did, d_order = i, d_master = ca_master c, d_rank = rank, d_distance = sc_distance c,
      d_score = numeric2 (score_candidate (scoring_input.truncate c)), d_status = D_OFFERED,
      d_lead = False, d_offered_at = dc_now ctx, d_expires = dc_now ctx + ttl * 1000,
      d_responded = None\<rparr>"

definition insert_offer :: "dispatch_row \<Rightarrow> db \<Rightarrow> (unit, db) outcome" where
  "insert_offer d s =
     (if \<exists>e \<in> set (dispatches s). d_order e = d_order d \<and> d_master e = d_master d
      then raise UniqueViolation s
      else ok () (s\<lparr>dispatches := dispatches s @ [d], next_id := next_id s + 1\<rparr>))"

definition announce_offer :: "dispatch_ctx \<Rightarrow> int \<Rightarrow> dispatch_row \<Rightarrow> db \<Rightarrow> db" where
  "announce_offer ctx ttl d s =
     (let s1 = s\<lparr>jobs := jobs s @ [(d_id d, dc_now ctx + ttl * 1000)]\<rparr>;
          s2 = emit_to_user (d_master d) (Ev_Offer_Received (d_id d)) s1
      in notify (dc_now ctx) (d_master d) OFFER_RECEIVED
           (order_data (d_order d) @ [(''dispatchId'', JInt (int (d_id d)))]) s2)"

fun cascade_next :: "nat \<Rightarrow> dispatch_ctx \<Rightarrow> id \<Rightarrow> nat \<Rightarrow> db \<Rightarrow> (unit, db) outcome option" where
  "cascade_next 0 ctx i attempt s = None"
| "cascade_next (Suc fuel) ctx i attempt s =
     (case cascade_read ctx i attempt s of
        Stop \<Rightarrow> Some (ok () s)
      | Give_Up reason \<Rightarrow> Some (fail_search (dc_now ctx) i reason s)
      | Widen \<Rightarrow> cascade_next fuel ctx i 2 s
      | Offer c rank \<Rightarrow>
          (case find_order i s of
             None \<Rightarrow> Some (ok () s)
           | Some x \<Rightarrow>
               let ttl = offer_ttl_seconds (o_tier x) (dc_env ctx);
                   d = new_offer ctx i ttl (next_id s) c rank
               in (case insert_offer d s of
                     (Inl _, s1) \<Rightarrow> cascade_next fuel ctx i attempt s1
                   | (Inr _, s1) \<Rightarrow> Some (ok () (announce_offer ctx ttl d s1)))))"

definition run_cascade :: "dispatch_ctx \<Rightarrow> id \<Rightarrow> db \<Rightarrow> (unit, db) outcome" where
  "run_cascade ctx i s = (case cascade_next 2 ctx i 1 s of Some r \<Rightarrow> r | None \<Rightarrow> raise InternalError s)"

definition start_dispatch :: "dispatch_ctx \<Rightarrow> id \<Rightarrow> db \<Rightarrow> (unit, db) outcome" where
  "start_dispatch ctx i s = run_cascade ctx i s"

section \<open>Answers of a master\<close>

record offer_answer =
  oa_status :: dispatch_status
  oa_at :: time

definition apply_answer :: "offer_answer \<Rightarrow> dispatch_row \<Rightarrow> dispatch_row" where
  "apply_answer a d = d\<lparr>d_status := oa_status a, d_responded := Some (oa_at a)\<rparr>"

definition answer_offer :: "time \<Rightarrow> id \<Rightarrow> dispatch_status \<Rightarrow> db \<Rightarrow> nat \<times> db" where
  "answer_offer now did to s =
     (cas_count d_id d_status did D_OFFERED (dispatches s),
      s\<lparr>dispatches := cas_rows d_id d_status did D_OFFERED
                        (apply_answer \<lparr>oa_status = to, oa_at = now\<rparr>) (dispatches s)\<rparr>)"

interpretation offer_cas: guarded_update d_id d_status apply_answer "\<lambda>a old. oa_status a \<noteq> old"
  by unfold_locales (auto simp: apply_answer_def)

definition handle_offer_expiry :: "dispatch_ctx \<Rightarrow> id \<Rightarrow> db \<Rightarrow> (unit, db) outcome" where
  "handle_offer_expiry ctx did s =
     (let (n, s1) = answer_offer (dc_now ctx) did D_EXPIRED s
      in if n = 0 then ok () s
         else case find_dispatch did s1 of
                None \<Rightarrow> ok () s1
              | Some d \<Rightarrow>
                  let s2 = notify (dc_now ctx) (d_master d) OFFER_EXPIRED (order_data (d_order d)) s1
                  in and_then (record_event (dc_now ctx) (d_master d) LATE_RESPONSE (Some (d_order d)) None s2)
                       (\<lambda>_ s3. run_cascade ctx (d_order d) s3))"

definition decline_offer :: "dispatch_ctx \<Rightarrow> id \<Rightarrow> id \<Rightarrow> db \<Rightarrow> (unit, db) outcome" where
  "decline_offer ctx did m s =
     (case find_dispatch did s of
        None \<Rightarrow> raise NotFound s
      | Some d \<Rightarrow>
          if d_master d \<noteq> m then raise Forbidden s
          else let (n, s1) = answer_offer (dc_now ctx) did D_DECLINED s
               in if n = 0 then ok () s else run_cascade ctx (d_order d) s1)"

definition accept_rows :: "time \<Rightarrow> id \<Rightarrow> id \<Rightarrow> dispatch_row list \<Rightarrow> dispatch_row list" where
  "accept_rows now did i rows =
     update_rows (\<lambda>d. d_order d = i \<and> d_status d = D_OFFERED \<and> d_id d \<noteq> did)
       (\<lambda>d. d\<lparr>d_status := D_WITHDRAWN, d_responded := Some now\<rparr>)
       (update_rows (\<lambda>d. d_id d = did)
          (\<lambda>d. d\<lparr>d_status := D_ACCEPTED, d_lead := True, d_responded := Some now\<rparr>) rows)"

definition accept_tx ::
  "time \<Rightarrow> id \<Rightarrow> id \<Rightarrow> id \<Rightarrow> db \<Rightarrow> (id \<times> notification_row, db) outcome" where
  "accept_tx now did m i s =
     (case (find_order i s, find_dispatch did s) of
        (Some x, Some fresh) \<Rightarrow>
          if d_status fresh \<noteq> D_OFFERED \<or> d_expires fresh < now then raise Conflict s
          else if \<not> can_transition (o_status x) ASSIGNED then raise Conflict s
          else let s1 = s\<lparr>dispatches := accept_rows now did i (dispatches s)\<rparr>;
                   s2 = s1\<lparr>orders := update_rows (\<lambda>r. o_id r = i)
                             (\<lambda>r. r\<lparr>o_status := ASSIGNED, o_master := Some m\<rparr>) (orders s1)\<rparr>;
                   s3 = add_history now i (Some (o_status x)) ASSIGNED (Some m) None s2;
                   (n, s4) = create_record now (o_customer x) ORDER_ASSIGNED (order_data i) s3
               in ok (o_customer x, n) s4
      | _ \<Rightarrow> raise NotFound s)"

definition accept_offer :: "time \<Rightarrow> id \<Rightarrow> id \<Rightarrow> db \<Rightarrow> (unit, db) outcome" where
  "accept_offer now did m s =
     (case find_dispatch did s of
        None \<Rightarrow> raise NotFound s
      | Some d \<Rightarrow>
          if d_master d \<noteq> m then raise Forbidden s
          else and_then (transaction (accept_tx now did m (d_order d)) s)
                 (\<lambda>(customer, n) s1.
                    ok () (deliver n (emit_to_user customer (Ev_Order_Updated (d_order d) ASSIGNED) s1))))"

definition get_current_offer :: "time \<Rightarrow> id \<Rightarrow> db \<Rightarrow> dispatch_row option" where
  "get_current_offer now m s =
     find_row (\<lambda>_. True)
       (newest_first d_offered_at
          (filter (\<lambda>d. d_master d = m \<and> d_status d = D_OFFERED \<and> d_expires d > now) (dispatches s)))"

section \<open>The cascade always finishes\<close>

lemma find_dispatch_id: "find_dispatch i s = Some d \<Longrightarrow> d \<in> set (dispatches s) \<and> d_id d = i"
  by (auto simp: find_dispatch_def dest: find_row_Some)

lemma cascade_read_offer:
  assumes "cascade_read ctx i attempt s = Offer c rank"
  obtains x cat where "find_order i s = Some x" "o_status x = SEARCHING" "o_category x = Some cat"
    "c \<in> set (find_eligible_candidates (dc_geo ctx) (dc_now ctx) (cascade_params ctx x cat attempt) s)"
    "rank = count_rows (\<lambda>d. d_order d = i) (dispatches s) + 1"
  using assms
  by (auto simp: cascade_read_def Let_def split: option.splits if_splits sum.splits dest: pick_member)

text \<open>Read and insert in one go, the unique key (order, master) is never violated.\<close>

lemma offer_is_new:
  assumes "cascade_read ctx i attempt s = Offer c rank" "d_order d = i" "d_master d = ca_master c"
  shows "insert_offer d s = ok () (s\<lparr>dispatches := dispatches s @ [d], next_id := next_id s + 1\<rparr>)"
proof -
  obtain x cat where x: "find_order i s = Some x"
    and c: "c \<in> set (find_eligible_candidates (dc_geo ctx) (dc_now ctx) (cascade_params ctx x cat attempt) s)"
    using assms(1) by (rule cascade_read_offer)
  have "\<not> (\<exists>e \<in> set (dispatches s). d_order e = i \<and> d_master e = ca_master c)"
    using eligible_not_offered [OF c] find_order_id [OF x] by (auto simp: cascade_params_def)
  then show ?thesis using assms(2,3) by (simp add: insert_offer_def)
qed

definition make_offer :: "dispatch_ctx \<Rightarrow> order_row \<Rightarrow> candidate \<Rightarrow> nat \<Rightarrow> db \<Rightarrow> db" where
  "make_offer ctx x c rank s =
     (let ttl = offer_ttl_seconds (o_tier x) (dc_env ctx);
          d = new_offer ctx (o_id x) ttl (next_id s) c rank
      in announce_offer ctx ttl d
           (s\<lparr>dispatches := dispatches s @ [d], next_id := next_id s + 1\<rparr>))"

lemma cascade_offer:
  assumes "cascade_read ctx i attempt s = Offer c rank" "find_order i s = Some x"
  shows "cascade_next (Suc fuel) ctx i attempt s = Some (ok () (make_offer ctx x c rank s))"
proof -
  let ?d = "new_offer ctx i (offer_ttl_seconds (o_tier x) (dc_env ctx)) (next_id s) c rank"
  have ins: "insert_offer ?d s = ok () (s\<lparr>dispatches := dispatches s @ [?d], next_id := next_id s + 1\<rparr>)"
    by (rule offer_is_new [OF assms(1)]) (simp_all add: new_offer_def)
  show ?thesis
    using assms find_order_id [OF assms(2)] ins
    by (simp add: make_offer_def Let_def ok_def)
qed

lemma cascade_read_attempt2: "cascade_read ctx i 2 s \<noteq> Widen"
  by (auto simp: cascade_read_def Let_def split: option.splits sum.splits)

definition perform :: "dispatch_ctx \<Rightarrow> id \<Rightarrow> cascade_decision \<Rightarrow> db \<Rightarrow> (unit, db) outcome" where
  "perform ctx i d s = (case d of
     Give_Up reason \<Rightarrow> fail_search (dc_now ctx) i reason s
   | Offer c rank \<Rightarrow> ok () (make_offer ctx (the (find_order i s)) c rank s)
   | _ \<Rightarrow> ok () s)"

definition cascade_decide :: "dispatch_ctx \<Rightarrow> id \<Rightarrow> db \<Rightarrow> cascade_decision" where
  "cascade_decide ctx i s =
     (let d = cascade_read ctx i 1 s in if d = Widen then cascade_read ctx i 2 s else d)"

lemma cascade_performs:
  assumes "cascade_read ctx i attempt s \<noteq> Widen"
  shows "cascade_next (Suc fuel) ctx i attempt s = Some (perform ctx i (cascade_read ctx i attempt s) s)"
proof (cases "cascade_read ctx i attempt s")
  case (Offer c rank)
  then obtain x where x: "find_order i s = Some x" by (elim cascade_read_offer)
  show ?thesis using cascade_offer [OF Offer x] Offer x by (simp add: perform_def)
qed (use assms in \<open>auto simp: perform_def\<close>)

lemma cascade_enough_fuel:
  assumes "2 \<le> fuel"
  shows "cascade_next fuel ctx i 1 s = Some (perform ctx i (cascade_decide ctx i s) s)"
proof -
  obtain f where f: "fuel = Suc (Suc f)" using assms by (metis add_2_eq_Suc le_Suc_ex)
  show ?thesis
  proof (cases "cascade_read ctx i 1 s = Widen")
    case True
    then show ?thesis
      using cascade_performs [OF cascade_read_attempt2, of f] by (simp add: f cascade_decide_def)
  next
    case False
    then show ?thesis
      using cascade_performs [OF False, of "Suc f"]
      by (simp only: f cascade_decide_def Let_def if_False)
  qed
qed

lemma run_cascade_perform: "run_cascade ctx i s = perform ctx i (cascade_decide ctx i s) s"
  unfolding run_cascade_def using cascade_enough_fuel [of 2] by simp

text \<open>The three things a cascade can do.\<close>

lemma fail_search_ok: "\<exists>t. fail_search now i reason s = (Inr (), t)"
  by (auto simp: fail_search_def Let_def ok_def split: option.splits prod.splits)

lemma cascade_decide_offer:
  assumes "cascade_decide ctx i s = Offer c rank"
  obtains attempt x where "cascade_read ctx i attempt s = Offer c rank" "find_order i s = Some x"
proof -
  obtain attempt where a: "cascade_read ctx i attempt s = Offer c rank"
    using assms by (metis cascade_decide_def)
  then obtain x where "find_order i s = Some x" by (elim cascade_read_offer)
  with a show thesis by (rule that)
qed

lemma run_cascade_cases:
  obtains (nothing) "run_cascade ctx i s = ok () s"
  | (offered) c rank attempt x where "cascade_read ctx i attempt s = Offer c rank"
      "find_order i s = Some x" "run_cascade ctx i s = ok () (make_offer ctx x c rank s)"
  | (failed) reason where "run_cascade ctx i s = fail_search (dc_now ctx) i reason s"
proof (cases "cascade_decide ctx i s")
  case (Offer c rank)
  then have r: "run_cascade ctx i s = ok () (make_offer ctx (the (find_order i s)) c rank s)"
    by (simp add: run_cascade_perform perform_def)
  obtain attempt x where "cascade_read ctx i attempt s = Offer c rank" "find_order i s = Some x"
    using Offer by (rule cascade_decide_offer)
  then show thesis using that(2) r by simp
qed (use that in \<open>auto simp: run_cascade_perform perform_def\<close>)

lemma run_cascade_ok: "\<exists>t. run_cascade ctx i s = (Inr (), t)"
  by (rule run_cascade_cases [of ctx i s]) (auto simp: ok_def fail_search_ok)

end
