(* ===== verification/MagicBytes.thy ===== *)
theory MagicBytes
  imports Schema
begin

text \<open>
  The upload check of \<open>infra/storage/magic-bytes.ts\<close>: the signature of a file must match
  its declared MIME type.  The tables of the source are object literals, which also answer to the
  keys every object inherits (\<open>inherited_keys\<close>): \<open>js_lookup\<close> is \<open>table[key]\<close>, and its being
  \<open>Some\<close> is \<open>key in table\<close>.  An inherited function called as a check returns a true value
  or throws.
\<close>

definition inherited_keys :: "string list" where
  "inherited_keys =
     [''constructor'', ''toString'', ''toLocaleString'', ''valueOf'', ''hasOwnProperty'', ''isPrototypeOf'',
      ''propertyIsEnumerable'', ''__proto__'', ''__defineGetter__'', ''__defineSetter__'', ''__lookupGetter__'',
      ''__lookupSetter__'']"

definition js_lookup :: "(string \<times> 'a) list \<Rightarrow> (string \<Rightarrow> 'a) \<Rightarrow> string \<Rightarrow> 'a option" where
  "js_lookup table inherited key =
     (case map_of table key of
        Some x \<Rightarrow> Some x
      | None \<Rightarrow> if key \<in> set inherited_keys then Some (inherited key) else None)"

text \<open>An inherited value put into a template string.\<close>

definition inherited_text :: "string \<Rightarrow> string" where
  "inherited_text key =
     (if key = ''constructor'' then ''function Object() { [native code] }''
      else if key = ''__proto__'' then ''[object Object]''
      else ''function '' @ key @ ''() { [native code] }'')"

definition inherited_check :: "string \<Rightarrow> byte list \<Rightarrow> bool result" where
  "inherited_check key buffer =
     (if key = ''constructor'' \<or> key = ''toString'' then Inr True else Inl InternalError)"

definition bytes_equal :: "byte list \<Rightarrow> nat \<Rightarrow> byte list \<Rightarrow> bool" where
  "bytes_equal buffer offset expected =
     (if length buffer < offset + length expected then False
      else list_all (\<lambda>i. buffer ! (offset + i) = expected ! i) [0..<length expected])"

definition is_iso_bmff :: "byte list \<Rightarrow> bool" where
  "is_iso_bmff b = bytes_equal b 4 [0x66, 0x74, 0x79, 0x70]"

definition signatures :: "(string \<times> (byte list \<Rightarrow> bool result)) list" where
  "signatures =
     [(''image/jpeg'', \<lambda>b. Inr (bytes_equal b 0 [0xff, 0xd8, 0xff])),
      (''image/png'', \<lambda>b. Inr (bytes_equal b 0 [0x89, 0x50, 0x4e, 0x47, 0x0d, 0x0a, 0x1a, 0x0a])),
      (''image/gif'', \<lambda>b. Inr (bytes_equal b 0 [0x47, 0x49, 0x46, 0x38])),
      (''image/webp'', \<lambda>b. Inr (bytes_equal b 0 [0x52, 0x49, 0x46, 0x46] \<and> bytes_equal b 8 [0x57, 0x45, 0x42, 0x50])),
      (''image/heic'', \<lambda>b. Inr (is_iso_bmff b)),
      (''video/mp4'', \<lambda>b. Inr (is_iso_bmff b)),
      (''video/quicktime'', \<lambda>b. Inr (is_iso_bmff b)),
      (''video/webm'', \<lambda>b. Inr (bytes_equal b 0 [0x1a, 0x45, 0xdf, 0xa3]))]"

definition matches_magic_bytes :: "byte list \<Rightarrow> string \<Rightarrow> bool result" where
  "matches_magic_bytes buffer mime =
     (case js_lookup signatures inherited_check mime of None \<Rightarrow> Inr True | Some check \<Rightarrow> check buffer)"

lemma js_lookup_None: "js_lookup t f k = None \<longleftrightarrow> k \<notin> fst ` set t \<and> k \<notin> set inherited_keys"
  using map_of_eq_None_iff [of t k] by (cases "map_of t k") (simp_all add: js_lookup_def)

text \<open>The loop over the expected bytes compares exactly one slice of the buffer.\<close>

lemma bytes_equal_slice:
  "bytes_equal b off e \<longleftrightarrow> off + length e \<le> length b \<and> take (length e) (drop off b) = e"
proof (cases "off + length e \<le> length b")
  case True
  have "list_all (\<lambda>i. b ! (off + i) = e ! i) [0..<length e] \<longleftrightarrow>
        take (length e) (drop off b) = e"
    using True unfolding list_eq_iff_nth_eq by (simp add: list_all_iff Ball_def)
  then show ?thesis using True by (simp add: bytes_equal_def)
qed (simp add: bytes_equal_def)

lemma bytes_equal_head: "bytes_equal b 0 (x # e) \<Longrightarrow> \<exists>r. b = x # r"
  by (cases b) (simp_all add: bytes_equal_slice)

end
