(* ===== verification/Calendar.thy ===== *)
theory Calendar
  imports Schema
begin

text \<open>
  Booking slots, \<open>packages/contracts/src/order.ts\<close>: Uzbekistan is UTC+5 all year, so the
  slot of an instant is the hour and minute of the instant shifted by five hours, as
  \<open>toISOString().slice(11, 16)\<close> prints it.
\<close>

definition uz_offset_ms :: int where
  "uz_offset_ms = 5 * 3600000"

definition pad2 :: "int \<Rightarrow> string" where
  "pad2 n = [char_of (48 + nat (n div 10)), char_of (48 + nat (n mod 10))]"

definition slot_minutes :: "time \<Rightarrow> int" where
  "slot_minutes t = ((t + uz_offset_ms) div 60000) mod 1440"

definition utc_to_slot :: "time \<Rightarrow> string" where
  "utc_to_slot t = pad2 (slot_minutes t div 60) @ '':'' @ pad2 (slot_minutes t mod 60)"

definition order_time_slots :: "string list" where
  "order_time_slots = [''09:00'', ''11:00'', ''14:00'', ''16:00'']"

definition order_max_days_ahead :: int where
  "order_max_days_ahead = 14"

definition slot_open :: "time \<Rightarrow> bool" where
  "slot_open t = (utc_to_slot t \<in> set order_time_slots)"

lemma slot_minutes_bounds: "0 \<le> slot_minutes t" "slot_minutes t < 1440"
  by (simp_all add: slot_minutes_def)

text \<open>Two digits determine the number, so a slot text determines the minute of the day.\<close>

fun unpad2 :: "string \<Rightarrow> int" where
  "unpad2 [a, b] = 10 * (int (of_char a) - 48) + (int (of_char b) - 48)"
| "unpad2 _ = 0"

lemma unpad_pad: 
  assumes "0 \<le> n" "n < 100"
  shows "unpad2 (pad2 n) = n"
proof -
  have "48 + nat (n div 10) < 256" "48 + nat (n mod 10) < 256" using assms by auto
  moreover have "0 \<le> n div 10" using assms by simp
  ultimately show ?thesis using assms by (simp add: pad2_def)
qed

definition unslot :: "string \<Rightarrow> int" where
  "unslot t = 60 * unpad2 (take 2 t) + unpad2 (drop 3 t)"

lemma unslot_slot: "unslot (utc_to_slot t) = slot_minutes t"
proof -
  have "slot_minutes t div 60 < 100" "slot_minutes t mod 60 < 100"
    using slot_minutes_bounds [of t] by auto
  then have u: "unpad2 (pad2 (slot_minutes t div 60)) = slot_minutes t div 60"
    "unpad2 (pad2 (slot_minutes t mod 60)) = slot_minutes t mod 60"
    using slot_minutes_bounds [of t] by (simp_all add: unpad_pad)
  have "take 2 (utc_to_slot t) = pad2 (slot_minutes t div 60)"
    "drop 3 (utc_to_slot t) = pad2 (slot_minutes t mod 60)"
    by (simp_all add: utc_to_slot_def pad2_def)
  then show ?thesis using u by (simp add: unslot_def)
qed

lemma slot_texts: "map pad2 [0, 9, 11, 14, 16] = [''00'', ''09'', ''11'', ''14'', ''16'']"
  by code_simp

lemma slot_open_iff: "slot_open t \<longleftrightarrow> slot_minutes t \<in> {540, 660, 840, 960}"
proof
  assume "slot_open t"
  moreover have "unslot ''09:00'' = 540" "unslot ''11:00'' = 660" "unslot ''14:00'' = 840"
    "unslot ''16:00'' = 960" by code_simp+
  ultimately show "slot_minutes t \<in> {540, 660, 840, 960}"
    unfolding slot_open_def order_time_slots_def by (auto simp flip: unslot_slot)
next
  assume "slot_minutes t \<in> {540, 660, 840, 960}"
  then show "slot_open t"
    using slot_texts by (auto simp: slot_open_def order_time_slots_def utc_to_slot_def)
qed

end
