(* ===== verification/Orders.thy ===== *)
theory Orders
  imports OrderState Pricing Dispatch MagicBytes Calendar
begin

text \<open>
  \<open>modules/orders/orders.service.ts\<close>, method by method.  A method that reads an order,
  checks it and then writes is the composition of a check on the row read (\<open>get_owned\<close> or
  \<open>get_owned_by_master\<close> and the guards) and of a commit that gets that row as an argument, so
  that the same commits serve the interleaved model of \<open>OrderSystem\<close>.

  The AI provider is the function \<open>ox_ai\<close> of the context; \<open>ox_dispatch\<close> is the
  environment of the cascade that \<open>submit\<close> starts.  The validated request bodies are the
  record \<open>order_update\<close> and the arguments; what the schemas of the contracts promise of them
  is stated as a hypothesis where a property uses it.
\<close>

section \<open>Context and input\<close>

record ai_input =
  di_description :: string
  di_tier :: service_tier
  di_categories :: "(id \<times> string \<times> string) list"
  di_current :: "id option"
  di_images :: "(string \<times> byte list) list"

record order_ctx =
  ox_env :: env
  ox_now :: time
  ox_ai :: "ai_input \<Rightarrow> ai_diagnosis"
  ox_dispatch :: dispatch_ctx

record order_update =
  ou_category :: "id option"
  ou_description :: "string option"
  ou_tier :: "service_tier option"
  ou_scheduled :: "time option option"
  ou_address :: "string option"
  ou_lat :: "rat option"
  ou_lng :: "rat option"

section \<open>Helpers\<close>

definition get_owned :: "id \<Rightarrow> id \<Rightarrow> db \<Rightarrow> order_row result" where
  "get_owned customer i s =
     (case find_order i s of
        None \<Rightarrow> Inl NotFound
      | Some x \<Rightarrow> if o_customer x \<noteq> customer then Inl Forbidden else Inr x)"

definition get_owned_by_master :: "id \<Rightarrow> id \<Rightarrow> db \<Rightarrow> order_row result" where
  "get_owned_by_master m i s =
     (case find_order i s of
        None \<Rightarrow> Inl NotFound
      | Some x \<Rightarrow> if o_master x \<noteq> Some m then Inl Forbidden else Inr x)"

definition active_category :: "id \<Rightarrow> db \<Rightarrow> bool" where
  "active_category c s = (find_row (\<lambda>r. c_id r = c \<and> c_active r) (categories s) \<noteq> None)"

definition assert_category :: "id option \<Rightarrow> db \<Rightarrow> error option" where
  "assert_category c s =
     (case c of None \<Rightarrow> None | Some k \<Rightarrow> if active_category k s then None else Some BadRequest)"

definition assert_schedulable :: "time \<Rightarrow> time \<Rightarrow> error option" where
  "assert_schedulable now t =
     (if t \<le> now then Some BadRequest
      else if t > now + order_max_days_ahead * 86400000 then Some BadRequest
      else if \<not> slot_open t then Some BadRequest
      else None)"

definition order_media_of :: "id \<Rightarrow> db \<Rightarrow> media_row list" where
  "order_media_of i s = filter (\<lambda>m. md_order m = i) (media s)"

definition history_of :: "id \<Rightarrow> db \<Rightarrow> history_row list" where
  "history_of i s = filter (\<lambda>h. h_order h = i) (history s)"

text \<open>\<open>with_order\<close> is the shape of every method: fetch or fail, then go on with the row.\<close>

definition with_order ::
  "order_row result \<Rightarrow> (order_row \<Rightarrow> db \<Rightarrow> ('a, db) outcome) \<Rightarrow> db \<Rightarrow> ('a, db) outcome" where
  "with_order r f s = (case r of Inl e \<Rightarrow> raise e s | Inr x \<Rightarrow> f x s)"

definition check :: "error option \<Rightarrow> (db \<Rightarrow> ('a, db) outcome) \<Rightarrow> db \<Rightarrow> ('a, db) outcome" where
  "check e f s = (case e of Some err \<Rightarrow> raise err s | None \<Rightarrow> f s)"

section \<open>Drafts\<close>

definition create_draft :: "time \<Rightarrow> id \<Rightarrow> id option \<Rightarrow> string \<Rightarrow> db \<Rightarrow> (id, db) outcome" where
  "create_draft now customer cat description =
     (\<lambda>s. check (assert_category cat s)
        (\<lambda>s. let i = next_id s;
                 x = \<lparr>o_id = i, o_no = next_order_no s, o_customer = customer, o_category = cat,
                      o_description = description, o_status = DRAFT, o_tier = SCHEDULED,
                      o_scheduled = None, o_address = None, o_lat = None, o_lng = None,
                      o_master = None, o_complexity = None, o_ai = None, o_price_min = None,
                      o_price_max = None, o_fee = 0, o_final = None, o_consent = None,
                      o_submitted = None, o_cancelled = None, o_created = now\<rparr>;
                 s1 = s\<lparr>orders := orders s @ [x], next_id := i + 1,
                        next_order_no := next_order_no s + 1\<rparr>
             in ok i (add_history now i None DRAFT (Some customer) None s1)) s)"

definition or_keep :: "'a option \<Rightarrow> 'a \<Rightarrow> 'a" where
  "or_keep d x = (case d of None \<Rightarrow> x | Some y \<Rightarrow> y)"

definition or_keep_some :: "'a option \<Rightarrow> 'a option \<Rightarrow> 'a option" where
  "or_keep_some d x = (case d of None \<Rightarrow> x | Some y \<Rightarrow> Some y)"

definition invalidates_quote :: "order_row \<Rightarrow> order_update \<Rightarrow> bool" where
  "invalidates_quote x u =
     (o_status x = PRICED \<and> (ou_description u \<noteq> None \<or> ou_category u \<noteq> None \<or> ou_tier u \<noteq> None))"

definition edit_row :: "order_update \<Rightarrow> order_row \<Rightarrow> order_row" where
  "edit_row u r =
     r\<lparr>o_category := or_keep_some (ou_category u) (o_category r),
       o_description := or_keep (ou_description u) (o_description r),
       o_tier := or_keep (ou_tier u) (o_tier r),
       o_scheduled := or_keep (ou_scheduled u) (o_scheduled r),
       o_address := or_keep_some (ou_address u) (o_address r),
       o_lat := or_keep_some (map_option numeric6 (ou_lat u)) (o_lat r),
       o_lng := or_keep_some (map_option numeric6 (ou_lng u)) (o_lng r)\<rparr>"

definition unquote_row :: "order_row \<Rightarrow> order_row" where
  "unquote_row r = r\<lparr>o_status := DRAFT, o_price_min := None, o_price_max := None\<rparr>"

definition edit_commit :: "time \<Rightarrow> id \<Rightarrow> order_row \<Rightarrow> order_update \<Rightarrow> db \<Rightarrow> db" where
  "edit_commit now customer x u s =
     (if invalidates_quote x u
      then add_history now (o_id x) (Some PRICED) DRAFT (Some customer) (Some ''edited-after-quote'')
             (s\<lparr>orders := update_rows (\<lambda>r. o_id r = o_id x) (\<lambda>r. unquote_row (edit_row u r)) (orders s)\<rparr>)
      else s\<lparr>orders := update_rows (\<lambda>r. o_id r = o_id x) (edit_row u) (orders s)\<rparr>)"

definition update_draft :: "time \<Rightarrow> id \<Rightarrow> id \<Rightarrow> order_update \<Rightarrow> db \<Rightarrow> (unit, db) outcome" where
  "update_draft now customer i u s =
     with_order (get_owned customer i s)
       (\<lambda>x s.
          if o_status x \<notin> set editable_statuses then raise Conflict s
          else check (assert_category (ou_category u) s)
            (\<lambda>s. check (case ou_scheduled u of Some (Some t) \<Rightarrow> assert_schedulable now t | _ \<Rightarrow> None)
               (\<lambda>s. ok () (edit_commit now customer x u s)) s) s) s"

section \<open>Media\<close>

definition photo_ext :: "string \<Rightarrow> string option" where
  "photo_ext = js_lookup
     [(''image/jpeg'', ''.jpg''), (''image/png'', ''.png''), (''image/webp'', ''.webp''),
      (''image/gif'', ''.gif''), (''image/heic'', ''.heic'')] inherited_text"

definition video_ext :: "string \<Rightarrow> string option" where
  "video_ext = js_lookup
     [(''video/mp4'', ''.mp4''), (''video/quicktime'', ''.mov''), (''video/webm'', ''.webm'')] inherited_text"

definition save_media_file ::
  "env \<Rightarrow> order_row \<Rightarrow> nat \<Rightarrow> byte list \<Rightarrow> string \<Rightarrow> uploader \<Rightarrow> db \<Rightarrow> (unit, db) outcome" where
  "save_media_file e x media_count buffer mime who s =
     (if media_count \<ge> ORDER_MAX_MEDIA e then raise BadRequest s
      else if photo_ext mime = None \<and> video_ext mime = None then raise UnsupportedMediaType s
      else case matches_magic_bytes buffer mime of
        Inl err \<Rightarrow> raise err s
      | Inr matches \<Rightarrow>
          if \<not> matches then raise UnsupportedMediaType s
          else let is_photo = (photo_ext mime \<noteq> None);
                   max_bytes = (if is_photo then UPLOAD_MAX_PHOTO_MB e else UPLOAD_MAX_VIDEO_MB e) * 1024 * 1024
               in if of_nat (length buffer) > max_bytes then raise PayloadTooLarge s
                  else let ext = (if is_photo then the (photo_ext mime) else the (video_ext mime));
                           key = Object_Key (next_id s) ext;
                           s1 = s\<lparr>files := files s @ [(key, buffer)], next_id := next_id s + 1\<rparr>;
                           m = \<lparr>md_id = next_id s1, md_order = o_id x,
                                md_kind = (if is_photo then PHOTO else VIDEO), md_role = who,
                                md_key = key, md_mime = mime, md_size = length buffer\<rparr>
                       in ok () (s1\<lparr>media := media s1 @ [m], next_id := next_id s1 + 1\<rparr>))"

definition add_media ::
  "env \<Rightarrow> id \<Rightarrow> id \<Rightarrow> byte list \<Rightarrow> string \<Rightarrow> db \<Rightarrow> (unit, db) outcome" where
  "add_media e customer i buffer mime s =
     with_order (get_owned customer i s)
       (\<lambda>x s. if o_status x \<notin> set editable_statuses then raise Conflict s
              else save_media_file e x (length (order_media_of i s)) buffer mime By_Customer s) s"

definition add_job_media ::
  "env \<Rightarrow> id \<Rightarrow> id \<Rightarrow> byte list \<Rightarrow> string \<Rightarrow> db \<Rightarrow> (unit, db) outcome" where
  "add_job_media e m i buffer mime s =
     with_order (get_owned_by_master m i s)
       (\<lambda>x s. if o_status x \<noteq> IN_PROGRESS \<and> o_status x \<noteq> COMPLETED then raise Conflict s
              else save_media_file e x (length (order_media_of i s)) buffer mime By_Master s) s"

definition delete_media :: "id \<Rightarrow> id \<Rightarrow> id \<Rightarrow> db \<Rightarrow> (unit, db) outcome" where
  "delete_media customer i mid s =
     with_order (get_owned customer i s)
       (\<lambda>x s. case find_row (\<lambda>m. md_id m = mid) (order_media_of i s) of
                None \<Rightarrow> raise NotFound s
              | Some m \<Rightarrow>
                  ok () (s\<lparr>media := delete_rows (\<lambda>r. md_id r = mid) (media s),
                           files := filter (\<lambda>(k, _). k \<noteq> md_key m) (files s)\<rparr>)) s"

definition get_media_file :: "id \<Rightarrow> db \<Rightarrow> (object_key \<times> string) result" where
  "get_media_file mid s =
     (case find_row (\<lambda>m. md_id m = mid) (media s) of
        None \<Rightarrow> Inl NotFound
      | Some m \<Rightarrow> Inr (md_key m, md_mime m))"

section \<open>Diagnosis and quote\<close>

definition ai_mimes :: "string list" where
  "ai_mimes = [''image/jpeg'', ''image/png'', ''image/webp'', ''image/gif'']"

definition load_ai_images :: "media_row list \<Rightarrow> db \<Rightarrow> (string \<times> byte list) list" where
  "load_ai_images ms s =
     (let photos = take 3 (filter (\<lambda>m. md_kind m = PHOTO \<and> md_mime m \<in> set ai_mimes
                                        \<and> md_size m \<le> 4 * 1024 * 1024) ms)
      in List.map_filter (\<lambda>m. map_option (\<lambda>b. (md_mime m, b)) (map_of (files s) (md_key m))) photos)"

definition ai_input_of :: "order_row \<Rightarrow> db \<Rightarrow> ai_input" where
  "ai_input_of x s =
     \<lparr>di_description = o_description x, di_tier = o_tier x,
      di_categories = map (\<lambda>c. (c_id c, c_slug c, c_name_uz c)) (filter c_active (categories s)),
      di_current = o_category x,
      di_images = load_ai_images (order_media_of (o_id x) s) s\<rparr>"

definition priced_row :: "id \<Rightarrow> ai_diagnosis \<Rightarrow> quote \<Rightarrow> order_row \<Rightarrow> order_row" where
  "priced_row cat d q r =
     r\<lparr>o_category := Some cat, o_complexity := Some (ai_complexity d), o_ai := Some d,
       o_price_min := Some (q_min q), o_price_max := Some (q_max q), o_fee := q_fee q,
       o_status := PRICED\<rparr>"

definition diagnose_commit :: "time \<Rightarrow> id \<Rightarrow> order_row \<Rightarrow> id \<Rightarrow> ai_diagnosis \<Rightarrow> quote \<Rightarrow> db \<Rightarrow> db" where
  "diagnose_commit now customer x cat d q s =
     add_history now (o_id x) (Some (o_status x)) PRICED (Some customer) (Some (''ai:'' @ ai_source d))
       (s\<lparr>orders := update_rows (\<lambda>r. o_id r = o_id x) (priced_row cat d q) (orders s)\<rparr>)"

definition quote_of :: "order_row \<Rightarrow> category_row \<Rightarrow> ai_diagnosis \<Rightarrow> quote" where
  "quote_of x c d = compute_quote (c_base_min c) (c_base_max c) (ai_complexity d) (o_tier x)"

definition diagnose :: "order_ctx \<Rightarrow> id \<Rightarrow> id \<Rightarrow> db \<Rightarrow> (unit, db) outcome" where
  "diagnose ctx customer i s =
     with_order (get_owned customer i s)
       (\<lambda>x s.
          if \<not> can_transition (o_status x) PRICED then raise Conflict s
          else let d = ox_ai ctx (ai_input_of x s);
                   cat = (case o_category x of Some c \<Rightarrow> Some c | None \<Rightarrow> ai_category d)
               in case cat of
                    None \<Rightarrow> raise BadRequest s
                  | Some k \<Rightarrow>
                      (case find_row (\<lambda>c. c_id c = k) (filter c_active (categories s)) of
                         None \<Rightarrow> raise BadRequest s
                       | Some c \<Rightarrow>
                           ok () (diagnose_commit (ox_now ctx) customer x k d (quote_of x c d) s))) s"

section \<open>Submitting and cancelling\<close>

definition submit_row :: "time \<Rightarrow> service_tier \<Rightarrow> order_row \<Rightarrow> order_row" where
  "submit_row now tier r =
     r\<lparr>o_status := SEARCHING, o_consent := Some now, o_submitted := Some now,
       o_scheduled := (if tier \<noteq> SCHEDULED then None else o_scheduled r)\<rparr>"

definition submit_commit :: "time \<Rightarrow> id \<Rightarrow> order_row \<Rightarrow> db \<Rightarrow> db" where
  "submit_commit now customer x s =
     add_history now (o_id x) (Some (o_status x)) SEARCHING (Some customer) None
       (s\<lparr>orders := update_rows (\<lambda>r. o_id r = o_id x) (submit_row now (o_tier x)) (orders s)\<rparr>)"

definition submit_check :: "time \<Rightarrow> order_row \<Rightarrow> error option" where
  "submit_check now x =
     (if \<not> can_transition (o_status x) SEARCHING then Some Conflict
      else if (o_address x = None \<or> o_address x = Some []) \<and> (o_lat x = None \<or> o_lng x = None)
      then Some BadRequest
      else if o_tier x = SCHEDULED
      then (case o_scheduled x of None \<Rightarrow> Some BadRequest | Some t \<Rightarrow> assert_schedulable now t)
      else None)"

definition submit :: "order_ctx \<Rightarrow> id \<Rightarrow> id \<Rightarrow> db \<Rightarrow> (unit, db) outcome" where
  "submit ctx customer i s =
     with_order (get_owned customer i s)
       (\<lambda>x s. check (submit_check (ox_now ctx) x)
          (\<lambda>s. let s1 = submit_commit (ox_now ctx) customer x s
               in ok () (snd (start_dispatch (ox_dispatch ctx) i s1))) s) s"

definition cancel_commit :: "time \<Rightarrow> id \<Rightarrow> order_row \<Rightarrow> db \<Rightarrow> (unit, db) outcome" where
  "cancel_commit now customer x =
     transition now (o_id x) (o_status x)
       ((commit_to CANCELLED_BY_CUSTOMER)\<lparr>oc_cancelled := Some now\<rparr>) (Some customer) None"

definition cancel :: "time \<Rightarrow> id \<Rightarrow> id \<Rightarrow> db \<Rightarrow> (unit, db) outcome" where
  "cancel now customer i s =
     with_order (get_owned customer i s)
       (\<lambda>x s. if \<not> can_transition (o_status x) CANCELLED_BY_CUSTOMER then raise Conflict s
              else cancel_commit now customer x s) s"

section \<open>Job execution\<close>

definition transition_by_master ::
  "time \<Rightarrow> order_row \<Rightarrow> order_status \<Rightarrow> id \<Rightarrow> db \<Rightarrow> (unit, db) outcome" where
  "transition_by_master now x to m s =
     and_then (transition now (o_id x) (o_status x) (commit_to to) (Some m) None s)
       (\<lambda>_ s1. ok () (emit_to_user (o_customer x) (Ev_Order_Updated (o_id x) to) s1))"

definition start_en_route :: "time \<Rightarrow> id \<Rightarrow> id \<Rightarrow> db \<Rightarrow> (unit, db) outcome" where
  "start_en_route now m i s =
     with_order (get_owned_by_master m i s)
       (\<lambda>x s. if \<not> can_transition (o_status x) EN_ROUTE then raise Conflict s
              else transition_by_master now x EN_ROUTE m s) s"

definition start_service :: "time \<Rightarrow> id \<Rightarrow> id \<Rightarrow> db \<Rightarrow> (unit, db) outcome" where
  "start_service now m i s =
     with_order (get_owned_by_master m i s)
       (\<lambda>x s. if \<not> can_transition (o_status x) IN_PROGRESS then raise Conflict s
              else transition_by_master now x IN_PROGRESS m s) s"

definition price_check :: "order_row \<Rightarrow> int \<Rightarrow> error option" where
  "price_check x final_amount =
     (case (o_price_min x, o_price_max x) of
        (Some lo, Some hi) \<Rightarrow> if final_amount < lo \<or> final_amount > hi then Some BadRequest else None
      | _ \<Rightarrow> None)"

definition complete_commit :: "time \<Rightarrow> id \<Rightarrow> order_row \<Rightarrow> int \<Rightarrow> db \<Rightarrow> (unit, db) outcome" where
  "complete_commit now m x final_amount s =
     and_then (transition now (o_id x) (o_status x)
                 ((commit_to COMPLETED)\<lparr>oc_final := Some final_amount\<rparr>) (Some m) None s)
       (\<lambda>_ s1. ok () (notify now (o_customer x) ORDER_COMPLETED (order_data (o_id x))
                       (emit_to_user (o_customer x) (Ev_Order_Updated (o_id x) COMPLETED) s1)))"

definition complete_service :: "time \<Rightarrow> id \<Rightarrow> id \<Rightarrow> int \<Rightarrow> db \<Rightarrow> (unit, db) outcome" where
  "complete_service now m i final_amount s =
     with_order (get_owned_by_master m i s)
       (\<lambda>x s. if \<not> can_transition (o_status x) COMPLETED then raise Conflict s
              else check (price_check x final_amount) (complete_commit now m x final_amount) s) s"

definition count_job :: "id \<Rightarrow> db \<Rightarrow> db" where
  "count_job m s =
     s\<lparr>masters := update_rows (\<lambda>r. m_user r = m) (\<lambda>r. r\<lparr>m_jobs := m_jobs r + 1\<rparr>) (masters s)\<rparr>"

definition confirm_tx :: "time \<Rightarrow> id \<Rightarrow> order_row \<Rightarrow> id \<Rightarrow> db \<Rightarrow> (unit, db) outcome" where
  "confirm_tx now customer x m =
     transaction (\<lambda>s. and_then (transition_body now (o_id x) (o_status x) (commit_to CLOSED) (Some customer) None s)
                        (\<lambda>_ s1. ok () (count_job m s1)))"

definition confirm_completion :: "time \<Rightarrow> id \<Rightarrow> id \<Rightarrow> db \<Rightarrow> (unit, db) outcome" where
  "confirm_completion now customer i s =
     with_order (get_owned customer i s)
       (\<lambda>x s.
          if \<not> can_transition (o_status x) CLOSED then raise Conflict s
          else case o_master x of
                 None \<Rightarrow> raise Conflict s
               | Some m \<Rightarrow>
                   and_then (confirm_tx now customer x m s)
                     (\<lambda>_ s1.
                        let s2 = emit_to_user m (Ev_Order_Updated i CLOSED) s1;
                            s3 = notify now m ORDER_CLOSED (order_data i) s2
                        in and_then (recompute_trust_tier now m s3) (\<lambda>_ s4. ok () s4))) s"

definition cancel_by_master :: "time \<Rightarrow> id \<Rightarrow> id \<Rightarrow> string option \<Rightarrow> db \<Rightarrow> (unit, db) outcome" where
  "cancel_by_master now m i reason s =
     with_order (get_owned_by_master m i s)
       (\<lambda>x s.
          if \<not> can_transition (o_status x) CANCELLED_BY_MASTER then raise Conflict s
          else and_then
                 (transition now i (o_status x)
                    ((commit_to CANCELLED_BY_MASTER)\<lparr>oc_cancelled := Some now\<rparr>) (Some m) reason s)
                 (\<lambda>_ s1.
                    let s2 = emit_to_user (o_customer x) (Ev_Order_Updated i CANCELLED_BY_MASTER) s1;
                        s3 = notify now (o_customer x) ORDER_CANCELLED_BY_MASTER (order_data i) s2
                    in and_then (record_event now m CANCELLATION (Some i) reason s3)
                         (\<lambda>_ s4. ok () s4))) s"

section \<open>Reading\<close>

record order_master_dto =
  omd_id :: id
  omd_name :: "string option"
  omd_phone :: string
  omd_rating :: rat
  omd_jobs :: int

record order_customer_dto =
  ocd_id :: id
  ocd_name :: "string option"
  ocd_phone :: string

record order_dto =
  dto_id :: id
  dto_no :: nat
  dto_status :: order_status
  dto_tier :: service_tier
  dto_category :: "id option"
  dto_category_name :: "string option"
  dto_description :: string
  dto_scheduled :: "time option"
  dto_address :: "string option"
  dto_lat :: "rat option"
  dto_lng :: "rat option"
  dto_complexity :: "complexity option"
  dto_ai :: "ai_diagnosis option"
  dto_price_min :: "int option"
  dto_price_max :: "int option"
  dto_fee :: int
  dto_final :: "int option"
  dto_media :: "media_row list"
  dto_history :: "(order_status option \<times> order_status \<times> time) list"
  dto_master :: "order_master_dto option"
  dto_customer :: "order_customer_dto option"
  dto_created :: time
  dto_submitted :: "time option"

definition phone_of :: "id \<Rightarrow> db \<Rightarrow> string" where
  "phone_of u s = (case find_row (\<lambda>r. u_id r = u) (users s) of None \<Rightarrow> [] | Some r \<Rightarrow> u_phone r)"

definition master_dto :: "id \<Rightarrow> db \<Rightarrow> order_master_dto option" where
  "master_dto m s =
     (case find_row (\<lambda>r. m_user r = m) (masters s) of
        None \<Rightarrow> None
      | Some r \<Rightarrow> Some \<lparr>omd_id = m_user r, omd_name = m_name r, omd_phone = phone_of (m_user r) s,
                        omd_rating = fl64 (m_rating r), omd_jobs = m_jobs r\<rparr>)"

definition customer_dto :: "id \<Rightarrow> db \<Rightarrow> order_customer_dto" where
  "customer_dto c s =
     \<lparr>ocd_id = c,
      ocd_name = (case find_row (\<lambda>r. cp_user r = c) (customer_profiles s) of
                    None \<Rightarrow> None | Some p \<Rightarrow> cp_name p),
      ocd_phone = phone_of c s\<rparr>"

definition to_dto :: "order_row \<Rightarrow> db \<Rightarrow> order_dto" where
  "to_dto x s =
     \<lparr>dto_id = o_id x, dto_no = o_no x, dto_status = o_status x, dto_tier = o_tier x,
      dto_category = o_category x,
      dto_category_name =
        (case o_category x of None \<Rightarrow> None | Some k \<Rightarrow>
           (case find_row (\<lambda>c. c_id c = k) (categories s) of
              None \<Rightarrow> None | Some c \<Rightarrow> Some (c_name_uz c))),
      dto_description = o_description x, dto_scheduled = o_scheduled x, dto_address = o_address x,
      dto_lat = map_option fl64 (o_lat x), dto_lng = map_option fl64 (o_lng x),
      dto_complexity = o_complexity x, dto_ai = o_ai x, dto_price_min = o_price_min x,
      dto_price_max = o_price_max x, dto_fee = o_fee x, dto_final = o_final x,
      dto_media = order_media_of (o_id x) s,
      dto_history = map (\<lambda>h. (h_from h, h_to h, h_at h)) (history_of (o_id x) s),
      dto_master = (case o_master x of None \<Rightarrow> None | Some m \<Rightarrow> master_dto m s),
      dto_customer = (case o_master x of None \<Rightarrow> None | Some _ \<Rightarrow> Some (customer_dto (o_customer x) s)),
      dto_created = o_created x, dto_submitted = o_submitted x\<rparr>"

definition get_one :: "id \<Rightarrow> id \<Rightarrow> db \<Rightarrow> order_dto result" where
  "get_one customer i s =
     (case get_owned customer i s of Inl e \<Rightarrow> Inl e | Inr x \<Rightarrow> Inr (to_dto x s))"

definition get_current_job :: "id \<Rightarrow> db \<Rightarrow> order_dto option" where
  "get_current_job m s =
     map_option (\<lambda>x. to_dto x s)
       (find_row (\<lambda>x. o_master x = Some m \<and> o_status x \<in> set active_master_job_statuses) (orders s))"

definition orders_page :: "(order_row \<Rightarrow> bool) \<Rightarrow> id option \<Rightarrow> db \<Rightarrow> order_dto list \<times> id option" where
  "orders_page P cursor s =
     (let (rows, next) = page o_id 20 cursor (newest_first o_created (filter P (orders s)))
      in (map (\<lambda>x. to_dto x s) rows, next))"

definition list_orders :: "id \<Rightarrow> id option \<Rightarrow> order_status option \<Rightarrow> db \<Rightarrow> order_dto list \<times> id option" where
  "list_orders customer cursor st =
     orders_page (\<lambda>x. o_customer x = customer \<and> (case st of None \<Rightarrow> True | Some v \<Rightarrow> o_status x = v)) cursor"

definition get_job_history :: "id \<Rightarrow> id option \<Rightarrow> db \<Rightarrow> order_dto list \<times> id option" where
  "get_job_history m cursor =
     orders_page (\<lambda>x. o_master x = Some m \<and> o_status x \<in> {COMPLETED, CLOSED}) cursor"

section \<open>Ownership\<close>

lemma get_owned_Inr:
  "get_owned c i s = Inr x \<longleftrightarrow> find_order i s = Some x \<and> o_customer x = c"
  by (auto simp: get_owned_def split: option.splits)

lemma get_owned_by_master_Inr:
  "get_owned_by_master m i s = Inr x \<longleftrightarrow> find_order i s = Some x \<and> o_master x = Some m"
  by (auto simp: get_owned_by_master_def split: option.splits)

lemma with_order_eq:
  "with_order r f s = (y, t) \<longleftrightarrow>
   (\<exists>e. r = Inl e \<and> y = Inl e \<and> t = s) \<or> (\<exists>x. r = Inr x \<and> f x s = (y, t))"
  by (auto simp: with_order_def split: sum.splits)

lemma check_eq:
  "check e f s = (y, t) \<longleftrightarrow> (\<exists>err. e = Some err \<and> y = Inl err \<and> t = s) \<or> (e = None \<and> f s = (y, t))"
  by (auto simp: check_def split: option.splits)

end
