(* ===== verification/OrderInvariant.thy ===== *)
theory OrderInvariant
  imports Orders
begin

text \<open>
  The invariant of the orders, their history and their dispatches, and the lemmas that carry it
  over one write.  A write of an order replaces one row (\<open>put_row\<close>), whether it was an
  \<open>update\<close> by id or a guarded \<open>updateMany\<close> that matched; the lemmas here are stated for
  that form once and used by every step.
\<close>

section \<open>The invariant\<close>

definition history_valid :: "history_row list \<Rightarrow> order_status \<Rightarrow> bool" where
  "history_valid hs st =
     (order_path (map h_to hs) \<and> last (map h_to hs) = st \<and>
      map h_from hs = None # map Some (butlast (map h_to hs)))"

definition quote_ok :: "order_row \<Rightarrow> bool" where
  "quote_ok x = (\<exists>lo hi. o_price_min x = Some lo \<and> o_price_max x = Some hi \<and> 30000 \<le> lo \<and> lo + 5000 \<le> hi)"

definition final_ok :: "order_row \<Rightarrow> bool" where
  "final_ok x = (\<exists>lo hi a. o_price_min x = Some lo \<and> o_price_max x = Some hi \<and> o_final x = Some a
                   \<and> lo \<le> a \<and> a \<le> hi)"

definition needs_quote :: "order_status \<Rightarrow> bool" where
  "needs_quote st = (st \<notin> {DRAFT, CANCELLED_BY_CUSTOMER})"

definition has_master :: "order_status \<Rightarrow> bool" where
  "has_master st = (st \<in> {ASSIGNED, EN_ROUTE, IN_PROGRESS, COMPLETED, CLOSED, CANCELLED_BY_MASTER})"

definition no_master :: "order_status \<Rightarrow> bool" where
  "no_master st = (st \<in> {DRAFT, PRICED, SEARCHING, EXPIRED})"

definition row_ok :: "order_row \<Rightarrow> bool" where
  "row_ok x =
     ((needs_quote (o_status x) \<longrightarrow> quote_ok x) \<and>
      (o_status x \<in> {COMPLETED, CLOSED} \<longrightarrow> final_ok x) \<and>
      0 \<le> o_fee x \<and> o_fee x \<le> 30000 \<and>
      (has_master (o_status x) \<longrightarrow> o_master x \<noteq> None) \<and>
      (no_master (o_status x) \<longrightarrow> o_master x = None))"

definition keys_ok :: "db \<Rightarrow> bool" where
  "keys_ok s =
     (distinct (map o_id (orders s)) \<and> (\<forall>i \<in> set (map o_id (orders s)). i < next_id s) \<and>
      distinct (map d_id (dispatches s)) \<and> (\<forall>i \<in> set (map d_id (dispatches s)). i < next_id s))"

lemma keys_ok_cong:
  assumes "keys_ok s" "map o_id (orders t) = map o_id (orders s)"
    "map d_id (dispatches t) = map d_id (dispatches s)" "next_id s \<le> next_id t"
  shows "keys_ok t"
  unfolding keys_ok_def assms(2,3)
  using assms(1,4) by (auto simp only: keys_ok_def intro: less_le_trans)

definition histories_ok :: "db \<Rightarrow> bool" where
  "histories_ok s =
     ((\<forall>x \<in> set (orders s). history_valid (history_of (o_id x) s) (o_status x)) \<and>
      (\<forall>h \<in> set (history s). h_order h \<in> set (map o_id (orders s))))"

definition dispatches_ok :: "db \<Rightarrow> bool" where
  "dispatches_ok s =
     (distinct (map (\<lambda>d. (d_order d, d_master d)) (dispatches s)) \<and>
      (\<forall>d \<in> set (dispatches s). d_status d = D_ACCEPTED \<longrightarrow>
         (\<exists>x \<in> set (orders s). o_id x = d_order d \<and> o_master x = Some (d_master d)
             \<and> \<not> no_master (o_status x))))"

definition order_inv :: "db \<Rightarrow> bool" where
  "order_inv s = (keys_ok s \<and> histories_ok s \<and> (\<forall>x \<in> set (orders s). row_ok x) \<and> dispatches_ok s)"

section \<open>Replacing one row\<close>

definition put_row :: "order_row \<Rightarrow> order_row \<Rightarrow> order_row list \<Rightarrow> order_row list" where
  "put_row x y rows = update_rows (\<lambda>r. r = x) (\<lambda>_. y) rows"

lemma set_put_row: "x \<in> set rows \<Longrightarrow> set (put_row x y rows) = insert y (set rows - {x})"
  by (auto simp: put_row_def set_update_rows)

lemma ids_put_row: "o_id y = o_id x \<Longrightarrow> map o_id (put_row x y rows) = map o_id rows"
  unfolding put_row_def by (rule map_key_update_rows) simp

lemma update_by_id_put_row:
  assumes "distinct (map o_id rows)" "x \<in> set rows"
  shows "update_rows (\<lambda>r. o_id r = o_id x) f rows = put_row x (f x) rows"
  unfolding put_row_def update_rows_def
  using find_row_key_unique [OF assms(1) _ assms(2)] by (intro map_cong) auto

lemma cas_put_row:
  assumes "distinct (map o_id rows)" "x \<in> set rows"
  shows "cas_rows o_id o_status (o_id x) (o_status x) f rows = put_row x (f x) rows"
  unfolding cas_rows_def put_row_def update_rows_def
  using find_row_key_unique [OF assms(1) _ assms(2)] by (intro map_cong) auto

lemma cas_match:
  assumes "cas_count o_id o_status i old rows = 1"
  obtains x where "x \<in> set rows" "o_id x = i" "o_status x = old"
proof -
  have "update_count (\<lambda>r. o_id r = i \<and> o_status r = old) rows \<noteq> 0"
    using assms by (simp add: cas_count_def)
  then show thesis using that by (auto simp: update_count_0)
qed

section \<open>History\<close>

lemma history_of_add:
  "history_of j (add_history now i from to a n s) =
   history_of j s @ (if i = j then [\<lparr>h_id = next_id s, h_order = i, h_from = from, h_to = to,
                                     h_actor = a, h_note = n, h_at = now\<rparr>] else [])"
  by (simp add: history_of_def add_history_def)

lemma history_valid_nonempty: "history_valid hs st \<Longrightarrow> hs \<noteq> []"
  by (auto simp: history_valid_def order_path_def)

lemma history_valid_snoc:
  assumes "history_valid hs st" "can_transition st (h_to h)" "h_from h = Some st"
  shows "history_valid (hs @ [h]) (h_to h)"
proof -
  have ne: "map h_to hs \<noteq> []" using history_valid_nonempty [OF assms(1)] by simp
  then have "Some (last (map h_to hs)) # [] = map Some [last (map h_to hs)]" by simp
  have "map Some (map h_to hs) = map Some (butlast (map h_to hs)) @ [Some (last (map h_to hs))]"
    using ne by (metis append_butlast_last_id list.simps(8,9) map_append)
  then show ?thesis
    using assms ne by (auto simp: history_valid_def order_path_snoc)
qed

lemma add_history_frame [simp, frame_simps]:
  "orders (add_history now i from to a n s) = orders s"
  "dispatches (add_history now i from to a n s) = dispatches s"
  "next_id (add_history now i from to a n s) = next_id s + 1"
  "masters (add_history now i from to a n s) = masters s"
  "payments (add_history now i from to a n s) = payments s"
  "media (add_history now i from to a n s) = media s"
  "categories (add_history now i from to a n s) = categories s"
  by (simp_all add: add_history_def)

section \<open>One write preserves each part\<close>

lemma keys_ok_put:
  assumes "keys_ok s" "x \<in> set (orders s)" "o_id y = o_id x"
    "orders t = put_row x y (orders s)" "dispatches t = dispatches s" "next_id s \<le> next_id t"
  shows "keys_ok t"
proof (rule keys_ok_cong [OF assms(1)])
  show "map o_id (orders t) = map o_id (orders s)"
    unfolding assms(4) by (rule ids_put_row [OF assms(3)])
  show "map d_id (dispatches t) = map d_id (dispatches s)" by (simp only: assms(5))
qed (rule assms(6))

lemma dispatches_ok_put:
  assumes "dispatches_ok s" "keys_ok s" "x \<in> set (orders s)" "o_id y = o_id x" "orders t = put_row x y (orders s)"
    "dispatches t = dispatches s" "\<not> no_master (o_status x) \<Longrightarrow> \<not> no_master (o_status y)"
    "\<not> no_master (o_status x) \<Longrightarrow> o_master y = o_master x"
  shows "dispatches_ok t"
proof -
  have "\<exists>z \<in> set (orders t). o_id z = d_order d \<and> o_master z = Some (d_master d) \<and> \<not> no_master (o_status z)"
    if d: "d \<in> set (dispatches s)" "d_status d = D_ACCEPTED" for d
  proof -
    obtain w where w: "w \<in> set (orders s)" "o_id w = d_order d" "o_master w = Some (d_master d)"
      "\<not> no_master (o_status w)"
      using assms(1) d by (auto simp: dispatches_ok_def)
    show ?thesis
      using w assms by (cases "w = x") (auto simp: set_put_row)
  qed
  then show ?thesis using assms by (auto simp: dispatches_ok_def)
qed

lemma histories_ok_same:
  assumes "histories_ok s" "x \<in> set (orders s)" "o_id y = o_id x" "o_status y = o_status x"
    "orders t = put_row x y (orders s)" "history t = history s"
  shows "histories_ok t"
proof -
  have "history_valid (history_of (o_id z) t) (o_status z)" if "z \<in> set (orders t)" for z
    using that assms by (auto simp: histories_ok_def history_of_def set_put_row)
  moreover have "\<forall>h \<in> set (history t). h_order h \<in> set (map o_id (orders t))"
    using assms(1) unfolding assms(5,6) ids_put_row [OF assms(3)] by (simp add: histories_ok_def)
  ultimately show ?thesis by (auto simp: histories_ok_def)
qed

lemma histories_ok_step:
  assumes "histories_ok s" "keys_ok s" "x \<in> set (orders s)" "o_id y = o_id x"
    "can_transition (o_status x) (o_status y)"
    "orders t = put_row x y (orders s)"
    "history t = history s @ [h]" "h_order h = o_id x" "h_from h = Some (o_status x)" "h_to h = o_status y"
  shows "histories_ok t"
proof -
  have ho: "history_of j t = history_of j s @ (if o_id x = j then [h] else [])" for j
    using assms by (simp add: history_of_def)
  have other: "o_id z \<noteq> o_id x" if "z \<in> set (orders s)" "z \<noteq> x" for z
    using that assms(2,3) find_row_key_unique [of o_id "orders s" z x] by (auto simp: keys_ok_def)
  have "history_valid (history_of (o_id z) t) (o_status z)" if z: "z \<in> set (orders t)" for z
  proof (cases "z = y")
    case True
    have "history_valid (history_of (o_id x) s) (o_status x)"
      using assms(1,3) by (simp add: histories_ok_def)
    then have "history_valid (history_of (o_id x) s @ [h]) (h_to h)"
      using assms by (intro history_valid_snoc) simp_all
    then show ?thesis using True assms by (simp add: ho)
  next
    case False
    then have "z \<in> set (orders s)" "z \<noteq> x" using z assms by (auto simp: set_put_row)
    then show ?thesis using assms(1) other [of z] by (auto simp: ho histories_ok_def)
  qed
  moreover have "\<forall>k \<in> set (history t). h_order k \<in> set (map o_id (orders t))"
    using assms(1,3) unfolding assms(6,7) ids_put_row [OF assms(4)]
    by (simp add: histories_ok_def assms(8))
  ultimately show ?thesis by (auto simp: histories_ok_def)
qed

lemma rows_ok_put:
  assumes "\<forall>r \<in> set (orders s). row_ok r" "x \<in> set (orders s)" "row_ok y"
    "orders t = put_row x y (orders s)"
  shows "\<forall>r \<in> set (orders t). row_ok r"
  using assms by (auto simp: set_put_row)

text \<open>A transition of one order, with its history row.\<close>

lemma order_inv_step:
  assumes "order_inv s" "x \<in> set (orders s)" "o_id y = o_id x"
    "can_transition (o_status x) (o_status y)" "row_ok y"
    "\<not> no_master (o_status x) \<Longrightarrow> \<not> no_master (o_status y) \<and> o_master y = o_master x"
    "orders t = put_row x y (orders s)" "dispatches t = dispatches s" "next_id s \<le> next_id t"
    "history t = history s @ [h]" "h_order h = o_id x" "h_from h = Some (o_status x)" "h_to h = o_status y"
  shows "order_inv t"
  using assms keys_ok_put [of s x y t] histories_ok_step [of s x y t h] rows_ok_put [of s x y t]
    dispatches_ok_put [of s x y t]
  by (auto simp: order_inv_def)

text \<open>An edit that keeps the status.\<close>

lemma order_inv_edit:
  assumes "order_inv s" "x \<in> set (orders s)" "o_id y = o_id x" "o_status y = o_status x"
    "o_master y = o_master x" "row_ok y"
    "orders t = put_row x y (orders s)" "dispatches t = dispatches s" "next_id s \<le> next_id t"
    "history t = history s"
  shows "order_inv t"
  using assms keys_ok_put [of s x y t] histories_ok_same [of s x y t] rows_ok_put [of s x y t]
    dispatches_ok_put [of s x y t]
  by (auto simp: order_inv_def)

text \<open>Changes elsewhere.\<close>

lemma order_inv_frame:
  assumes "order_inv s" "orders t = orders s" "history t = history s" "dispatches t = dispatches s"
    "next_id s \<le> next_id t"
  shows "order_inv t"
proof -
  have "keys_ok t" using assms by (intro keys_ok_cong [of s t]) (simp_all add: order_inv_def)
  moreover have "histories_ok t" "dispatches_ok t"
    using assms(1) by (simp_all add: order_inv_def histories_ok_def dispatches_ok_def history_of_def assms(2-4))
  ultimately show ?thesis using assms(1,2) by (simp add: order_inv_def)
qed

end
