(* ===== verification/OrderSystem.thy ===== *)
theory OrderSystem
  imports OrderInvariant
begin

text \<open>
  Orders and dispatches under concurrency.  A configuration is the state together with the order
  rows that requests have read so far; a step is one database write of a request (a transaction
  counts as one step), and a write may use any row read earlier.  The guarded writes
  (\<open>updateMany\<close> with the status read) are the step \<open>commit\<close>, for a snapshot of any age.
  The three methods that write with a plain \<open>update\<close> (\<open>updateDraft\<close>,
  \<open>diagnose\<close>, \<open>submit\<close>) take their row from \<open>snaps\<close>: the current rows when
  \<open>stale\<close> is false (nothing happens between their read and their write), any snapshot when it
  is true, which is what the code allows.

  The invariant is proved for the first system; the second one has a run that breaks it.
\<close>

section \<open>Steps\<close>

type_synonym config = "db \<times> order_row list"

definition snaps :: "bool \<Rightarrow> db \<Rightarrow> order_row list \<Rightarrow> order_row set" where
  "snaps stale s rs = (if stale then set rs else set (orders s))"

definition commit_allowed :: "order_row \<Rightarrow> order_commit \<Rightarrow> bool" where
  "commit_allowed x c =
     (can_transition (o_status x) (oc_to c) \<and>
      oc_to c \<in> {CANCELLED_BY_CUSTOMER, CANCELLED_BY_MASTER, EN_ROUTE, IN_PROGRESS, COMPLETED, CLOSED, EXPIRED} \<and>
      (if oc_to c = COMPLETED then (case oc_final c of None \<Rightarrow> False | Some a \<Rightarrow> price_check x a = None)
       else oc_final c = None))"

inductive sys_step :: "bool \<Rightarrow> config \<Rightarrow> config \<Rightarrow> bool" for stale where
  create: "create_draft now c cat d s = (r, t) \<Longrightarrow> sys_step stale (s, rs) (t, rs)"
| read: "find_order i s = Some x \<Longrightarrow> sys_step stale (s, rs) (s, x # rs)"
| edit: "x \<in> snaps stale s rs \<Longrightarrow> o_status x \<in> set editable_statuses \<Longrightarrow>
    sys_step stale (s, rs) (edit_commit now c x u s, rs)"
| diagnose: "x \<in> snaps stale s rs \<Longrightarrow> can_transition (o_status x) PRICED \<Longrightarrow>
    sys_step stale (s, rs) (diagnose_commit now c x k d (quote_of x cat d) s, rs)"
| submit: "x \<in> snaps stale s rs \<Longrightarrow> submit_check now x = None \<Longrightarrow>
    sys_step stale (s, rs) (submit_commit now c x s, rs)"
| commit: "x \<in> set rs \<Longrightarrow> commit_allowed x c \<Longrightarrow>
    transition now (o_id x) (o_status x) c a n s = (r, t) \<Longrightarrow> sys_step stale (s, rs) (t, rs)"
| accept: "find_dispatch did s = Some d \<Longrightarrow>
    transaction (accept_tx now did (d_master d) (d_order d)) s = (r, t) \<Longrightarrow> sys_step stale (s, rs) (t, rs)"
| offer: "d_status d = D_OFFERED \<Longrightarrow> d_id d = next_id s \<Longrightarrow> insert_offer d s = (r, t) \<Longrightarrow>
    sys_step stale (s, rs) (t, rs)"
| answer: "to \<in> {D_DECLINED, D_EXPIRED} \<Longrightarrow> answer_offer now did to s = (k, t) \<Longrightarrow>
    sys_step stale (s, rs) (t, rs)"
| other: "orders t = orders s \<Longrightarrow> history t = history s \<Longrightarrow> dispatches t = dispatches s \<Longrightarrow>
    next_id s \<le> next_id t \<Longrightarrow> sys_step stale (s, rs) (t, rs)"

definition no_orders :: "db \<Rightarrow> bool" where
  "no_orders s = (orders s = [] \<and> history s = [] \<and> dispatches s = [])"

definition reachable :: "bool \<Rightarrow> config \<Rightarrow> bool" where
  "reachable stale c = (\<exists>s0. no_orders s0 \<and> (sys_step stale)\<^sup>*\<^sup>* (s0, []) c)"

section \<open>Snapshots\<close>

text \<open>An order once submitted keeps its quote, so an old snapshot still shows the right prices.\<close>

definition snapshot_ok :: "order_row \<Rightarrow> db \<Rightarrow> bool" where
  "snapshot_ok x s =
     (\<exists>y \<in> set (orders s). o_id y = o_id x \<and>
        (before_search (o_status x) \<or>
         (\<not> before_search (o_status y) \<and> o_price_min y = o_price_min x \<and> o_price_max y = o_price_max x)))"

definition same_quote :: "order_row \<Rightarrow> order_row \<Rightarrow> bool" where
  "same_quote x y = (before_search (o_status x) \<or>
     (\<not> before_search (o_status y) \<and> o_price_min y = o_price_min x \<and> o_price_max y = o_price_max x))"

lemma snapshot_now: "x \<in> set (orders s) \<Longrightarrow> snapshot_ok x s"
  by (auto simp: snapshot_ok_def)

lemma snapshot_frame: "orders t = orders s \<Longrightarrow> snapshot_ok x s \<Longrightarrow> snapshot_ok x t"
  by (simp add: snapshot_ok_def)

lemma snapshot_put:
  assumes "snapshot_ok z s" "x \<in> set (orders s)" "o_id y = o_id x" "same_quote x y"
    "orders t = put_row x y (orders s)"
  shows "snapshot_ok z t"
proof -
  obtain w where w: "w \<in> set (orders s)" "o_id w = o_id z" "same_quote z w"
    using assms(1) by (auto simp: snapshot_ok_def same_quote_def)
  have set: "set (orders t) = insert y (set (orders s) - {x})"
    unfolding assms(5) by (rule set_put_row [OF assms(2)])
  show ?thesis
  proof (cases "w = x")
    case True
    then have "same_quote z y" using w(3) assms(4) by (auto simp: same_quote_def)
    then show ?thesis using True w assms(3) set by (auto simp: snapshot_ok_def same_quote_def)
  next
    case False
    then show ?thesis using w set by (auto simp: snapshot_ok_def same_quote_def)
  qed
qed

definition sys_inv :: "config \<Rightarrow> bool" where
  "sys_inv c = (order_inv (fst c) \<and> (\<forall>x \<in> set (snd c). snapshot_ok x (fst c)))"

lemma sys_inv_put:
  assumes "sys_inv (s, rs)" "order_inv t" "x \<in> set (orders s)" "o_id y = o_id x" "same_quote x y"
    "orders t = put_row x y (orders s)"
  shows "sys_inv (t, rs)"
  using assms snapshot_put [OF _ assms(3-6)] by (auto simp: sys_inv_def)

section \<open>Rows after a write\<close>

lemma row_ok_no_master:
  "row_ok x \<Longrightarrow> o_status x \<in> {DRAFT, PRICED, SEARCHING} \<Longrightarrow> o_master x = None"
  by (auto simp: row_ok_def no_master_def)

lemma row_ok_quote: "row_ok x \<Longrightarrow> needs_quote (o_status x) \<Longrightarrow> quote_ok x"
  by (simp add: row_ok_def)

lemma row_ok_final: "row_ok x \<Longrightarrow> o_status x = COMPLETED \<Longrightarrow> final_ok x"
  by (simp add: row_ok_def)

lemma row_ok_fee: "row_ok x \<Longrightarrow> 0 \<le> o_fee x \<and> o_fee x \<le> 30000"
  by (simp add: row_ok_def)

text \<open>Before a master is found, a row only needs its fee, its quote once priced, and no master.\<close>

lemma row_ok_early:
  assumes "o_status y \<in> {DRAFT, PRICED, SEARCHING}" "o_master y = None" "0 \<le> o_fee y \<and> o_fee y \<le> 30000"
    "o_status y \<noteq> DRAFT \<Longrightarrow> quote_ok y"
  shows "row_ok y"
proof -
  have "o_status y \<noteq> COMPLETED" "o_status y \<noteq> CLOSED" "\<not> has_master (o_status y)"
    using assms(1) by (auto simp: has_master_def)
  then show ?thesis using assms(2-4) unfolding row_ok_def needs_quote_def by blast
qed

lemma quote_ok_priced: "quote_ok (priced_row k d (quote_of x cat d) r)"
  using quote_bounds(1,2) [where fl = fl64 and bmin = "c_base_min cat" and bmax = "c_base_max cat"
      and cx = "ai_complexity d" and tier = "o_tier x"]
  by (simp add: quote_ok_def priced_row_def quote_of_def compute_quote_def)

lemma row_ok_priced:
  assumes "row_ok x" "can_transition (o_status x) PRICED"
  shows "row_ok (priced_row k d (quote_of x cat d) x)"
proof (rule row_ok_early)
  show "o_master (priced_row k d (quote_of x cat d) x) = None"
    using assms row_ok_no_master [of x] by (auto simp: priced_row_def)
  show "0 \<le> o_fee (priced_row k d (quote_of x cat d) x) \<and> o_fee (priced_row k d (quote_of x cat d) x) \<le> 30000"
    using quote_bounds(5,6) [where fl = fl64 and bmin = "c_base_min cat" and bmax = "c_base_max cat"
        and cx = "ai_complexity d" and tier = "o_tier x"]
    by (simp add: priced_row_def quote_of_def compute_quote_def)
  show "quote_ok (priced_row k d (quote_of x cat d) x)" by (rule quote_ok_priced)
qed (simp add: priced_row_def)

lemma row_ok_submit:
  assumes "row_ok x" "o_status x = PRICED"
  shows "row_ok (submit_row now tier x)"
proof (rule row_ok_early)
  show "o_master (submit_row now tier x) = None"
    using row_ok_no_master [OF assms(1)] assms(2) by (simp add: submit_row_def)
  show "quote_ok (submit_row now tier x)"
    using row_ok_quote [OF assms(1)] assms(2) by (simp add: submit_row_def quote_ok_def needs_quote_def)
qed (use row_ok_fee [OF assms(1)] in \<open>simp_all add: submit_row_def\<close>)

lemma row_ok_edit:
  assumes "row_ok x" "o_status x \<in> set editable_statuses"
  shows "row_ok (edit_row u x)" "row_ok (unquote_row (edit_row u x))"
proof -
  have st: "o_status x \<in> {DRAFT, PRICED, SEARCHING}"
    using assms(2) by (auto simp: editable_statuses_def)
  have m: "o_master x = None" by (rule row_ok_no_master [OF assms(1) st])
  have q: "o_status x \<noteq> DRAFT \<Longrightarrow> quote_ok x"
    using row_ok_quote [OF assms(1)] st by (auto simp: needs_quote_def)
  show "row_ok (edit_row u x)"
    using st m q row_ok_fee [OF assms(1)]
    by (intro row_ok_early) (simp_all add: edit_row_def quote_ok_def)
  show "row_ok (unquote_row (edit_row u x))"
    using m row_ok_fee [OF assms(1)]
    by (intro row_ok_early) (simp_all add: edit_row_def unquote_row_def)
qed

text \<open>The guarded transitions: what the old status gives the new one.\<close>

lemma commit_targets:
  assumes "commit_allowed x c"
  shows "(needs_quote (oc_to c) \<longrightarrow> needs_quote (o_status x)) \<and>
    (has_master (oc_to c) \<longrightarrow> has_master (o_status x)) \<and>
    (no_master (oc_to c) \<longrightarrow> no_master (o_status x)) \<and>
    (\<not> no_master (o_status x) \<longrightarrow> \<not> no_master (oc_to c)) \<and>
    \<not> before_search (oc_to c)"
proof -
  have "can_transition (o_status x) (oc_to c)" and
    "oc_to c \<in> {CANCELLED_BY_CUSTOMER, CANCELLED_BY_MASTER, EN_ROUTE, IN_PROGRESS, COMPLETED, CLOSED, EXPIRED}"
    using assms by (simp_all add: commit_allowed_def)
  then show ?thesis
    by (cases "oc_to c") (auto simp: needs_quote_def has_master_def no_master_def before_search_def)
qed

lemma row_ok_commit:
  assumes "row_ok z" "commit_allowed x c" "o_status z = o_status x" "same_quote x z"
  shows "row_ok (apply_commit c z)"
proof -
  have t: "can_transition (o_status z) (oc_to c)" using assms(2,3) by (simp add: commit_allowed_def)
  have q: "needs_quote (oc_to c) \<Longrightarrow> quote_ok (apply_commit c z)"
    using commit_targets [OF assms(2)] row_ok_quote [OF assms(1)] assms(3) by (simp add: quote_ok_def)
  have completed: "final_ok (apply_commit c z)" if to: "oc_to c = COMPLETED"
  proof -
    have st: "o_status z = IN_PROGRESS" using t to by simp
    then obtain lo hi where p: "o_price_min z = Some lo" "o_price_max z = Some hi"
      using row_ok_quote [OF assms(1)] by (auto simp: needs_quote_def quote_ok_def)
    then have px: "o_price_min x = Some lo" "o_price_max x = Some hi"
      using assms(3,4) st by (auto simp: same_quote_def before_search_def)
    obtain a where a: "oc_final c = Some a" "price_check x a = None"
      using assms(2) to by (auto simp: commit_allowed_def split: option.splits)
    then show ?thesis using p px by (auto simp: price_check_def final_ok_def apply_commit_def split: if_splits)
  qed
  have closed: "final_ok (apply_commit c z)" if to: "oc_to c = CLOSED"
  proof -
    have "o_status z = COMPLETED" "oc_final c = None" using t to assms(2) by (auto simp: commit_allowed_def)
    then show ?thesis using row_ok_final [OF assms(1)] by (simp add: final_ok_def apply_commit_def)
  qed
  have "has_master (oc_to c) \<Longrightarrow> o_master z \<noteq> None" "no_master (oc_to c) \<Longrightarrow> o_master z = None"
    using commit_targets [OF assms(2)] assms(1,3) by (simp_all add: row_ok_def)
  then show ?thesis
    using q completed closed row_ok_fee [OF assms(1)]
    unfolding row_ok_def [of "apply_commit c z"] apply_commit_simps by blast
qed

section \<open>Every step keeps the invariant\<close>

lemma inv_keys: "order_inv s \<Longrightarrow> distinct (map o_id (orders s))"
  by (simp add: order_inv_def keys_ok_def)

lemma inv_row: "order_inv s \<Longrightarrow> x \<in> set (orders s) \<Longrightarrow> row_ok x"
  by (simp add: order_inv_def)

lemma same_quote_early: "before_search (o_status x) \<Longrightarrow> same_quote x y"
  by (simp add: same_quote_def)

lemma early_transition:
  assumes "sys_inv (s, rs)" "x \<in> set (orders s)" "before_search (o_status x)"
    "o_id y = o_id x" "row_ok y" "can_transition (o_status x) (o_status y)"
    "orders t = put_row x y (orders s)" "dispatches t = dispatches s" "next_id s \<le> next_id t"
    "history t = history s @ [h]" "h_order h = o_id x" "h_from h = Some (o_status x)" "h_to h = o_status y"
  shows "sys_inv (t, rs)"
proof -
  have i: "order_inv s" using assms(1) by (simp add: sys_inv_def)
  have n: "no_master (o_status x)" using assms(3) by (auto simp: before_search_def no_master_def)
  have "order_inv t"
    by (rule order_inv_step [OF i assms(2,4,6,5) _ assms(7-13)]) (use n in simp)
  then show ?thesis
    using sys_inv_put [OF assms(1) _ assms(2,4) same_quote_early [OF assms(3)] assms(7)] by simp
qed

lemma step_diagnose:
  assumes "sys_inv (s, rs)" "x \<in> set (orders s)" "can_transition (o_status x) PRICED"
  shows "sys_inv (diagnose_commit now c x k d (quote_of x cat d) s, rs)"
proof -
  have i: "order_inv s" using assms(1) by (simp add: sys_inv_def)
  let ?y = "priced_row k d (quote_of x cat d) x"
  let ?t = "diagnose_commit now c x k d (quote_of x cat d) s"
  have o: "orders ?t = put_row x ?y (orders s)"
    using update_by_id_put_row [OF inv_keys [OF i] assms(2)] by (simp add: diagnose_commit_def)
  show ?thesis
    by (rule early_transition [OF assms(1,2) _ _ row_ok_priced [OF inv_row [OF i assms(2)] assms(3)] _ o])
      (use assms(3) in \<open>auto simp: diagnose_commit_def add_history_def priced_row_def before_search_def\<close>)
qed

lemma step_submit:
  assumes "sys_inv (s, rs)" "x \<in> set (orders s)" "submit_check now x = None"
  shows "sys_inv (submit_commit now c x s, rs)"
proof -
  have i: "order_inv s" using assms(1) by (simp add: sys_inv_def)
  have st: "o_status x = PRICED" using assms(3) by (auto simp: submit_check_def split: if_splits)
  let ?y = "submit_row now (o_tier x) x"
  let ?t = "submit_commit now c x s"
  have o: "orders ?t = put_row x ?y (orders s)"
    using update_by_id_put_row [OF inv_keys [OF i] assms(2)] by (simp add: submit_commit_def)
  show ?thesis
    by (rule early_transition [OF assms(1,2) _ _ row_ok_submit [OF inv_row [OF i assms(2)] st] _ o])
      (use st in \<open>auto simp: submit_commit_def add_history_def submit_row_def before_search_def\<close>)
qed

lemma step_edit:
  assumes "sys_inv (s, rs)" "x \<in> set (orders s)" "o_status x \<in> set editable_statuses"
  shows "sys_inv (edit_commit now c x u s, rs)"
proof -
  have i: "order_inv s" using assms(1) by (simp add: sys_inv_def)
  have b: "before_search (o_status x)" using assms(3) by (auto simp: before_search_def editable_statuses_def)
  note put = update_by_id_put_row [OF inv_keys [OF i] assms(2)]
  note rows = row_ok_edit [OF inv_row [OF i assms(2)] assms(3), of u]
  show ?thesis
  proof (cases "invalidates_quote x u")
    case True
    then have st: "o_status x = PRICED" by (simp add: invalidates_quote_def)
    have o: "orders (edit_commit now c x u s) = put_row x (unquote_row (edit_row u x)) (orders s)"
      using put [of "\<lambda>r. unquote_row (edit_row u r)"] True by (simp add: edit_commit_def)
    show ?thesis
      by (rule early_transition [OF assms(1,2) b _ rows(2) _ o])
        (use True st in \<open>auto simp: edit_commit_def add_history_def unquote_row_def edit_row_def\<close>)
  next
    case False
    have o: "orders (edit_commit now c x u s) = put_row x (edit_row u x) (orders s)"
      using put [of "edit_row u"] False by (simp add: edit_commit_def)
    have id: "o_id (edit_row u x) = o_id x" by (simp add: edit_row_def)
    have "order_inv (edit_commit now c x u s)"
      by (rule order_inv_edit [OF i assms(2) id _ _ rows(1) o])
        (use False in \<open>simp_all add: edit_commit_def edit_row_def\<close>)
    then show ?thesis by (rule sys_inv_put [OF assms(1) _ assms(2) id same_quote_early [OF b] o])
  qed
qed

lemma same_quote_trans_id: "o_id y = o_id z \<Longrightarrow> o_id z = o_id x \<Longrightarrow> o_id y = o_id x"
  by simp

lemma same_quote_commit:
  assumes "commit_allowed x c" "o_status z = o_status x"
  shows "same_quote z (apply_commit c z)"
  using commit_targets [OF assms(1)] by (simp add: same_quote_def)

lemma step_commit:
  assumes "sys_inv (s, rs)" "x \<in> set rs" "commit_allowed x c"
    "transition now (o_id x) (o_status x) c a n s = (r, t)"
  shows "sys_inv (t, rs)"
  using transition_cases [OF assms(4)]
proof (elim disjE conjE)
  assume "t = s"
  then show ?thesis using assms(1) by simp
next
  assume cnt: "cas_count o_id o_status (o_id x) (o_status x) (orders s) = 1"
    and t: "t = add_history now (o_id x) (Some (o_status x)) (oc_to c) a n
          (s\<lparr>orders := cas_rows o_id o_status (o_id x) (o_status x) (apply_commit c) (orders s)\<rparr>)"
  have i: "order_inv s" using assms(1) by (simp add: sys_inv_def)
  obtain z where z: "z \<in> set (orders s)" "o_id z = o_id x" "o_status z = o_status x"
    using cnt by (rule cas_match)
  obtain w where w: "w \<in> set (orders s)" "o_id w = o_id x" "same_quote x w"
    using assms(1,2) by (auto simp: sys_inv_def snapshot_ok_def same_quote_def)
  have "w = z" using find_row_key_unique [OF inv_keys [OF i] w(1) z(1)] w(2) z(2) by simp
  then have sq: "same_quote x z" using w by simp
  have o: "orders t = put_row z (apply_commit c z) (orders s)"
    using cas_put_row [OF inv_keys [OF i] z(1), of "apply_commit c"] by (simp add: t z)
  have ok: "row_ok (apply_commit c z)"
    by (rule row_ok_commit [OF inv_row [OF i z(1)] assms(3) z(3) sq])
  have tr: "can_transition (o_status z) (o_status (apply_commit c z))"
    using assms(3) z(3) by (simp add: commit_allowed_def)
  have "order_inv t"
    by (rule order_inv_step [OF i z(1) _ tr ok _ o])
      (use commit_targets [OF assms(3)] z in \<open>(simp add: t add_history_def)+\<close>)
  then show ?thesis
    by (rule sys_inv_put [OF assms(1) _ z(1) _ same_quote_commit [OF assms(3) z(3)] o]) simp
qed

lemma step_create:
  assumes "sys_inv (s, rs)" "create_draft now c cat d s = (r, t)"
  shows "sys_inv (t, rs)"
proof (cases "r")
  case (Inl e)
  then have "t = s" using assms(2) by (auto simp: create_draft_def check_eq Let_def)
  then show ?thesis using assms(1) by simp
next
  case (Inr i)
  have inv: "order_inv s" using assms(1) by (simp add: sys_inv_def)
  obtain x h where x: "orders t = orders s @ [x]" "o_id x = next_id s" "o_status x = DRAFT"
    "o_master x = None" "o_fee x = 0" and h: "history t = history s @ [h]" "h_order h = next_id s"
    "h_from h = None" "h_to h = DRAFT" and d: "dispatches t = dispatches s" "next_id t = next_id s + 2"
    using assms(2) Inr by (auto simp: create_draft_def check_eq Let_def add_history_def)
  have fresh: "next_id s \<notin> set (map o_id (orders s))" using inv by (auto simp: order_inv_def keys_ok_def)
  have ho: "history_of j t = history_of j s @ (if next_id s = j then [h] else [])" for j
    using h by (simp add: history_of_def)
  have "\<forall>k \<in> set (history s). h_order k \<in> set (map o_id (orders s))"
    using inv by (simp add: order_inv_def histories_ok_def)
  then have "\<forall>k \<in> set (history s). h_order k \<noteq> next_id s" using fresh by metis
  then have none: "history_of (next_id s) s = []" by (simp add: history_of_def filter_empty_conv)
  have "keys_ok t" using inv fresh x d by (auto simp: order_inv_def keys_ok_def less_Suc_eq)
  moreover have "histories_ok t"
    unfolding histories_ok_def
  proof
    show "\<forall>y \<in> set (orders t). history_valid (history_of (o_id y) t) (o_status y)"
    proof
      fix y assume "y \<in> set (orders t)"
      then have "y = x \<or> y \<in> set (orders s) \<and> o_id y \<noteq> next_id s"
        using x(1) fresh by (auto simp: rev_image_eqI)
      then consider "y = x" | "y \<in> set (orders s)" "o_id y \<noteq> next_id s" by blast
      then show "history_valid (history_of (o_id y) t) (o_status y)"
        using inv by cases (simp_all add: ho none x h history_valid_def order_inv_def histories_ok_def)
    qed
    show "\<forall>k \<in> set (history t). h_order k \<in> set (map o_id (orders t))"
      using inv x h by (auto simp: order_inv_def histories_ok_def)
  qed
  moreover have "row_ok x" using x by (intro row_ok_early) simp_all
  moreover have "dispatches_ok t" using inv x(1) d(1) by (fastforce simp: order_inv_def dispatches_ok_def)
  ultimately have "order_inv t" using inv x(1) by (auto simp: order_inv_def)
  then show ?thesis using assms(1) x(1) by (fastforce simp: sys_inv_def snapshot_ok_def)
qed

lemma dispatches_only:
  assumes "sys_inv (s, rs)" "orders t = orders s" "history t = history s" "next_id s \<le> next_id t"
    "distinct (map d_id (dispatches t))" "\<forall>i \<in> set (map d_id (dispatches t)). i < next_id t" "dispatches_ok t"
  shows "sys_inv (t, rs)"
proof -
  have "keys_ok t"
    using assms(1,2,4-6) by (auto simp: sys_inv_def order_inv_def keys_ok_def intro: less_le_trans)
  moreover have "histories_ok t"
    using assms(1) by (simp add: sys_inv_def order_inv_def histories_ok_def history_of_def assms(2,3))
  ultimately show ?thesis using assms(1,2,7) by (simp add: sys_inv_def order_inv_def snapshot_ok_def)
qed

lemma step_offer:
  assumes "sys_inv (s, rs)" "d_status d = D_OFFERED" "d_id d = next_id s" "insert_offer d s = (r, t)"
  shows "sys_inv (t, rs)"
proof (cases "t = s")
  case False
  then have t: "t = s\<lparr>dispatches := dispatches s @ [d], next_id := next_id s + 1\<rparr>"
    and new: "\<forall>e \<in> set (dispatches s). \<not> (d_order e = d_order d \<and> d_master e = d_master d)"
    using assms(4) by (auto simp: insert_offer_def split: if_splits)
  have k: "distinct (map d_id (dispatches s))" "\<forall>i \<in> set (map d_id (dispatches s)). i < next_id s"
    and p: "distinct (map (\<lambda>d. (d_order d, d_master d)) (dispatches s))"
    using assms(1) by (simp_all add: sys_inv_def order_inv_def keys_ok_def dispatches_ok_def)
  have "dispatches_ok t"
    using assms(1,2) new p by (auto simp: t sys_inv_def order_inv_def dispatches_ok_def)
  then show ?thesis
    by (rule dispatches_only [OF assms(1), rotated -1]) (use k assms(3) in \<open>auto simp: t less_Suc_eq\<close>)
qed (use assms in simp)

text \<open>Rewriting dispatch rows without touching their keys, and without new acceptances.\<close>

lemma dispatches_rewrite:
  assumes "dispatches_ok s" "orders t = orders s" "dispatches t = map f (dispatches s)"
    "\<And>d. d_order (f d) = d_order d \<and> d_master (f d) = d_master d"
    "\<And>d. d_status (f d) = D_ACCEPTED \<Longrightarrow> d_status d = D_ACCEPTED"
  shows "dispatches_ok t"
proof -
  have "map (\<lambda>d. (d_order d, d_master d)) (dispatches t) = map (\<lambda>d. (d_order d, d_master d)) (dispatches s)"
    unfolding assms(3) map_map comp_def by (simp add: assms(4))
  moreover have "\<exists>x \<in> set (orders t). o_id x = d_order (f d) \<and> o_master x = Some (d_master (f d))
        \<and> \<not> no_master (o_status x)"
    if "d \<in> set (dispatches s)" "d_status (f d) = D_ACCEPTED" for d
    using assms(1,2) that assms(4,5) [of d] by (simp add: dispatches_ok_def)
  ultimately show ?thesis using assms(1,3) by (simp add: dispatches_ok_def comp_def assms(4))
qed

lemma step_answer:
  assumes "sys_inv (s, rs)" "to \<in> {D_DECLINED, D_EXPIRED}" "answer_offer now did to s = (k, t)"
  shows "sys_inv (t, rs)"
proof -
  let ?a = "apply_answer \<lparr>oa_status = to, oa_at = now\<rparr>"
  let ?f = "\<lambda>d. if d_id d = did \<and> d_status d = D_OFFERED then ?a d else d"
  have t: "t = s\<lparr>dispatches := map ?f (dispatches s)\<rparr>"
    using assms(3) by (auto simp: answer_offer_def cas_rows_def update_rows_def)
  have ids: "map d_id (dispatches t) = map d_id (dispatches s)"
    by (simp add: t apply_answer_def)
  have "dispatches_ok t"
    by (rule dispatches_rewrite [of s t ?f])
      (use assms in \<open>auto simp: t sys_inv_def order_inv_def apply_answer_def split: if_splits\<close>)
  then show ?thesis
    by (rule dispatches_only [OF assms(1), rotated -1])
      (use assms(1) in \<open>simp_all add: ids sys_inv_def order_inv_def keys_ok_def\<close>, simp_all add: t)
qed

definition assigned_row :: "id \<Rightarrow> order_row \<Rightarrow> order_row" where
  "assigned_row m r = r\<lparr>o_status := ASSIGNED, o_master := Some m\<rparr>"

lemma row_ok_assigned:
  assumes "row_ok x" "o_status x = SEARCHING"
  shows "row_ok (assigned_row m x)"
proof -
  have "o_status (assigned_row m x) = ASSIGNED" "o_master (assigned_row m x) = Some m"
    "o_fee (assigned_row m x) = o_fee x" by (simp_all add: assigned_row_def)
  moreover have "quote_ok (assigned_row m x)"
    using row_ok_quote [OF assms(1)] assms(2) by (simp add: assigned_row_def quote_ok_def needs_quote_def)
  ultimately show ?thesis
    using row_ok_fee [OF assms(1)] unfolding row_ok_def by (simp add: no_master_def)
qed

lemma accept_tx_cases:
  assumes "accept_tx now did m i s = (Inr r, t)"
  obtains x fresh h where "find_order i s = Some x" "o_status x = SEARCHING"
    "find_dispatch did s = Some fresh" "d_status fresh = D_OFFERED" "\<not> d_expires fresh < now"
    "orders t = update_rows (\<lambda>r. o_id r = i) (assigned_row m) (orders s)"
    "dispatches t = accept_rows now did i (dispatches s)"
    "history t = history s @ [h]" "h_order h = i" "h_from h = Some SEARCHING" "h_to h = ASSIGNED"
    "next_id t = next_id s + 2" "fst r = o_customer x"
  using assms
  by (auto simp: accept_tx_def Let_def add_history_def create_record_def assigned_row_def [abs_def]
      split: option.splits if_splits)

lemma accept_rows_map:
  "accept_rows now did i rows = map (\<lambda>d.
     if d_id d = did then d\<lparr>d_status := D_ACCEPTED, d_lead := True, d_responded := Some now\<rparr>
     else if d_order d = i \<and> d_status d = D_OFFERED
          then d\<lparr>d_status := D_WITHDRAWN, d_responded := Some now\<rparr> else d) rows"
  by (auto simp: accept_rows_def update_rows_def)

lemma step_accept:
  assumes "sys_inv (s, rs)" "find_dispatch did s = Some d"
    "transaction (accept_tx now did (d_master d) (d_order d)) s = (r, t)"
  shows "sys_inv (t, rs)"
proof (cases r)
  case (Inl e)
  have "t = s" by (rule transaction_Inl [OF assms(3) [unfolded Inl]])
  then show ?thesis using assms(1) by simp
next
  case (Inr v)
  have i: "order_inv s" using assms(1) by (simp add: sys_inv_def)
  have acc: "accept_tx now did (d_master d) (d_order d) s = (Inr v, t)"
    using assms(3) Inr by (simp add: transaction_Inr)
  obtain x fresh h where x: "find_order (d_order d) s = Some x" "o_status x = SEARCHING"
    and f: "find_dispatch did s = Some fresh" "d_status fresh = D_OFFERED" "\<not> d_expires fresh < now"
    and o: "orders t = update_rows (\<lambda>r. o_id r = d_order d) (assigned_row (d_master d)) (orders s)"
    and dt: "dispatches t = accept_rows now did (d_order d) (dispatches s)"
    and h: "history t = history s @ [h]" "h_order h = d_order d" "h_from h = Some SEARCHING" "h_to h = ASSIGNED"
    and n: "next_id t = next_id s + 2" and c: "fst v = o_customer x"
    by (rule accept_tx_cases [OF acc])
  have x': "x \<in> set (orders s)" "o_id x = d_order d" using find_order_id [OF x(1)] by auto
  let ?y = "assigned_row (d_master d) x"
  have y: "o_id ?y = o_id x" "o_status ?y = ASSIGNED" "o_master ?y = Some (d_master d)"
    by (simp_all add: assigned_row_def)
  have put: "orders t = put_row x ?y (orders s)"
    using update_by_id_put_row [OF inv_keys [OF i] x'(1)] x'(2) o by simp
  let ?s = "t\<lparr>dispatches := dispatches s\<rparr>"
  have s1: "order_inv ?s"
    by (rule order_inv_step [OF i x'(1) y(1) _ row_ok_assigned [OF inv_row [OF i x'(1)] x(2)]])
      (use x x' y h n put in \<open>simp_all add: no_master_def\<close>)
  have d: "d \<in> set (dispatches s)" "d_id d = did" using find_dispatch_id [OF assms(2)] by auto
  have kd: "distinct (map d_id (dispatches s))" using i by (simp add: order_inv_def keys_ok_def)
  have "\<exists>z \<in> set (orders t). o_id z = d_order e \<and> o_master z = Some (d_master e) \<and> \<not> no_master (o_status z)"
    if e: "e \<in> set (dispatches t)" "d_status e = D_ACCEPTED" for e
  proof -
    obtain e0 where e0: "e0 \<in> set (dispatches s)" "d_order e = d_order e0" "d_master e = d_master e0"
      "d_id e0 = did \<or> d_status e0 = D_ACCEPTED"
      using e by (auto simp: dt accept_rows_map split: if_splits)
    show ?thesis
    proof (cases "d_id e0 = did")
      case True
      then have "e0 = d" using find_row_key_unique [OF kd e0(1) d(1)] d(2) by simp
      moreover have "?y \<in> set (orders t)" unfolding put by (simp add: set_put_row [OF x'(1)])
      ultimately show ?thesis using e0 y x'(2) by (intro bexI [of _ ?y]) (simp_all add: no_master_def)
    next
      case False
      then show ?thesis using s1 e0 by (auto simp: order_inv_def dispatches_ok_def)
    qed
  qed
  moreover have "map (\<lambda>d. (d_order d, d_master d)) (dispatches t) = map (\<lambda>d. (d_order d, d_master d)) (dispatches s)"
    by (auto simp: dt accept_rows_map)
  ultimately have "dispatches_ok t"
    using i by (simp add: order_inv_def dispatches_ok_def)
  moreover have "map d_id (dispatches t) = map d_id (dispatches s)"
    by (auto simp: dt accept_rows_map)
  ultimately have "order_inv t"
    using s1 keys_ok_cong [of ?s t]
    by (simp add: order_inv_def histories_ok_def history_of_def)
  then show ?thesis
    by (rule sys_inv_put [OF assms(1) _ x'(1) y(1) _ put]) (simp add: same_quote_def before_search_def x(2) y assigned_row_def)
qed

theorem sys_step_inv:
  assumes "sys_step False c c'" "sys_inv c"
  shows "sys_inv c'"
  using assms
proof (cases rule: sys_step.cases)
  case (read i s x rs)
  then show ?thesis
    using assms(2) find_order_id [of i s x] snapshot_now [of x s] by (simp add: sys_inv_def)
next
  case (other t s rs)
  then show ?thesis
    using assms(2) order_inv_frame [of s t] snapshot_frame [of t s] by (auto simp: sys_inv_def)
qed (use assms(2) in \<open>auto simp: snaps_def intro: step_create step_edit step_diagnose step_submit
      step_commit step_accept step_offer step_answer\<close>)

lemma sys_inv_init: "no_orders s \<Longrightarrow> sys_inv (s, [])"
  by (simp add: no_orders_def sys_inv_def order_inv_def keys_ok_def histories_ok_def dispatches_ok_def)

lemma reachable_inv: "reachable False c \<Longrightarrow> sys_inv c"
proof -
  assume "reachable False c"
  then obtain s0 where s0: "no_orders s0" "(sys_step False)\<^sup>*\<^sup>* (s0, []) c" by (auto simp: reachable_def)
  from s0(2) show ?thesis
    by (induction rule: rtranclp_induct) (auto intro: sys_inv_init s0(1) sys_step_inv)
qed

lemma reachable_order_inv: "reachable False (s, rs) \<Longrightarrow> order_inv s"
  using reachable_inv [of "(s, rs)"] by (simp add: sys_inv_def)

section \<open>Consequences of the invariant\<close>

lemma one_accepted:
  assumes "dispatches_ok s" "keys_ok s" "d \<in> set (dispatches s)" "e \<in> set (dispatches s)"
    "d_status d = D_ACCEPTED" "d_status e = D_ACCEPTED" "d_order d = d_order e"
  shows "d = e"
proof -
  obtain x y where x: "x \<in> set (orders s)" "o_id x = d_order d" "o_master x = Some (d_master d)"
    and y: "y \<in> set (orders s)" "o_id y = d_order e" "o_master y = Some (d_master e)"
    using assms unfolding dispatches_ok_def by meson
  have "x = y" using find_row_key_unique [of o_id, OF _ x(1) y(1)] assms(2,7) x(2) y(2) by (simp add: keys_ok_def)
  then have "d_master d = d_master e" using x y by simp
  moreover have "distinct (map (\<lambda>d. (d_order d, d_master d)) (dispatches s))"
    using assms(1) by (simp add: dispatches_ok_def)
  ultimately show ?thesis
    using find_row_key_unique [OF _ assms(3,4), of "\<lambda>d. (d_order d, d_master d)"] assms(7) by simp
qed

end
