(* ===== verification/OrderService.thy ===== *)
theory OrderService
  imports OrderSystem
begin

text \<open>
  The methods of the order and dispatch services are runs of the step system: each is a read
  followed by its commits, so whatever holds in the reachable configurations of
  \<open>OrderSystem\<close> holds between any requests.  \<open>request\<close> names the endpoints and
  \<open>serve\<close> runs one; its refinement lemma is \<open>serve_runs\<close>.
\<close>

section \<open>Runs\<close>

definition runs :: "db \<Rightarrow> db \<Rightarrow> bool" where
  "runs s t = (\<forall>rs. \<exists>rs'. (sys_step False)\<^sup>*\<^sup>* (s, rs) (t, rs'))"

lemma runs_refl [simp]: "runs s s"
  by (auto simp: runs_def)

lemma runs_trans: "runs s t \<Longrightarrow> runs t u \<Longrightarrow> runs s u"
  unfolding runs_def by (meson rtranclp_trans)

lemma runs_step: "(\<And>rs. sys_step False (s, rs) (t, rs)) \<Longrightarrow> runs s t"
  unfolding runs_def by blast

lemma runs_other:
  "orders t = orders s \<Longrightarrow> history t = history s \<Longrightarrow> dispatches t = dispatches s \<Longrightarrow>
   next_id s \<le> next_id t \<Longrightarrow> runs s t"
  by (rule runs_step) (rule sys_step.other)

lemma reachable_runs: "reachable False (s, rs) \<Longrightarrow> runs s t \<Longrightarrow> \<exists>rs'. reachable False (t, rs')"
  unfolding reachable_def runs_def by (meson rtranclp_trans)

lemma runs_commit:
  assumes "find_order i s = Some x" "commit_allowed x c" "transition now i (o_status x) c a n s = (r, t)"
  shows "runs s t"
  unfolding runs_def
proof
  fix rs
  have id: "o_id x = i" using find_order_id [OF assms(1)] by simp
  have "sys_step False (s, rs) (s, x # rs)" using assms(1) by (rule sys_step.read)
  moreover have "sys_step False (s, x # rs) (t, x # rs)"
    by (rule sys_step.commit [OF _ assms(2), where now = now and a = a and n = n and r = r])
      (use assms(3) id in simp_all)
  ultimately show "\<exists>rs'. (sys_step False)\<^sup>*\<^sup>* (s, rs) (t, rs')" by (meson converse_rtranclp_into_rtranclp rtranclp.rtrancl_refl)
qed

section \<open>The notification and penalty tails\<close>

lemma runs_notify: "runs s (notify now u ty d s)"
  by (rule runs_other) simp_all

lemma runs_emit: "runs s (emit_to_user u e s)"
  by (rule runs_other) simp_all

lemma runs_recompute: "recompute_trust_tier now m s = (r, t) \<Longrightarrow> runs s t"
  by (rule runs_other) (simp_all add: recompute_frame)

lemma record_event_next_id: "record_event now m ev ord n s = (r, t) \<Longrightarrow> next_id s \<le> next_id t"
  by (auto simp: record_event_def Let_def and_then_eq dest: recompute_frame(8))

lemma runs_record_event: "record_event now m ev ord n s = (r, t) \<Longrightarrow> runs s t"
  by (rule runs_other) (simp_all add: record_event_frame record_event_next_id)

section \<open>Dispatch\<close>

lemma runs_inv:
  assumes "runs s t" "order_inv s"
  shows "order_inv t"
proof -
  obtain rs where "(sys_step False)\<^sup>*\<^sup>* (s, []) (t, rs)" using assms(1) by (auto simp: runs_def)
  moreover have "sys_inv (s, [])" using assms(2) by (simp add: sys_inv_def)
  ultimately have "sys_inv (t, rs)"
    by (induction rule: rtranclp_induct) (auto intro: sys_step_inv)
  then show ?thesis by (simp add: sys_inv_def)
qed

lemma cas_count_le_1: "order_inv s \<Longrightarrow> cas_count o_id o_status i old (orders s) \<le> 1"
  unfolding cas_count_def by (rule update_count_key_le_1) (rule inv_keys)

lemma runs_fail_search:
  assumes "order_inv s" "fail_search now i reason s = (r, t)"
  shows "runs s t"
proof (cases "find_order i s")
  case None
  then show ?thesis using assms by (simp add: fail_search_def)
next
  case (Some x)
  let ?c = "cas_count o_id o_status i (o_status x) (orders s)"
  let ?u = "add_history now i (Some (o_status x)) EXPIRED None (Some reason)
       (s\<lparr>orders := cas_rows o_id o_status i (o_status x) (apply_commit (commit_to EXPIRED)) (orders s)\<rparr>)"
  show ?thesis
  proof (cases "can_transition (o_status x) EXPIRED \<and> ?c \<noteq> 0")
    case False
    then show ?thesis using assms(2) Some by (auto simp: fail_search_def cas_order_def split: if_splits)
  next
    case True
    then have one: "?c = 1" using cas_count_le_1 [OF assms(1), of i "o_status x"] by linarith
    have t: "t = notify now (o_customer x) ORDER_SEARCH_FAILED (order_data i)
        (emit_to_user (o_customer x) (Ev_Order_Updated i EXPIRED) ?u)"
      using assms(2) Some conjunct1 [OF True] one
      by (simp del: can_transition_iff add: fail_search_def cas_order_def Let_def)
    have "transition now i (o_status x) (commit_to EXPIRED) None (Some reason) s = (Inr (), ?u)"
      using one by (simp add: transition_def transaction_def transition_body_def cas_order_def
          ok_def commit_to_def)
    then have "runs s ?u"
      using True by (intro runs_commit [OF Some]) (auto simp: commit_allowed_def commit_to_def)
    then show ?thesis unfolding t by (meson runs_trans runs_emit runs_notify)
  qed
qed

lemma announce_frame:
  "orders (announce_offer ctx ttl d s) = orders s" "history (announce_offer ctx ttl d s) = history s"
  "dispatches (announce_offer ctx ttl d s) = dispatches s" "next_id (announce_offer ctx ttl d s) = next_id s + 1"
  by (simp_all add: announce_offer_def Let_def)

lemma runs_cascade:
  assumes "order_inv s" "run_cascade ctx i s = (r, t)"
  shows "runs s t"
proof (cases rule: run_cascade_cases [of ctx i s])
  case nothing
  then have "t = s" using assms(2) by (simp add: ok_def)
  then show ?thesis by simp
next
  case (failed reason)
  then have "fail_search (dc_now ctx) i reason s = (r, t)" using assms(2) by simp
  then show ?thesis by (rule runs_fail_search [OF assms(1)])
next
  case (offered c rank attempt x)
  let ?d = "new_offer ctx (o_id x) (offer_ttl_seconds (o_tier x) (dc_env ctx)) (next_id s) c rank"
  let ?u = "s\<lparr>dispatches := dispatches s @ [?d], next_id := next_id s + 1\<rparr>"
  have id: "o_id x = i" using find_order_id [OF offered(2)] by simp
  have ins: "insert_offer ?d s = (Inr (), ?u)"
    using offer_is_new [OF offered(1), of ?d] by (simp add: new_offer_def id ok_def)
  have "runs s ?u"
    by (rule runs_step, rule sys_step.offer [OF _ _ ins]) (simp_all add: new_offer_def)
  moreover have "runs ?u t"
    using assms(2) unfolding offered(3) make_offer_def Let_def
    by (intro runs_other) (auto simp: announce_frame)
  ultimately show ?thesis by (rule runs_trans)
qed

lemma runs_answer: "to \<in> {D_DECLINED, D_EXPIRED} \<Longrightarrow> answer_offer now did to s = (k, t) \<Longrightarrow> runs s t"
  by (rule runs_step) (rule sys_step.answer)

lemma runs_decline:
  assumes "order_inv s" "decline_offer ctx did m s = (r, t)"
  shows "runs s t"
proof (cases "find_dispatch did s")
  case (Some d)
  obtain k u where u: "answer_offer (dc_now ctx) did D_DECLINED s = (k, u)" by fastforce
  have su: "runs s u" by (rule runs_answer [OF _ u]) simp
  have "t = s \<or> run_cascade ctx (d_order d) u = (r, t)"
    using assms(2) Some u by (auto simp: decline_offer_def split: if_splits)
  then show ?thesis
    using su runs_cascade [OF runs_inv [OF su assms(1)]] runs_trans by auto
qed (use assms in \<open>simp add: decline_offer_def\<close>)

lemma runs_expiry:
  assumes "order_inv s" "handle_offer_expiry ctx did s = (r, t)"
  shows "runs s t"
proof -
  obtain k u where u: "answer_offer (dc_now ctx) did D_EXPIRED s = (k, u)" by fastforce
  have su: "runs s u" by (rule runs_answer [OF _ u]) simp
  show ?thesis
  proof (cases "k = 0 \<or> find_dispatch did u = None")
    case True
    then show ?thesis using assms(2) u su by (auto simp: handle_offer_expiry_def split: if_splits)
  next
    case False
    then obtain d where d: "find_dispatch did u = Some d" by auto
    let ?n = "notify (dc_now ctx) (d_master d) OFFER_EXPIRED (order_data (d_order d)) u"
    obtain q v where v: "record_event (dc_now ctx) (d_master d) LATE_RESPONSE (Some (d_order d)) None ?n = (q, v)"
      by fastforce
    have sv: "runs s v"
      using su runs_notify runs_record_event [OF v] by (meson runs_trans)
    have "t = v \<or> run_cascade ctx (d_order d) v = (r, t)"
      using assms(2) False u d v by (auto simp: handle_offer_expiry_def and_then_eq)
    then show ?thesis
      using sv runs_cascade [OF runs_inv [OF sv assms(1)]] runs_trans by auto
  qed
qed

lemma runs_accept:
  assumes "accept_offer now did m s = (r, t)"
  shows "runs s t"
proof (cases "find_dispatch did s")
  case (Some d)
  show ?thesis
  proof (cases "d_master d = m")
    case True
    obtain q u where u: "transaction (accept_tx now did m (d_order d)) s = (q, u)" by fastforce
    have "runs s u"
      by (rule runs_step, rule sys_step.accept [OF Some]) (use u True in simp)
    moreover have "runs u t"
      using assms Some True u
      by (auto simp: accept_offer_def and_then_eq intro!: runs_other)
    ultimately show ?thesis by (rule runs_trans)
  qed (use assms Some in \<open>simp add: accept_offer_def\<close>)
qed (use assms in \<open>simp add: accept_offer_def\<close>)

section \<open>Orders\<close>

lemma with_order_cases:
  assumes "with_order (get_owned c i s) f s = (r, t)"
  shows "t = s \<or> (\<exists>x. find_order i s = Some x \<and> o_customer x = c \<and> f x s = (r, t))"
  using assms by (auto simp: with_order_eq get_owned_Inr)

lemma with_order_master_cases:
  assumes "with_order (get_owned_by_master m i s) f s = (r, t)"
  shows "t = s \<or> (\<exists>x. find_order i s = Some x \<and> o_master x = Some m \<and> f x s = (r, t))"
  using assms by (auto simp: with_order_eq get_owned_by_master_Inr)

lemma runs_create: "create_draft now c cat d s = (r, t) \<Longrightarrow> runs s t"
  by (rule runs_step) (rule sys_step.create)

lemma runs_update_draft:
  assumes "update_draft now c i u s = (r, t)"
  shows "runs s t"
proof -
  have "t = s \<or> (\<exists>x. find_order i s = Some x \<and> o_status x \<in> set editable_statuses \<and>
          t = edit_commit now c x u s)"
    using with_order_cases [OF assms [unfolded update_draft_def]]
    by (auto simp: check_eq split: if_splits)
  then show ?thesis
  proof
    assume "\<exists>x. find_order i s = Some x \<and> o_status x \<in> set editable_statuses \<and> t = edit_commit now c x u s"
    then show ?thesis
      using find_order_id by (auto intro!: runs_step sys_step.edit simp: snaps_def)
  qed simp
qed

lemma runs_diagnose:
  assumes "diagnose ctx c i s = (r, t)"
  shows "runs s t"
proof -
  have "t = s \<or> (\<exists>x k d cat. find_order i s = Some x \<and> can_transition (o_status x) PRICED \<and>
          t = diagnose_commit (ox_now ctx) c x k d (quote_of x cat d) s)"
    using with_order_cases [OF assms [unfolded diagnose_def]]
    by (auto simp: Let_def simp del: can_transition_iff split: if_splits option.splits)
  then show ?thesis
  proof (elim disjE exE conjE)
    fix x k d cat
    assume "find_order i s = Some x" "can_transition (o_status x) PRICED"
      "t = diagnose_commit (ox_now ctx) c x k d (quote_of x cat d) s"
    then show ?thesis
      using find_order_id [of i s x]
      by (simp only:) (intro runs_step sys_step.diagnose, simp_all only: snaps_def if_False)
  qed simp
qed

lemma runs_submit:
  assumes "order_inv s" "submit ctx c i s = (r, t)"
  shows "runs s t"
proof -
  have "t = s \<or> (\<exists>x. find_order i s = Some x \<and> submit_check (ox_now ctx) x = None \<and>
          t = snd (run_cascade (ox_dispatch ctx) i (submit_commit (ox_now ctx) c x s)))"
    using with_order_cases [OF assms(2) [unfolded submit_def]]
    by (auto simp: check_eq Let_def start_dispatch_def)
  then show ?thesis
  proof (elim disjE exE conjE)
    fix x
    let ?u = "submit_commit (ox_now ctx) c x s"
    assume x: "find_order i s = Some x" "submit_check (ox_now ctx) x = None"
      and t: "t = snd (run_cascade (ox_dispatch ctx) i ?u)"
    have su: "runs s ?u"
      by (rule runs_step, rule sys_step.submit) (use x find_order_id in \<open>auto simp: snaps_def\<close>)
    have "runs ?u t"
      by (rule runs_cascade [OF runs_inv [OF su assms(1)], of "ox_dispatch ctx" i "fst (run_cascade (ox_dispatch ctx) i ?u)"])
        (simp add: t)
    with su show ?thesis by (rule runs_trans)
  qed simp
qed

text \<open>A guarded transition followed by changes that leave the orders alone.\<close>

lemma runs_transition_then:
  assumes "find_order i s = Some x" "commit_allowed x c"
    "and_then (transition now i (o_status x) c a n s) f = (r, t)"
    "\<And>u. f () u = (r, t) \<Longrightarrow> runs u t"
  shows "runs s t"
proof -
  obtain q u where u: "transition now i (o_status x) c a n s = (q, u)" by fastforce
  have "runs s u" by (rule runs_commit [OF assms(1,2) u])
  moreover have "runs u t" using assms(3,4) u by (auto simp: and_then_eq)
  ultimately show ?thesis by (rule runs_trans)
qed

lemma runs_cancel:
  assumes "cancel now c i s = (r, t)"
  shows "runs s t"
  using with_order_cases [OF assms [unfolded cancel_def]]
proof (elim disjE exE conjE)
  fix x assume x: "find_order i s = Some x"
    and e: "(if \<not> can_transition (o_status x) CANCELLED_BY_CUSTOMER then raise Conflict s
             else cancel_commit now c x s) = (r, t)"
  show ?thesis
  proof (cases "can_transition (o_status x) CANCELLED_BY_CUSTOMER")
    case True
    then show ?thesis
      using e find_order_id [OF x]
      by (intro runs_commit [OF x, where c = "(commit_to CANCELLED_BY_CUSTOMER)\<lparr>oc_cancelled := Some now\<rparr>"])
        (simp_all del: can_transition_iff add: cancel_commit_def commit_allowed_def commit_to_def)
  qed (use e in simp)
qed simp

lemma runs_transition_by_master:
  assumes "find_order i s = Some x" "can_transition (o_status x) to" "to \<in> {EN_ROUTE, IN_PROGRESS}"
    "transition_by_master now x to m s = (r, t)"
  shows "runs s t"
  using assms(4) find_order_id [OF assms(1)] unfolding transition_by_master_def
  by (intro runs_transition_then [OF assms(1)])
    (use assms(2,3) in \<open>auto simp: commit_allowed_def commit_to_def simp del: can_transition_iff intro!: runs_emit\<close>)

lemma runs_en_route: "start_en_route now m i s = (r, t) \<Longrightarrow> runs s t"
  unfolding start_en_route_def
  by (drule with_order_master_cases)
    (auto simp del: can_transition_iff split: if_splits intro: runs_transition_by_master)

lemma runs_start_service: "start_service now m i s = (r, t) \<Longrightarrow> runs s t"
  unfolding start_service_def
  by (drule with_order_master_cases)
    (auto simp del: can_transition_iff split: if_splits intro: runs_transition_by_master)

lemma runs_complete:
  assumes "complete_service now m i final_amount s = (r, t)"
  shows "runs s t"
proof -
  have "t = s \<or> (\<exists>x. find_order i s = Some x \<and> can_transition (o_status x) COMPLETED \<and>
      price_check x final_amount = None \<and> complete_commit now m x final_amount s = (r, t))"
    using with_order_master_cases [OF assms [unfolded complete_service_def]]
    by (auto simp: check_eq simp del: can_transition_iff split: if_splits)
  then show ?thesis
  proof (elim disjE exE conjE)
    fix x
    assume x: "find_order i s = Some x" "can_transition (o_status x) COMPLETED"
      "price_check x final_amount = None" and e: "complete_commit now m x final_amount s = (r, t)"
    show ?thesis
      using e find_order_id [OF x(1)] unfolding complete_commit_def
      by (intro runs_transition_then [OF x(1)])
        (use x(2,3) in \<open>auto simp: commit_allowed_def commit_to_def simp del: can_transition_iff
            intro!: runs_trans [OF runs_emit runs_notify]\<close>)
  qed simp
qed

lemma confirm_tx_cases:
  assumes "confirm_tx now c x m s = (r, t)"
  shows "t = s \<or> (\<exists>u. transition now (o_id x) (o_status x) (commit_to CLOSED) (Some c) None s = (Inr (), u) \<and>
                     t = count_job m u \<and> r = Inr ())"
  using assms
  by (auto simp: confirm_tx_def transition_def transaction_def and_then_eq split: prod.splits sum.splits)

lemma runs_count_job: "runs s (count_job m s)"
  by (rule runs_other) (simp_all add: count_job_def)

lemma runs_confirm:
  assumes "confirm_completion now c i s = (r, t)"
  shows "runs s t"
proof -
  have "t = s \<or> (\<exists>x m q u. find_order i s = Some x \<and> can_transition (o_status x) CLOSED \<and>
      confirm_tx now c x m s = (q, u) \<and> (t = u \<or> (\<exists>v w. v = notify now m ORDER_CLOSED (order_data i)
         (emit_to_user m (Ev_Order_Updated i CLOSED) u) \<and> recompute_trust_tier now m v = (w, t))))"
    using with_order_cases [OF assms [unfolded confirm_completion_def]]
    by (auto simp: Let_def and_then_eq simp del: can_transition_iff split: if_splits option.splits)
  then show ?thesis
  proof (elim disjE exE conjE)
    fix x m q u
    assume x: "find_order i s = Some x" "can_transition (o_status x) CLOSED"
      and u: "confirm_tx now c x m s = (q, u)"
    have id: "o_id x = i" using find_order_id [OF x(1)] by simp
    have allowed: "commit_allowed x (commit_to CLOSED)"
      using x(2) by (simp add: commit_allowed_def commit_to_def)
    have su: "runs s u"
      using confirm_tx_cases [OF u] runs_commit [OF x(1) allowed] runs_count_job runs_trans id
      by (metis runs_refl)
    { assume "t = u" then show ?thesis using su by simp }
    { fix v w
      assume "v = notify now m ORDER_CLOSED (order_data i) (emit_to_user m (Ev_Order_Updated i CLOSED) u)"
        and "recompute_trust_tier now m v = (w, t)"
      then show ?thesis using su runs_emit runs_notify runs_recompute by (metis runs_trans) }
  qed simp
qed

lemma runs_cancel_by_master:
  assumes "cancel_by_master now m i reason s = (r, t)"
  shows "runs s t"
  using with_order_master_cases [OF assms [unfolded cancel_by_master_def]]
proof (elim disjE exE conjE)
  fix x :: order_row
  let ?c = "(commit_to CANCELLED_BY_MASTER)\<lparr>oc_cancelled := Some now\<rparr>"
  let ?f = "\<lambda>_ s1. and_then (record_event now m CANCELLATION (Some i) reason
       (notify now (o_customer x) ORDER_CANCELLED_BY_MASTER (order_data i)
          (emit_to_user (o_customer x) (Ev_Order_Updated i CANCELLED_BY_MASTER) s1))) (\<lambda>_ s4. ok () s4)"
  assume x: "find_order i s = Some x"
    and e: "(if \<not> can_transition (o_status x) CANCELLED_BY_MASTER then raise Conflict s
       else and_then (transition now i (o_status x) ?c (Some m) reason s)
         (\<lambda>_ s1. let s2 = emit_to_user (o_customer x) (Ev_Order_Updated i CANCELLED_BY_MASTER) s1;
                    s3 = notify now (o_customer x) ORDER_CANCELLED_BY_MASTER (order_data i) s2
                in and_then (record_event now m CANCELLATION (Some i) reason s3) (\<lambda>_ s4. ok () s4))) = (r, t)"
  show ?thesis
  proof (cases "can_transition (o_status x) CANCELLED_BY_MASTER")
    case True
    have tail: "runs u t" if "?f () u = (r, t)" for u
      using that runs_emit runs_notify runs_record_event by (auto simp: and_then_eq) (metis runs_trans)+
    show ?thesis
      by (rule runs_transition_then [OF x _ _ tail, where c = ?c])
        (use e True in \<open>simp_all del: can_transition_iff add: commit_allowed_def commit_to_def Let_def\<close>)
  qed (use e in simp)
qed simp

section \<open>Media\<close>

lemma save_media_frame:
  assumes "save_media_file e x n b mime who s = (r, t)"
  shows "orders t = orders s" "history t = history s" "dispatches t = dispatches s" "next_id s \<le> next_id t"
  using assms by (auto simp: save_media_file_def Let_def split: if_splits sum.splits)

lemma runs_add_media: "add_media e c i b mime s = (r, t) \<Longrightarrow> runs s t"
  unfolding add_media_def
  by (drule with_order_cases) (auto split: if_splits intro: runs_other simp: save_media_frame)

lemma runs_add_job_media: "add_job_media e m i b mime s = (r, t) \<Longrightarrow> runs s t"
  unfolding add_job_media_def
  by (drule with_order_master_cases) (auto split: if_splits intro: runs_other simp: save_media_frame)

lemma runs_delete_media: "delete_media c i mid s = (r, t) \<Longrightarrow> runs s t"
  unfolding delete_media_def
  by (drule with_order_cases) (auto split: option.splits intro: runs_other)

section \<open>Requests\<close>

datatype request =
    Rq_Create id "id option" string
  | Rq_Update id id order_update
  | Rq_Add_Media id id "byte list" string
  | Rq_Add_Job_Media id id "byte list" string
  | Rq_Delete_Media id id id
  | Rq_Diagnose id id
  | Rq_Submit id id
  | Rq_Cancel id id
  | Rq_En_Route id id
  | Rq_Start id id
  | Rq_Complete id id int
  | Rq_Confirm id id
  | Rq_Cancel_By_Master id id "string option"
  | Rq_Accept id id
  | Rq_Decline id id
  | Rq_Expire id

fun serve :: "order_ctx \<Rightarrow> request \<Rightarrow> db \<Rightarrow> db" where
  "serve ctx (Rq_Create c cat d) s = snd (create_draft (ox_now ctx) c cat d s)"
| "serve ctx (Rq_Update c i u) s = snd (update_draft (ox_now ctx) c i u s)"
| "serve ctx (Rq_Add_Media c i b mime) s = snd (add_media (ox_env ctx) c i b mime s)"
| "serve ctx (Rq_Add_Job_Media m i b mime) s = snd (add_job_media (ox_env ctx) m i b mime s)"
| "serve ctx (Rq_Delete_Media c i mid) s = snd (delete_media c i mid s)"
| "serve ctx (Rq_Diagnose c i) s = snd (diagnose ctx c i s)"
| "serve ctx (Rq_Submit c i) s = snd (submit ctx c i s)"
| "serve ctx (Rq_Cancel c i) s = snd (cancel (ox_now ctx) c i s)"
| "serve ctx (Rq_En_Route m i) s = snd (start_en_route (ox_now ctx) m i s)"
| "serve ctx (Rq_Start m i) s = snd (start_service (ox_now ctx) m i s)"
| "serve ctx (Rq_Complete m i a) s = snd (complete_service (ox_now ctx) m i a s)"
| "serve ctx (Rq_Confirm c i) s = snd (confirm_completion (ox_now ctx) c i s)"
| "serve ctx (Rq_Cancel_By_Master m i reason) s = snd (cancel_by_master (ox_now ctx) m i reason s)"
| "serve ctx (Rq_Accept did m) s = snd (accept_offer (ox_now ctx) did m s)"
| "serve ctx (Rq_Decline did m) s = snd (decline_offer (ox_dispatch ctx) did m s)"
| "serve ctx (Rq_Expire did) s = snd (handle_offer_expiry (ox_dispatch ctx) did s)"

definition serve_all :: "(order_ctx \<times> request) list \<Rightarrow> db \<Rightarrow> db" where
  "serve_all qs s = foldl (\<lambda>s (ctx, q). serve ctx q s) s qs"

lemmas handler_runs =
  runs_create [OF surjective_pairing] runs_update_draft [OF surjective_pairing]
  runs_add_media [OF surjective_pairing] runs_add_job_media [OF surjective_pairing]
  runs_delete_media [OF surjective_pairing] runs_diagnose [OF surjective_pairing]
  runs_cancel [OF surjective_pairing] runs_en_route [OF surjective_pairing]
  runs_start_service [OF surjective_pairing] runs_complete [OF surjective_pairing]
  runs_confirm [OF surjective_pairing] runs_cancel_by_master [OF surjective_pairing]
  runs_accept [OF surjective_pairing]

lemmas cascading_runs =
  runs_submit [OF _ surjective_pairing] runs_decline [OF _ surjective_pairing]
  runs_expiry [OF _ surjective_pairing]

lemma serve_runs:
  assumes "order_inv s"
  shows "runs s (serve ctx q s)"
  by (cases q) (simp_all add: handler_runs cascading_runs [OF assms])

lemma serve_all_runs:
  assumes "order_inv s"
  shows "runs s (serve_all qs s)"
proof (induction qs rule: rev_induct)
  case (snoc q qs)
  have "order_inv (serve_all qs s)" using snoc assms by (rule runs_inv)
  then have "runs (serve_all qs s) (serve_all (qs @ [q]) s)"
    by (cases q) (simp add: serve_all_def serve_runs)
  with snoc show ?case by (rule runs_trans)
qed (simp add: serve_all_def)

lemma no_orders_inv: "no_orders s \<Longrightarrow> order_inv s"
  using sys_inv_init [of s] by (simp add: sys_inv_def)

end
