(* ===== verification/Example.thy ===== *)
theory Example
  imports OrderService
begin

text \<open>
  A small marketplace on which the witnesses evaluate: one customer (1), one verified master (2)
  who is online and serves category 10, the default configuration, a provider that answers every
  diagnosis with a medium job of the customer's category, and every distance 1500 metres.
\<close>

definition empty_db :: db where
  "empty_db = \<lparr>users = [], customer_profiles = [], masters = [], categories = [], skills = [],
     master_media = [], areas = [], slots = [], verifications = [], addresses = [], sessions = [],
     otps = [], devices = [], orders = [], media = [], history = [], payments = [], dispatches = [],
     notifications = [], reviews = [], penalties = [], claims = [], referrals = [], cashbacks = [],
     subscriptions = [], audit_logs = [], flags = [], next_id = 100, next_order_no = 1, emitted = [],
     jobs = [], sms_sent = [], files = [], pushes = [], redis = []\<rparr>"

definition demo_user :: "id \<Rightarrow> string \<Rightarrow> role \<Rightarrow> user_row" where
  "demo_user i phone r = \<lparr>u_id = i, u_phone = phone, u_password = ''h'', u_role = r, u_status = U_ACTIVE,
     u_referral_code = ''R'', u_locale = UZ, u_created = 0\<rparr>"

definition demo_master :: "id \<Rightarrow> master_row" where
  "demo_master i = \<lparr>m_user = i, m_name = Some ''Usta'', m_avatar = None, m_years = 5, m_bio = None,
     m_verification = V_VERIFIED, m_trust_tier = 2, m_rating = 4, m_jobs = 20, m_pinfl = None,
     m_self_employed = True, m_online = True, m_online_since = Some 0\<rparr>"

definition demo_category :: category_row where
  "demo_category = \<lparr>c_id = 10, c_slug = ''plumber'', c_name_uz = ''Santexnik'', c_name_ru = ''S'',
     c_base_min = 100000, c_base_max = 200000, c_warranty = True, c_active = True, c_icon = None,
     c_sort = 0\<rparr>"

definition demo_area :: "id \<Rightarrow> area_row" where
  "demo_area m = \<lparr>sa_id = 20, sa_master = m, sa_label = ''A'', sa_lat = 41, sa_lng = 69, sa_radius = 5000\<rparr>"

definition demo_db :: db where
  "demo_db = empty_db\<lparr>
     users := [demo_user 1 ''+998900000001'' CUSTOMER, demo_user 2 ''+998900000002'' MASTER],
     masters := [demo_master 2], categories := [demo_category],
     skills := [\<lparr>sk_master = 2, sk_category = 10\<rparr>], areas := [demo_area 2]\<rparr>"

definition demo_env :: env where
  "demo_env = env_default ''postgresql://localhost/handly'' ''a-long-enough-secret'' ''a-long-enough-field-key''"

definition demo_diagnosis :: "ai_input \<Rightarrow> ai_diagnosis" where
  "demo_diagnosis inp = \<lparr>ai_summary = ''s'', ai_category = Some 10, ai_slug = Some ''plumber'',
     ai_complexity = MEDIUM, ai_confidence = 1 / 2, ai_source = ''mock'', ai_version = ''v1''\<rparr>"

definition demo_dispatch :: "time \<Rightarrow> dispatch_ctx" where
  "demo_dispatch now = \<lparr>dc_env = demo_env, dc_now = now, dc_today = ''2026-07-21'',
     dc_geo = (\<lambda>_ _. 1500), dc_random = 1 / 2\<rparr>"

definition demo_ctx :: "time \<Rightarrow> order_ctx" where
  "demo_ctx now = \<lparr>ox_env = demo_env, ox_now = now, ox_ai = demo_diagnosis, ox_dispatch = demo_dispatch now\<rparr>"

definition demo_edit :: order_update where
  "demo_edit = \<lparr>ou_category = None, ou_description = None, ou_tier = Some PRIORITY, ou_scheduled = None,
     ou_address = Some ''Chilonzor'', ou_lat = Some 41, ou_lng = Some 69\<rparr>"

text \<open>From the first draft (order 100) to the customer's confirmation; the offer has id 104.\<close>

definition demo_job :: "(order_ctx \<times> request) list" where
  "demo_job =
     [(demo_ctx 1000, Rq_Create 1 (Some 10) ''kran oqyapti''),
      (demo_ctx 2000, Rq_Update 1 100 demo_edit),
      (demo_ctx 3000, Rq_Diagnose 1 100),
      (demo_ctx 4000, Rq_Submit 1 100),
      (demo_ctx 5000, Rq_Accept 104 2),
      (demo_ctx 6000, Rq_En_Route 2 100),
      (demo_ctx 7000, Rq_Start 2 100),
      (demo_ctx 8000, Rq_Complete 2 100 150000),
      (demo_ctx 9000, Rq_Confirm 1 100)]"

section \<open>The life of one order\<close>

definition demo_draft :: order_row where
  "demo_draft = \<lparr>o_id = 100, o_no = 1, o_customer = 1, o_category = Some 10,
     o_description = ''kran oqyapti'', o_status = DRAFT, o_tier = SCHEDULED, o_scheduled = None,
     o_address = None, o_lat = None, o_lng = None, o_master = None, o_complexity = None, o_ai = None,
     o_price_min = None, o_price_max = None, o_fee = 0, o_final = None, o_consent = None,
     o_submitted = None, o_cancelled = None, o_created = 1000\<rparr>"

lemma demo_draft_row [simp]: "o_id demo_draft = 100" "o_status demo_draft = DRAFT" "o_customer demo_draft = 1"
  by (simp_all add: demo_draft_def)

definition demo_order :: order_row where
  "demo_order = priced_row 10 \<lparr>ai_summary = ''s'', ai_category = Some 10, ai_slug = Some ''plumber'',
     ai_complexity = MEDIUM, ai_confidence = 1 / 2, ai_source = ''mock'', ai_version = ''v1''\<rparr>
     \<lparr>q_min = 110000, q_max = 230000, q_fee = 15000\<rparr> (edit_row demo_edit demo_draft)"

definition demo_quoted :: db where
  "demo_quoted = serve_all (take 3 demo_job) demo_db"

lemma demo_quote: "compute_quote 100000 200000 MEDIUM PRIORITY = \<lparr>q_min = 110000, q_max = 230000, q_fee = 15000\<rparr>"
  by code_simp

lemma demo_create:
  fixes s :: db
  defines "s \<equiv> serve (demo_ctx 1000) (Rq_Create 1 (Some 10) ''kran oqyapti'') demo_db"
  shows "orders s = [demo_draft]" "dispatches s = []" "categories s = [demo_category]"
  by (simp_all add: s_def create_draft_def check_def assert_category_def active_category_def demo_db_def
      empty_db_def demo_category_def Let_def add_history_def demo_draft_def demo_ctx_def ok_def)

lemma demo_update:
  assumes "orders s = [demo_draft]"
  shows "orders (serve (demo_ctx 2000) (Rq_Update 1 100 demo_edit) s) = [edit_row demo_edit demo_draft]"
    "dispatches (serve (demo_ctx 2000) (Rq_Update 1 100 demo_edit) s) = dispatches s"
    "categories (serve (demo_ctx 2000) (Rq_Update 1 100 demo_edit) s) = categories s"
  using assms
  by (simp_all add: update_draft_def with_order_def get_owned_def find_order_def demo_draft_def
      editable_statuses_def check_def assert_category_def demo_edit_def edit_commit_def
      invalidates_quote_def ok_def)

lemma demo_diagnose:
  assumes "orders s = [edit_row demo_edit demo_draft]" "categories s = [demo_category]"
  shows "orders (serve (demo_ctx 3000) (Rq_Diagnose 1 100) s) = [demo_order]"
    "dispatches (serve (demo_ctx 3000) (Rq_Diagnose 1 100) s) = dispatches s"
  using assms demo_quote
  by (simp_all add: diagnose_def with_order_def get_owned_def find_order_def demo_draft_def edit_row_def
      demo_edit_def or_keep_def or_keep_some_def demo_ctx_def demo_diagnosis_def demo_category_def Let_def
      diagnose_commit_def quote_of_def add_history_def demo_order_def ok_def priced_row_def)

lemma demo_quoted_state: "orders demo_quoted = [demo_order]" "dispatches demo_quoted = []"
  using demo_diagnose [OF demo_update(1) [OF demo_create(1)]] demo_update [OF demo_create(1)] demo_create
  by (simp_all add: demo_quoted_def serve_all_def demo_job_def del: serve.simps)

lemma demo_create_media: "media (serve (demo_ctx 1000) (Rq_Create 1 (Some 10) ''kran oqyapti'') demo_db) = []"
  by (simp add: create_draft_def check_def assert_category_def active_category_def demo_db_def
      empty_db_def demo_category_def Let_def add_history_def demo_ctx_def ok_def)

lemma demo_update_media:
  assumes "orders s = [demo_draft]"
  shows "media (serve (demo_ctx 2000) (Rq_Update 1 100 demo_edit) s) = media s"
  using assms
  by (simp add: update_draft_def with_order_def get_owned_def find_order_def demo_draft_def
      editable_statuses_def check_def assert_category_def demo_edit_def edit_commit_def
      invalidates_quote_def ok_def)

lemma demo_diagnose_media:
  assumes "orders s = [edit_row demo_edit demo_draft]" "categories s = [demo_category]"
  shows "media (serve (demo_ctx 3000) (Rq_Diagnose 1 100) s) = media s"
  using assms
  by (simp add: diagnose_def with_order_def get_owned_def find_order_def demo_draft_def edit_row_def
      demo_edit_def or_keep_def or_keep_some_def demo_ctx_def demo_diagnosis_def demo_category_def Let_def
      diagnose_commit_def add_history_def ok_def)

lemma demo_quoted_media: "media demo_quoted = []"
  using demo_create demo_update [OF demo_create(1)] demo_create_media demo_update_media [OF demo_create(1)]
    demo_diagnose_media [OF demo_update(1) [OF demo_create(1)]]
  by (simp add: demo_quoted_def serve_all_def demo_job_def del: serve.simps)

lemma demo_order_row:
  "orders demo_quoted = [demo_order]" "o_id demo_order = 100" "o_status demo_order = PRICED"
  "o_price_min demo_order = Some 110000" "o_price_max demo_order = Some 230000"
  "o_tier demo_order = PRIORITY" "o_address demo_order = Some ''Chilonzor''"
  by (simp_all add: demo_quoted_state demo_order_def demo_draft_def priced_row_def edit_row_def
      demo_edit_def or_keep_def or_keep_some_def)

lemma demo_no_orders: "no_orders demo_db"
  by (simp add: demo_db_def empty_db_def no_orders_def)

lemma demo_reachable: "runs demo_db t \<Longrightarrow> \<exists>rs. reachable False (t, rs)"
  using reachable_runs [of demo_db "[]" t] demo_no_orders by (auto simp: reachable_def)

lemma demo_quoted_runs: "runs demo_db demo_quoted"
  unfolding demo_quoted_def by (rule serve_all_runs) (rule no_orders_inv [OF demo_no_orders])

lemma commit_one:
  assumes "orders s = [x]" "commit_allowed x c"
  shows "\<exists>t. runs s t \<and> orders t = [apply_commit c x]"
proof -
  have "\<exists>t. transition 0 (o_id x) (o_status x) c None None s = (Inr (), t) \<and> orders t = [apply_commit c x]"
    using assms(1)
    by (simp add: transition_def transaction_def transition_body_def cas_order_def cas_count_def
        cas_rows_def update_count_def ok_def raise_def)
  moreover have "find_order (o_id x) s = Some x" using assms(1) by (simp add: find_order_def)
  ultimately show ?thesis using runs_commit assms(2) by blast
qed

definition demo_offer :: "id \<Rightarrow> dispatch_row" where
  "demo_offer i = \<lparr>d_id = i, d_order = 100, d_master = 2, d_rank = 1, d_distance = 1500,
     d_score = 1, d_status = D_OFFERED, d_lead = False, d_offered_at = 4000, d_expires = 9000,
     d_responded = None\<rparr>"

lemma demo_searching:
  "\<exists>t. runs demo_db t \<and> orders t = [submit_row 4000 PRIORITY demo_order] \<and> dispatches t = []"
proof -
  let ?t = "submit_commit 4000 1 demo_order demo_quoted"
  have "runs demo_quoted ?t"
  proof (rule runs_step, rule sys_step.submit)
    show "demo_order \<in> snaps False demo_quoted rs" for rs
      by (simp add: snaps_def demo_order_row)
    show "submit_check 4000 demo_order = None"
      by (simp add: submit_check_def demo_order_row)
  qed
  then have "runs demo_db ?t" using demo_quoted_runs runs_trans by blast
  moreover have "orders ?t = [submit_row 4000 PRIORITY demo_order]" "dispatches ?t = []"
    using demo_quoted_state(2) by (simp_all add: submit_commit_def add_history_def demo_order_row)
  ultimately show ?thesis by blast
qed

lemma demo_assigned:
  "\<exists>t. runs demo_db t \<and> orders t = [assigned_row 2 (submit_row 4000 PRIORITY demo_order)]
       \<and> map d_status (dispatches t) = [D_ACCEPTED]"
proof -
  let ?x = "submit_row 4000 PRIORITY demo_order"
  have x: "o_id ?x = 100" "o_status ?x = SEARCHING" by (simp_all add: submit_row_def demo_order_row)
  obtain s where s: "runs demo_db s" "orders s = [?x]" "dispatches s = []" using demo_searching by blast
  let ?d = "demo_offer (next_id s)"
  let ?s = "s\<lparr>dispatches := [?d], next_id := next_id s + 1\<rparr>"
  have d: "d_status ?d = D_OFFERED" "d_id ?d = next_id s" "d_order ?d = 100" "d_master ?d = 2"
    "d_expires ?d = 9000" by (simp_all add: demo_offer_def)
  have "insert_offer ?d s = (Inr (), ?s)" using s(3) by (simp add: insert_offer_def ok_def)
  then have 1: "runs s ?s" using d by (intro runs_step sys_step.offer) auto
  have f: "find_dispatch (next_id s) ?s = Some ?d" "find_order 100 ?s = Some ?x"
    using s(2) x d by (simp_all add: find_dispatch_def find_order_def)
  have "\<exists>r t. accept_tx 5000 (next_id s) 2 100 ?s = (Inr r, t)"
    using f d x by (simp add: accept_tx_def Let_def create_record_def ok_def)
  then obtain r t where t: "accept_tx 5000 (next_id s) 2 100 ?s = (Inr r, t)" by blast
  have tr: "transaction (accept_tx 5000 (next_id s) (d_master ?d) (d_order ?d)) ?s = (Inr r, t)"
    unfolding d transaction_Inr by (rule t)
  have 2: "runs ?s t"
    by (rule runs_step) (rule sys_step.accept [OF f(1) tr])
  have ot: "orders t = update_rows (\<lambda>r. o_id r = 100) (assigned_row 2) (orders ?s)"
    using t by (rule accept_tx_cases)
  have dt: "dispatches t = accept_rows 5000 (next_id s) 100 (dispatches ?s)"
    using t by (rule accept_tx_cases)
  have "orders t = [assigned_row 2 ?x]" unfolding ot using s(2) x(1) by simp
  moreover have "map d_status (dispatches t) = [D_ACCEPTED]"
    unfolding dt by (simp add: accept_rows_map demo_offer_def)
  ultimately show ?thesis
    using runs_trans [OF runs_trans [OF s(1) 1] 2] by (intro exI [of _ t] conjI)
qed

text \<open>The whole life of the order: it can be closed, with the final amount the master named.\<close>

lemma demo_closed:
  "\<exists>t x. runs demo_db t \<and> orders t = [x] \<and> o_status x = CLOSED \<and> o_final x = Some 150000"
proof -
  let ?x = "assigned_row 2 (submit_row 4000 PRIORITY demo_order)"
  obtain s where s: "runs demo_db s" "orders s = [?x]" using demo_assigned by blast
  note defs = commit_allowed_def commit_to_def apply_commit_def assigned_row_def submit_row_def
    price_check_def demo_order_row
  obtain s1 where s1: "runs s s1" "orders s1 = [apply_commit (commit_to EN_ROUTE) ?x]"
    using commit_one [OF s(2), of "commit_to EN_ROUTE"] by (auto simp: defs)
  obtain s2 where s2: "runs s1 s2"
    "orders s2 = [apply_commit (commit_to IN_PROGRESS) (apply_commit (commit_to EN_ROUTE) ?x)]"
    using commit_one [OF s1(2), of "commit_to IN_PROGRESS"] by (auto simp: defs)
  let ?c = "(commit_to COMPLETED)\<lparr>oc_final := Some 150000\<rparr>"
  let ?y = "apply_commit ?c (apply_commit (commit_to IN_PROGRESS) (apply_commit (commit_to EN_ROUTE) ?x))"
  obtain s3 where s3: "runs s2 s3" "orders s3 = [?y]"
    using commit_one [OF s2(2), of ?c] by (auto simp: defs)
  obtain s4 where s4: "runs s3 s4" "orders s4 = [apply_commit (commit_to CLOSED) ?y]"
    using commit_one [OF s3(2), of "commit_to CLOSED"] by (auto simp: defs)
  have "runs demo_db s4" using s s1 s2 s3 s4 runs_trans by blast
  then show ?thesis using s4(2) by (intro exI [of _ s4]) (simp add: defs)
qed

end
