(* ===== verification/Order_Properties.thy ===== *)
theory Order_Properties
  imports Example
begin

text \<open>
  The properties of the order life cycle: what holds of every order in every interleaving of the
  handlers, what a race between two requests ends in, and the runs in which the unguarded writes
  of the source break the history.  The proofs rest on \<open>reachable_order_inv\<close> and on the
  interpretation \<open>order_cas\<close>.
\<close>

section \<open>Reachable states for the witnesses\<close>

lemma inv_history:
  "order_inv s \<Longrightarrow> x \<in> set (orders s) \<Longrightarrow> history_valid (history_of (o_id x) s) (o_status x)"
  by (simp add: order_inv_def histories_ok_def)

lemma distinct_singleton: "distinct xs \<Longrightarrow> set xs = {x} \<Longrightarrow> xs = [x]"
proof (cases xs)
  case (Cons y ys)
  assume "distinct xs" "set xs = {x}"
  then show ?thesis using Cons by (cases ys) auto
qed simp

lemma demo_closed_reachable:
  "\<exists>s rs x. reachable False (s, rs) \<and> x \<in> set (orders s) \<and> o_status x = CLOSED \<and> o_final x = Some 150000"
proof -
  obtain t x where t: "runs demo_db t" "orders t = [x]" "o_status x = CLOSED" "o_final x = Some 150000"
    using demo_closed by blast
  obtain rs where "reachable False (t, rs)" using demo_reachable [OF t(1)] by blast
  moreover have "x \<in> set (orders t)" using t(2) by simp
  ultimately show ?thesis using t(3,4) by blast
qed

section \<open>Histories\<close>



text \<open>An order that is closed was quoted, searched, assigned, driven to, worked on and completed,
  in this order and with nothing in between; whatever happened before is quoting.\<close>

theorem closed_order_took_every_step:
  assumes "reachable False (s, rs)" "x \<in> set (orders s)" "o_status x = CLOSED"
  shows "\<exists>q. map h_to (history_of (o_id x) s) =
              q @ [SEARCHING, ASSIGNED, EN_ROUTE, IN_PROGRESS, COMPLETED, CLOSED]
           \<and> last q = PRICED \<and> list_all before_search q"
proof -
  have h: "history_valid (history_of (o_id x) s) CLOSED"
    using inv_history [OF reachable_order_inv [OF assms(1)] assms(2)] assms(3) by simp
  then obtain q where q: "order_path q" "last q = PRICED"
    "map h_to (history_of (o_id x) s) = q @ [SEARCHING, ASSIGNED, EN_ROUTE, IN_PROGRESS, COMPLETED, CLOSED]"
    using order_path_to_closed [of "map h_to (history_of (o_id x) s)"] by (auto simp: history_valid_def)
  have "before_search st" if "st \<in> set q" for st
    using before_search_prefix [of q st] q(1,2) that by (simp add: order_path_def before_search_def)
  then have "list_all before_search q" by (simp add: list_all_iff)
  then show ?thesis using q(2,3) by blast
qed

theorem closed_order_took_every_step_witness:
  "\<exists>s (x :: order_row) q. o_status x = CLOSED \<and> map h_to (history_of (o_id x) s) =
     q @ [SEARCHING, ASSIGNED, EN_ROUTE, IN_PROGRESS, COMPLETED, CLOSED]"
proof -
  obtain s rs x where x: "reachable False (s, rs)" "x \<in> set (orders s)" "o_status x = CLOSED"
    using demo_closed_reachable by blast
  obtain q where "map h_to (history_of (o_id x) s) = q @ [SEARCHING, ASSIGNED, EN_ROUTE, IN_PROGRESS, COMPLETED, CLOSED]"
    using closed_order_took_every_step [OF x] by (elim exE conjE)
  with x(3) show ?thesis by (intro exI conjI)
qed

text \<open>Serving any list of requests one after the other, each with its own clock, configuration
  and provider, is one of the interleavings: the handlers refine the step relation.\<close>

theorem serving_refines_steps:
  assumes "no_orders s"
  shows "\<exists>rs. reachable False (serve_all qs s, rs)"
proof -
  have "runs s (serve_all qs s)" by (rule serve_all_runs) (rule no_orders_inv [OF assms])
  moreover have "reachable False (s, [])" using assms by (auto simp: reachable_def)
  ultimately show ?thesis by (rule reachable_runs [rotated])
qed

theorem serving_refines_steps_witness: "\<exists>rs. reachable False (serve_all demo_job demo_db, rs)"
  by (rule serving_refines_steps) (rule demo_no_orders)

section \<open>Money and assignment\<close>





section \<open>Races\<close>

text \<open>C5: two requests that read the same order and both try to move it on: the first guarded write
  succeeds, the second one gets a conflict and leaves the state as the first one made it, whatever
  the two requests wanted to write.\<close>

theorem second_transition_conflicts:
  assumes "distinct (map o_id (orders s))" "find_order i s = Some x"
    "can_transition (o_status x) (oc_to c)" "oc_to c \<noteq> o_status x"
  shows "\<exists>t. transition now i (o_status x) c actor nt s = (Inr (), t)
           \<and> transition now' i (o_status x) c' actor' nt' t = (Inl Conflict, t)"
proof -
  have x: "x \<in> set (orders s)" "o_id x = i" using find_order_id [OF assms(2)] by auto
  note win = order_cas.one_winner [OF assms(1) x refl, of c]
  have 1: "cas_count o_id o_status i (o_status x) (orders s) = 1" using win assms(3,4) by simp
  let ?t = "add_history now i (Some (o_status x)) (oc_to c) actor nt
              (s\<lparr>orders := cas_rows o_id o_status i (o_status x) (apply_commit c) (orders s)\<rparr>)"
  have "transition now i (o_status x) c actor nt s = (Inr (), ?t)"
    using 1 by (simp add: transition_def transaction_def transition_body_def cas_order_def ok_def)
  moreover have "cas_count o_id o_status i (o_status x) (orders ?t) = 0" using win assms(3,4) by simp
  then have "transition now' i (o_status x) c' actor' nt' ?t = (Inl Conflict, ?t)"
    by (simp add: transition_def transaction_def transition_body_def cas_order_def raise_def)
  ultimately show ?thesis by blast
qed

theorem second_transition_conflicts_witness:
  "\<exists>t. transition 5000 100 PRICED (commit_to SEARCHING) (Some 1) None demo_quoted = (Inr (), t)
     \<and> transition 5001 100 PRICED (commit_to CANCELLED_BY_CUSTOMER) (Some 1) None t = (Inl Conflict, t)"
proof -
  have "find_order 100 demo_quoted = Some demo_order"
    by (simp add: find_order_def demo_order_row)
  from second_transition_conflicts [OF _ this, of "commit_to SEARCHING" 5000 "Some 1" None 5001
      "commit_to CANCELLED_BY_CUSTOMER" "Some 1" None]
  show ?thesis by (simp add: demo_order_row commit_to_def)
qed

text \<open>The plain updates of \<open>updateDraft\<close>, \<open>diagnose\<close> and \<open>submit\<close> have no such
  guard.  The run below: a draft is created and read by a diagnosis, the customer cancels it, and the
  diagnosis, which has been waiting for the provider, writes.\<close>

definition race_created :: db where
  "race_created = snd (create_draft 1000 1 (Some 10) ''kran oqyapti'' demo_db)"

definition race_cancelled :: db where
  "race_cancelled = snd (cancel 2000 1 100 race_created)"

definition race_diagnosed :: db where
  "race_diagnosed = diagnose_commit 3000 1 demo_draft 10
     \<lparr>ai_summary = ''s'', ai_category = Some 10, ai_slug = None, ai_complexity = MEDIUM,
      ai_confidence = 1, ai_source = ''mock'', ai_version = ''v1''\<rparr>
     (quote_of demo_draft demo_category
        \<lparr>ai_summary = ''s'', ai_category = Some 10, ai_slug = None, ai_complexity = MEDIUM,
         ai_confidence = 1, ai_source = ''mock'', ai_version = ''v1''\<rparr>) race_cancelled"

lemma race_created_state:
  "race_created = demo_db\<lparr>orders := [demo_draft], next_id := 102, next_order_no := 2,
     history := [\<lparr>h_id = 101, h_order = 100, h_from = None, h_to = DRAFT, h_actor = Some 1,
                  h_note = None, h_at = 1000\<rparr>]\<rparr>"
  by (simp add: race_created_def create_draft_def check_def assert_category_def active_category_def
      demo_db_def empty_db_def demo_category_def Let_def add_history_def demo_draft_def ok_def)

lemma race_cancel_step:
  "transition 2000 100 DRAFT ((commit_to CANCELLED_BY_CUSTOMER)\<lparr>oc_cancelled := Some 2000\<rparr>) (Some 1) None
     race_created = (Inr (), race_cancelled)"
  by (simp add: race_cancelled_def cancel_def with_order_def get_owned_def find_order_def race_created_state
      cancel_commit_def transition_def transaction_def transition_body_def cas_order_def cas_count_def
      update_count_def ok_def raise_def Let_def)

lemma race_reachable: "reachable True (race_diagnosed, [demo_draft])"
proof -
  have 1: "sys_step True (demo_db, []) (race_created, [])"
    unfolding race_created_def by (rule sys_step.create [OF surjective_pairing])
  have 2: "sys_step True (race_created, []) (race_created, [demo_draft])"
    by (rule sys_step.read [where i = 100]) (simp add: find_order_def race_created_state)
  have 3: "sys_step True (race_created, [demo_draft]) (race_cancelled, [demo_draft])"
    by (rule sys_step.commit [where x = demo_draft, OF _ _ race_cancel_step [folded demo_draft_row(1,2)]])
      (simp_all add: commit_allowed_def commit_to_def)
  have 4: "sys_step True (race_cancelled, [demo_draft]) (race_diagnosed, [demo_draft])"
    unfolding race_diagnosed_def by (rule sys_step.diagnose) (simp_all add: snaps_def)
  have "(sys_step True)\<^sup>*\<^sup>* (demo_db, []) (race_diagnosed, [demo_draft])"
    by (meson 1 2 3 4 rtranclp.rtrancl_into_rtrancl rtranclp.rtrancl_refl)
  then show ?thesis unfolding reachable_def using demo_no_orders by blast
qed

text \<open>C40: a diagnosis that read the draft before the customer cancelled it and writes afterwards puts
  the cancelled order back to PRICED: with the plain updates of the source, a reachable state holds
  an order that left a terminal status, and its history is no path of the table.\<close>

theorem late_diagnosis_revives_cancelled_order:
  "\<exists>s rs x. reachable True (s, rs) \<and> x \<in> set (orders s) \<and> o_status x = PRICED
     \<and> map h_to (history_of (o_id x) s) = [DRAFT, CANCELLED_BY_CUSTOMER, PRICED]
     \<and> \<not> order_path (map h_to (history_of (o_id x) s))"
proof -
  have c: "race_cancelled = add_history 2000 100 (Some DRAFT) CANCELLED_BY_CUSTOMER (Some 1) None
      (race_created\<lparr>orders := cas_rows o_id o_status 100 DRAFT
         (apply_commit ((commit_to CANCELLED_BY_CUSTOMER)\<lparr>oc_cancelled := Some 2000\<rparr>)) (orders race_created)\<rparr>)"
    using transition_cases [OF race_cancel_step] by (auto simp: commit_to_def)
  let ?x = "hd (orders race_diagnosed)"
  have o: "orders race_diagnosed = [?x]" "o_status ?x = PRICED" "o_id ?x = 100"
    by (simp_all add: race_diagnosed_def diagnose_commit_def c race_created_state cas_rows_def priced_row_def)
  have h: "map h_to (history_of 100 race_diagnosed) = [DRAFT, CANCELLED_BY_CUSTOMER, PRICED]"
    by (simp add: race_diagnosed_def diagnose_commit_def c race_created_state history_of_def add_history_def)
  have "\<not> order_path [DRAFT, CANCELLED_BY_CUSTOMER, PRICED]" by (simp add: order_path_def)
  then show ?thesis
    using race_reachable o h by (intro exI [of _ race_diagnosed] exI [of _ "[demo_draft]"] exI [of _ ?x]) (simp, metis list.set_intros(1))
qed

end
