(* ===== verification/Matching_Properties.thy ===== *)
theory Matching_Properties
  imports Example
begin

text \<open>
  The properties of the quote, of the trust score and of the dispatch cascade: who may be offered an
  order, in which order and with which probability, that the cascade always ends, and that it never
  leaves a searching order without an offer or a verdict.
\<close>

section \<open>The cascade\<close>



lemma announce_tables [simp]:
  "orders (announce_offer ctx ttl d s) = orders s" "dispatches (announce_offer ctx ttl d s) = dispatches s"
  by (simp_all add: announce_offer_def Let_def)

lemma fail_search_expires:
  assumes "find_order i s = Some x" "o_status x = SEARCHING"
  shows "\<exists>t. fail_search now i reason s = (Inr (), t) \<and> dispatches t = dispatches s
           \<and> find_order i t = Some (apply_commit (commit_to EXPIRED) x)"
proof -
  have x: "x \<in> set (orders s)" "o_id x = i" using find_order_id [OF assms(1)] by auto
  have n: "cas_count o_id o_status i SEARCHING (orders s) \<noteq> 0"
    using x assms(2) by (auto simp: cas_count_def update_count_0)
  have w: "find_row (\<lambda>r. o_id r = i) (cas_rows o_id o_status i SEARCHING (apply_commit (commit_to EXPIRED)) (orders s)) =
           Some (apply_commit (commit_to EXPIRED) x)"
    using assms by (intro order_cas.winner_row) (simp_all add: find_order_def)
  show ?thesis
    using assms n w by (simp add: fail_search_def cas_order_def Let_def ok_def find_order_def)
qed

lemma cascade_searching:
  assumes "find_order i s = Some x" "o_status x = SEARCHING" "attempt = 1 \<or> attempt = 2"
  shows "cascade_read ctx i attempt s \<noteq> Stop"
  using assms by (auto simp: cascade_read_def Let_def split: option.splits sum.splits)


definition demo_search :: db where
  "demo_search = submit_commit 4000 1 demo_order demo_quoted"


section \<open>Eligibility and the pick\<close>


definition demo_params :: eligibility_params where
  "demo_params = \<lparr>ep_order = 100, ep_category = 10, ep_tier = 1, ep_today = ''2026-07-21'',
     ep_multiplier = 1, ep_limit = 5\<rparr>"

definition demo_candidate :: candidate where
  "demo_candidate = \<lparr>sc_distance = 1500, sc_rating = fl64 4, sc_jobs = 20, sc_premium = False, ca_master = 2\<rparr>"

lemma demo_matching: "matching_candidates (\<lambda>_ _. 1500) 4000 demo_params demo_located = [demo_candidate]"
  if "demo_located = demo_db\<lparr>orders := [edit_row demo_edit demo_draft]\<rparr>"
proof -
  have f: "fl64 (of_int 50000) = 50000" "fl64 (of_int 5000) = 5000" "round_even (of_int 1500) = 1500"
    by (simp_all add: fl64_int del: of_int_numeral)
  show ?thesis
    using f that
    by (simp add: matching_candidates_def order_location_def demo_params_def edit_row_def demo_edit_def
        or_keep_def or_keep_some_def numeric6_def demo_db_def empty_db_def demo_master_def demo_user_def
        demo_area_def area_distances_def eligible_master_def busy_master_def candidate_of_def
        premium_at_def demo_candidate_def service_area_max_radius_m_def round_even_def demo_draft_def)
qed

lemma demo_eligible:
  "find_eligible_candidates (\<lambda>_ _. 1500) 4000 demo_params
     (demo_db\<lparr>orders := [edit_row demo_edit demo_draft]\<rparr>) = [demo_candidate]"
  by (simp add: find_eligible_candidates_def demo_matching) (simp add: demo_params_def)






text \<open>C24: scores of doubles lie between 0 and 1, or up to the rounded 1.1 for a premium master, and a
  closer, better rated, more experienced or newly premium master never scores lower.\<close>

theorem score_bounded_and_monotone:
  assumes "sc_distance d \<le> sc_distance c" "sc_rating c \<le> sc_rating d" "sc_jobs c \<le> sc_jobs d"
    "sc_premium c = True \<Longrightarrow> sc_premium d"
  shows "score_candidate c \<le> score_candidate d \<and> 0 \<le> score_candidate c
    \<and> score_candidate d \<le> (if sc_premium d then fl64 (1 + fl64 (1 / 10)) else 1)"
  using double.score_mono [OF assms(1-3)] assms(4) double.score_nonneg [of c] double.score_le [of d]
  by (simp add: score_candidate_def score_base_top split: if_splits)

theorem score_bounded_and_monotone_witness:
  "score_candidate \<lparr>sc_distance = 3000, sc_rating = 4, sc_jobs = 10, sc_premium = False\<rparr>
   \<le> score_candidate \<lparr>sc_distance = 1500, sc_rating = 5, sc_jobs = 10, sc_premium = True\<rparr>"
  using score_bounded_and_monotone
    [of "\<lparr>sc_distance = 1500, sc_rating = 5, sc_jobs = 10, sc_premium = True\<rparr>"
        "\<lparr>sc_distance = 3000, sc_rating = 4, sc_jobs = 10, sc_premium = False\<rparr>"] by simp

section \<open>Quotes\<close>

text \<open>C25: every quote the code computes, whatever the base prices, starts at 30000 or above, spans at
  least one step of 5000, has both ends on a multiple of the step and a fee between 0 and 30000.\<close>

theorem quote_is_well_formed:
  "let q = compute_quote base_min base_max cx tier
   in 30000 \<le> q_min q \<and> q_min q + 5000 \<le> q_max q \<and> 5000 dvd q_min q \<and> 5000 dvd q_max q
      \<and> 0 \<le> q_fee q \<and> q_fee q \<le> 30000"
  using quote_bounds [of fl64 base_min base_max cx tier] by (simp add: compute_quote_def Let_def)

text \<open>In doubles as in exact arithmetic, dearer base prices, a harder job or a faster tier never
  lower either end of the quote or the fee.\<close>

theorem quote_monotone:
  assumes "0 \<le> b" "b \<le> b'" "0 \<le> c" "c \<le> c'" "cx \<le> cx'" "t \<le> t'"
  shows "q_min (compute_quote b c cx t) \<le> q_min (compute_quote b' c' cx' t')
    \<and> q_max (compute_quote b c cx t) \<le> q_max (compute_quote b' c' cx' t')
    \<and> q_fee (compute_quote b c cx t) \<le> q_fee (compute_quote b' c' cx' t')"
  using double.quote_mono [OF assms] by (simp add: compute_quote_def)

theorem quote_monotone_witness:
  "q_min (compute_quote 100000 200000 SIMPLE SCHEDULED) \<le> q_min (compute_quote 120000 200000 COMPLEX EMERGENCY)"
  using quote_monotone [of 100000 120000 200000 200000 SIMPLE COMPLEX SCHEDULED EMERGENCY]
  by (simp add: less_eq_complexity_def less_eq_service_tier_def)

text \<open>C26: for base prices up to a billion, the rounding of doubles moves either end of a quote by at
  most one step of 5000 from the quote in exact arithmetic.\<close>

theorem quote_near_exact:
  assumes "0 \<le> b" "b \<le> 1000000000" "0 \<le> c" "c \<le> 1000000000"
  shows "\<bar>q_min (compute_quote b c cx t) - q_min (exact_quote b c cx t)\<bar> \<le> 5000
       \<and> \<bar>q_max (compute_quote b c cx t) - q_max (exact_quote b c cx t)\<bar> \<le> 5000"
  using double.quote_error [OF assms] by (simp add: compute_quote_def exact_quote_def)

theorem quote_near_exact_witness:
  "\<bar>q_min (compute_quote 100000 200000 MEDIUM PRIORITY) - q_min (exact_quote 100000 200000 MEDIUM PRIORITY)\<bar> \<le> 5000"
  using quote_near_exact [of 100000 200000 MEDIUM PRIORITY] by simp

text \<open>The step is really lost: a medium priority job of base price 100000 costs exactly 115000, a
  multiple of the step, and the code quotes from 110000, because the product in doubles falls just
  below; the upper end of a critical job of base price 100000 is exactly 220000 and quoted 225000.\<close>

theorem quote_loses_a_step:
  "q_min (exact_quote 100000 100000 MEDIUM PRIORITY) = 115000
   \<and> q_min (compute_quote 100000 100000 MEDIUM PRIORITY) = 110000
   \<and> q_max (exact_quote 90000 100000 CRITICAL SCHEDULED) = 220000
   \<and> q_max (compute_quote 90000 100000 CRITICAL SCHEDULED) = 225000"
  by (intro conjI; code_simp)

section \<open>Trust\<close>

text \<open>Recording a penalty stores one record with the points of its rule and recomputes the tier from
  the reduced score: the stored tier of that master is never above the tier before the event, and
  stays within 0 and 3; no other master is touched.\<close>

theorem penalty_never_raises_a_tier:
  assumes "record_event now m ev ord nt s = (Inr p, t)" "compute_trust_score now m s = Inr before"
    "x \<in> set (masters t)"
  shows "penalties t = penalties s @ [p] \<and> pn_points p = penalty_points_of ev
    \<and> (if m_user x = m then m_trust_tier x \<le> tr_tier before \<and> 0 \<le> m_trust_tier x \<and> m_trust_tier x \<le> 3
       else x \<in> set (masters s))"
proof -
  obtain r s2 where p: "p = new_penalty now (next_id s) m ev ord nt"
    and r: "recompute_trust_tier now m (insert_penalty p s) = (Inr r, s2)"
    and t: "t = notify now m PENALTY_ISSUED [(''penaltyRecordId'', JInt (int (pn_id p))),
                      (''eventType'', JStr (penalty_event_name ev))] s2"
    using assms(1) by (rule record_event_cases)
  note c = recompute_cases [OF r]
  have "\<exists>r0. compute_trust_score now m s = Inr r0 \<and> tr_score r \<le> tr_score r0 \<and> tr_tier r \<le> tr_tier r0"
    by (rule compute_after_penalty [OF c(1)]) (simp_all add: p new_penalty_def penalty_points_pos(1) less_imp_le)
  then have "tr_tier r \<le> tr_tier before" using assms(2) by simp
  moreover have "x \<in> set (update_rows (\<lambda>x. m_user x = m) (\<lambda>x. x\<lparr>m_trust_tier := tr_tier r\<rparr>) (masters s))"
    using assms(3) by (simp add: t c(2))
  ultimately show ?thesis
    using record_event_frame(7) [OF assms(1)] compute_trust_bounds [OF c(1)] p
    by (auto simp: set_update_rows new_penalty_def split: if_splits)
qed

lemma demo_event: "\<exists>p t. record_event 5000 2 NO_SHOW None None demo_db = (Inr p, t) \<and> map m_user (masters t) = [2]"
proof -
  have f: "find_row (\<lambda>r. m_user r = 2) (masters (insert_penalty p demo_db)) = Some (demo_master 2)" for p
    by (simp add: demo_db_def demo_master_def)
  obtain r where "compute_trust_score 5000 2 (insert_penalty (new_penalty 5000 (next_id demo_db) 2 NO_SHOW None None) demo_db) = Inr r"
    using compute_trust_found [OF f] by blast
  then show ?thesis
    by (simp add: record_event_def recompute_trust_tier_def Let_def ok_def)
      (simp add: demo_db_def demo_master_def)
qed

theorem penalty_never_raises_a_tier_witness:
  "\<exists>p t x before. compute_trust_score 5000 2 demo_db = Inr before \<and>
     record_event 5000 2 NO_SHOW None None demo_db = (Inr p, t) \<and> x \<in> set (masters t) \<and>
     m_trust_tier x \<le> tr_tier before"
proof -
  have f: "find_row (\<lambda>r. m_user r = 2) (masters demo_db) = Some (demo_master 2)"
    by (simp add: demo_db_def demo_master_def)
  obtain before where b: "compute_trust_score 5000 2 demo_db = Inr before" using compute_trust_found [OF f] by blast
  obtain p t where t: "record_event 5000 2 NO_SHOW None None demo_db = (Inr p, t)" "map m_user (masters t) = [2]"
    using demo_event by (elim exE conjE)
  then obtain x where x: "masters t = [x]" "m_user x = 2" by (auto simp: map_eq_Cons_conv)
  have "x \<in> set (masters t)" using x(1) by simp
  from penalty_never_raises_a_tier [OF t(1) b this] have "m_trust_tier x \<le> tr_tier before" using x(2) by simp
  then show ?thesis using b t(1) x(1) by (intro exI [of _ p] exI [of _ t] exI [of _ x] exI [of _ before]) simp
qed

text \<open>The score is between 0 and 100 and its tier between 0 and 3; a master with more jobs, a better
  rating, a better response rate, fewer cancellations, fewer points or a verification never has a
  lower score or tier; points beyond 20 cost nothing more.\<close>

theorem trust_score_monotone:
  assumes "tf_jobs f \<le> tf_jobs g" "tf_rating f \<le> tf_rating g" "tf_response f \<le> tf_response g"
    "tf_cancellation g \<le> tf_cancellation f" "min 20 (tf_points g) \<le> min 20 (tf_points f)"
    "tf_verification f = V_VERIFIED \<Longrightarrow> tf_verification g = V_VERIFIED"
  shows "0 \<le> trust_score fl64 f \<and> trust_score fl64 f \<le> trust_score fl64 g \<and> trust_score fl64 g \<le> 100
    \<and> 0 \<le> score_to_tier (trust_score fl64 f)
    \<and> score_to_tier (trust_score fl64 f) \<le> score_to_tier (trust_score fl64 g)
    \<and> score_to_tier (trust_score fl64 g) \<le> 3"
proof -
  have cap: "trust_score fl64 h = trust_score fl64 (h\<lparr>tf_points := min 20 (tf_points h)\<rparr>)" for h
    by (simp add: trust_score_def trust_raw_def Let_def max_penalty_deduction_def)
  have "trust_score fl64 (f\<lparr>tf_points := min 20 (tf_points f)\<rparr>) \<le> trust_score fl64 (g\<lparr>tf_points := min 20 (tf_points g)\<rparr>)"
    by (rule double.trust_score_mono) (use assms in simp_all)
  then have "trust_score fl64 f \<le> trust_score fl64 g" by (simp only: cap [symmetric])
  then show ?thesis using score_to_tier_mono trust_score_bounds score_to_tier_bounds by blast
qed

theorem trust_score_monotone_witness:
  "trust_score fl64 \<lparr>tf_jobs = 3, tf_rating = 4, tf_cancellation = 0, tf_response = 1,
     tf_verification = V_PENDING, tf_points = 25\<rparr>
   \<le> trust_score fl64 \<lparr>tf_jobs = 30, tf_rating = 5, tf_cancellation = 0, tf_response = 1,
     tf_verification = V_VERIFIED, tf_points = 40\<rparr>"
  using trust_score_monotone
    [of "\<lparr>tf_jobs = 3, tf_rating = 4, tf_cancellation = 0, tf_response = 1,
          tf_verification = V_PENDING, tf_points = 25\<rparr>"
        "\<lparr>tf_jobs = 30, tf_rating = 5, tf_cancellation = 0, tf_response = 1,
          tf_verification = V_VERIFIED, tf_points = 40\<rparr>"] by simp

end
