(* ===== verification/Access_Properties.thy ===== *)
theory Access_Properties
  imports Example
begin

text \<open>
  The properties of what the endpoints accept and show: uploads, booking slots, the data of an
  order that each side may see, notifications and the pages of the lists.
\<close>

section \<open>Uploads\<close>

lemma save_media_cases:
  assumes "save_media_file e x n buffer mime who s = (Inr (), t)"
  shows "n < ORDER_MAX_MEDIA e \<and> (photo_ext mime \<noteq> None \<or> video_ext mime \<noteq> None)
    \<and> matches_magic_bytes buffer mime = Inr True
    \<and> of_nat (length buffer) \<le> (if photo_ext mime \<noteq> None then UPLOAD_MAX_PHOTO_MB e else UPLOAD_MAX_VIDEO_MB e) * 1024 * 1024
    \<and> (\<exists>m. media t = media s @ [m] \<and> md_order m = o_id x \<and> md_role m = who \<and> md_size m = length buffer
           \<and> md_kind m = (if photo_ext mime \<noteq> None then PHOTO else VIDEO)
           \<and> (md_key m, buffer) \<in> set (files t))"
  using assms by (auto simp: save_media_file_def Let_def split: if_splits sum.splits)


definition png_bytes :: "byte list" where
  "png_bytes = [0x89, 0x50, 0x4e, 0x47, 0x0d, 0x0a, 0x1a, 0x0a, 0, 0]"

lemma png_ok: "matches_magic_bytes png_bytes ''image/png'' = Inr True"
  by code_simp


text \<open>A file declared with a type that is not on the list but is the name of something every object
  inherits (\<open>constructor\<close>) passes both the list and the signature check, whatever its bytes are, and
  is stored as a photo of the order.\<close>

theorem inherited_type_is_accepted:
  assumes "find_order i s = Some x" "o_customer x = customer" "o_status x = DRAFT \<or> o_status x = PRICED"
    "length (order_media_of i s) < ORDER_MAX_MEDIA e"
    "of_nat (length buffer) \<le> UPLOAD_MAX_PHOTO_MB e * 1024 * 1024"
  shows "\<exists>t m. add_media e customer i buffer ''constructor'' s = (Inr (), t) \<and> media t = media s @ [m]
    \<and> md_order m = i \<and> md_kind m = PHOTO \<and> (md_key m, buffer) \<in> set (files t)"
proof -
  have "o_id x = i" using find_order_id [OF assms(1)] by simp
  moreover have "photo_ext ''constructor'' = Some ''function Object() { [native code] }''"
    "matches_magic_bytes buffer ''constructor'' = Inr True"
    by (simp_all add: photo_ext_def matches_magic_bytes_def js_lookup_def signatures_def inherited_keys_def
        inherited_check_def inherited_text_def)
  ultimately show ?thesis
    using assms
    by (auto simp: add_media_def with_order_def get_owned_def editable_statuses_def save_media_file_def Let_def ok_def)
qed

theorem inherited_type_is_accepted_witness:
  "\<exists>t m. add_media demo_env 1 100 [0x3c, 0x68, 0x74, 0x6d, 0x6c, 0x3e] ''constructor'' demo_quoted = (Inr (), t)
    \<and> media t = media demo_quoted @ [m] \<and> md_kind m = PHOTO"
proof -
  have o: "find_order 100 demo_quoted = Some demo_order" "o_customer demo_order = 1"
    by (simp add: find_order_def demo_order_row, simp add: demo_order_def priced_row_def edit_row_def)
  have m: "order_media_of 100 demo_quoted = []"
    by (simp add: order_media_of_def demo_quoted_media)
  show ?thesis
    using inherited_type_is_accepted [OF o, of demo_env "[0x3c, 0x68, 0x74, 0x6d, 0x6c, 0x3e]"] m
    by (auto simp: demo_order_row demo_env_def env_default_def)
qed

text \<open>Deleting media asks only for ownership of the order: in whatever status the order is, and
  whoever uploaded the file, the customer's delete removes the row and the stored bytes, the
  master's photos of a completed or closed job included.\<close>

theorem delete_media_ignores_status_and_uploader:
  assumes "find_order i s = Some x" "m \<in> set (media s)" "md_order m = i" "distinct (map md_id (media s))"
  shows "\<exists>t. delete_media (o_customer x) i (md_id m) s = (Inr (), t) \<and> m \<notin> set (media t)
    \<and> md_key m \<notin> fst ` set (files t) \<and> orders t = orders s"
proof -
  have "distinct (map md_id (order_media_of i s))"
    using assms(4) by (simp add: order_media_of_def distinct_map_filter)
  then have "find_row (\<lambda>r. md_id r = md_id m) (order_media_of i s) = Some m"
    by (rule find_row_key) (simp add: order_media_of_def assms(2,3))
  then show ?thesis
    using assms(1)
    by (auto simp: delete_media_def with_order_def get_owned_def ok_def)
qed

definition closed_with_photo :: db where
  "closed_with_photo = demo_db\<lparr>
     orders := [demo_draft\<lparr>o_status := CLOSED, o_master := Some 2\<rparr>],
     media := [\<lparr>md_id = 7, md_order = 100, md_kind = PHOTO, md_role = By_Master, md_key = Object_Key 6 ''.png'',
                md_mime = ''image/png'', md_size = 10\<rparr>]\<rparr>"

theorem delete_media_ignores_status_and_uploader_witness:
  "\<exists>t. delete_media 1 100 7 closed_with_photo = (Inr (), t)"
proof -
  let ?x = "demo_draft\<lparr>o_status := CLOSED, o_master := Some 2\<rparr>"
  let ?m = "hd (media closed_with_photo)"
  have f: "find_order 100 closed_with_photo = Some ?x" by (simp add: closed_with_photo_def find_order_def)
  have m: "?m \<in> set (media closed_with_photo)" "md_order ?m = 100" "distinct (map md_id (media closed_with_photo))"
    "md_id ?m = 7" by (simp_all add: closed_with_photo_def)
  from delete_media_ignores_status_and_uploader [OF f m(1-3)] show ?thesis using m(4) by auto
qed

section \<open>Booking\<close>

text \<open>A time is accepted for a booking exactly when it lies in the future, at most fourteen days
  ahead, and on one of the four slots 09:00, 11:00, 14:00, 16:00 in Tashkent's time.\<close>

theorem schedulable_iff_open_slot:
  "assert_schedulable now t = None \<longleftrightarrow>
   now < t \<and> t \<le> now + 14 * 86400000 \<and> slot_minutes t \<in> {540, 660, 840, 960}"
  by (auto simp: assert_schedulable_def order_max_days_ahead_def slot_open_iff split: if_splits)

section \<open>Contact data\<close>

lemma to_dto_contacts:
  "dto_master (to_dto x s) = (case o_master x of None \<Rightarrow> None | Some m \<Rightarrow> master_dto m s)"
  "dto_customer (to_dto x s) = (case o_master x of None \<Rightarrow> None | Some _ \<Rightarrow> Some (customer_dto (o_customer x) s))"
  by (simp_all add: to_dto_def)



section \<open>Notifications and pages\<close>

text \<open>Marking a notification read is idempotent and private: a second call returns the same row with
  the first reading time and changes nothing, a foreign user is refused, and the unread count drops
  by exactly one when the row was unread.\<close>

theorem mark_read_once:
  assumes "mark_read now user nid s = (Inr n, t)" "distinct (map n_id (notifications s))"
    "r \<in> set (notifications s)" "n_id r = nid" "n_read r = None"
  shows "mark_read now' user nid t = (Inr n, t) \<and> n_user r = user \<and> unread_count user t + 1 = unread_count user s"
proof -
  have f: "find_row (\<lambda>n. n_id n = nid) (notifications s) = Some r"
    using find_row_key [OF assms(2,3)] assms(4) by simp
  then have u: "n_user r = user" using assms(1) by (auto simp: mark_read_def split: if_splits)
  show ?thesis
    using mark_read_idempotent [OF assms(1)] mark_read_unread_count [OF assms(2-4) u assms(5,1)] u by simp
qed

theorem mark_read_once_witness:
  "unread_count 1 (snd (mark_read 5 1 100 (notify 3 1 ORDER_ASSIGNED [] empty_db))) = 0"
proof -
  let ?s = "notify 3 1 ORDER_ASSIGNED [] empty_db"
  have n: "notifications ?s = [\<lparr>n_id = 100, n_user = 1, n_type = ORDER_ASSIGNED, n_data = [], n_read = None, n_at = 3\<rparr>]"
    by (simp add: notify_notifications empty_db_def)
  have "\<exists>x t. mark_read 5 1 100 ?s = (Inr x, t)" by (simp add: mark_read_def n ok_def del: One_nat_def)
  then obtain x t where t: "mark_read 5 1 100 ?s = (Inr x, t)" by blast
  from mark_read_once [OF t, of "hd (notifications ?s)" 9] show ?thesis
    by (simp add: n t unread_count_def del: One_nat_def)
qed

text \<open>C39: following the cursors of a list endpoint to the end does not show the list: the cursor is the
  id of the first row that did not fit, and the next page starts after that row, so of every 21 rows
  the last one is on no page.\<close>

theorem cursors_skip_every_21st_row:
  assumes "distinct (map key rows)" "length rows < fuel * 21"
  shows "concat (pages fuel key 20 None rows) = nths rows {i. i mod 21 \<noteq> 20}"
  using pages_seen [OF assms(1), of fuel 20] seen_nths [of rows fuel 20] assms(2) by simp

theorem cursors_skip_every_21st_row_witness:
  "concat (pages 2 (\<lambda>n. n) 20 None [0..<22 :: nat]) = [0..<20] @ [21]"
proof -
  have "concat (pages 2 (\<lambda>n. n) 20 None [0..<22 :: nat]) = nths [0..<22] {i. i mod 21 \<noteq> 20}"
    by (rule cursors_skip_every_21st_row) simp_all
  also have "\<dots> = [0..<20] @ [21]" by (simp add: nths_Cons upt_rec)
  finally show ?thesis .
qed

end
