(* ===== verification/Tax.thy ===== *)
theory Tax
  imports Config Schema
begin

text \<open>
  Tax withholding, \<open>modules/tax\<close>.  The interface \<open>TaxProvider\<close> is the locale
  \<open>withholding\<close>; both providers of the source compute the same amounts and differ in
  \<open>recordWithholding\<close>, which the placeholder for the tax committee refuses.
  Every configuration that passes the start-up check satisfies the interface.
\<close>

section \<open>The interface\<close>

record tax_withholding =
  tw_rate :: rat
  tw_tax :: int
  tw_net :: int
  tw_gross :: int

locale withholding =
  fixes compute :: "int \<Rightarrow> tax_withholding"
  assumes gross: "tw_gross (compute g) = g"
    and split_exact: "tw_tax (compute g) + tw_net (compute g) = g"
    and tax_range: "0 \<le> g \<Longrightarrow> g \<le> 2 ^ 53 \<Longrightarrow> 0 \<le> tw_tax (compute g) \<and> tw_tax (compute g) \<le> g"
begin

lemma net_range: "0 \<le> g \<Longrightarrow> g \<le> 2 ^ 53 \<Longrightarrow> 0 \<le> tw_net (compute g) \<and> tw_net (compute g) \<le> g"
  using split_exact [of g] tax_range [of g] by auto

text \<open>What the customer pays is the fee, the tax and what the master gets, whatever the amounts.\<close>

lemma amount_split: "amount = fee + tw_tax (compute (amount - fee)) + tw_net (compute (amount - fee))"
  using split_exact [of "amount - fee"] by simp

lemma nothing_withheld_twice: "tw_net (compute g) = g - tw_tax (compute g)"
  using split_exact [of g] by simp

end

section \<open>The providers\<close>

definition compute_withholding :: "rat \<Rightarrow> int \<Rightarrow> tax_withholding" where
  "compute_withholding rate gross =
     (let tax = js_round (fl64 (of_int gross * rate))
      in \<lparr>tw_rate = rate, tw_tax = tax, tw_net = gross - tax, tw_gross = gross\<rparr>)"

fun record_withholding :: "tax_choice \<Rightarrow> db \<Rightarrow> (unit, db) outcome" where
  "record_withholding Tax_Mock s = ok () s"
| "record_withholding Tax_Soliq s = raise InternalError s"

lemma withholding_range:
  assumes "0 \<le> rate" "rate \<le> 1" "0 \<le> g" "g \<le> 2 ^ 53"
  shows "0 \<le> js_round (fl64 (of_int g * rate)) \<and> js_round (fl64 (of_int g * rate)) \<le> g"
proof -
  have "of_int g * rate \<le> (of_int g :: rat)" using assms(2,3) by (simp add: mult_left_le)
  then have "fl64 (of_int g * rate) \<le> of_int g" using assms(3,4) by (intro double.fl_le_int) auto
  moreover have "0 \<le> fl64 (of_int g * rate)" using assms(1,3) by (intro double.fl_nonneg) simp
  ultimately show ?thesis using js_round_mono [of 0] js_round_mono [of _ "of_int g"] by fastforce
qed

lemma compute_withholding_simps [simp]:
  "tw_rate (compute_withholding r g) = r" "tw_tax (compute_withholding r g) = js_round (fl64 (of_int g * r))"
  "tw_net (compute_withholding r g) = g - js_round (fl64 (of_int g * r))" "tw_gross (compute_withholding r g) = g"
  by (simp_all add: compute_withholding_def Let_def)

text \<open>A configuration that was accepted at start-up provides the interface.\<close>

locale accepted_env =
  fixes is_url :: "string \<Rightarrow> bool"
    and e :: env
  assumes accepted: "load_env is_url e = Some e"
begin

lemma rate_unit: "0 \<le> TAX_WITHHOLDING_RATE e \<and> TAX_WITHHOLDING_RATE e \<le> 1"
  using load_env_valid [OF accepted] by (simp add: env_valid_def)

end

sublocale accepted_env \<subseteq> tax: withholding "compute_withholding (TAX_WITHHOLDING_RATE e)"
  by unfold_locales (use rate_unit withholding_range [of "TAX_WITHHOLDING_RATE e"] in simp_all)

context accepted_env
begin

text \<open>What is left of an amount after a fee it covers is divided without a remainder or a negative part.\<close>

lemma split_bounds:
  assumes "0 \<le> fee" "fee \<le> amount" "amount \<le> 2 ^ 53"
  defines "w \<equiv> compute_withholding (TAX_WITHHOLDING_RATE e) (amount - fee)"
  shows "amount = fee + tw_tax w + tw_net w" "0 \<le> tw_tax w" "tw_tax w \<le> amount - fee"
    "0 \<le> tw_net w" "tw_net w \<le> amount - fee"
  using tax.tax_range [of "amount - fee"] tax.net_range [of "amount - fee"] tax.amount_split [of amount fee]
    assms(1-3) unfolding w_def by simp_all

end

interpretation zero_tax: withholding "compute_withholding 0"
  by unfold_locales simp_all

end
