(* ===== verification/Referrals.thy ===== *)
theory Referrals
  imports Notifications "HOL-Library.Multiset"
begin

text \<open>
  \<open>modules/referrals/referrals.service.ts\<close>: who brought whom, and the cashback paid once for
  it.  \<open>reward_commit\<close> is the guarded write of \<open>rewardOnFirstPayment\<close> with the row it read
  as an argument, so that it also describes a call that raced another one; the interpretation
  \<open>referral_cas\<close> makes it pay at most once.  The books balance: the cashback of a user is
  20000 for each rewarded referral.
\<close>

section \<open>Operations\<close>

definition referral_reward_amount :: int where
  "referral_reward_amount = 20000"

definition record_signup :: "time \<Rightarrow> id \<Rightarrow> string option \<Rightarrow> db \<Rightarrow> db" where
  "record_signup now referee code s =
     (case code of
        None \<Rightarrow> s
      | Some k \<Rightarrow>
          if k = [] then s
          else case find_row (\<lambda>u. u_referral_code u = k) (users s) of
            None \<Rightarrow> s
          | Some u \<Rightarrow>
              if u_id u = referee then s
              else if \<exists>r \<in> set (referrals s). rf_referee r = referee then s
              else s\<lparr>referrals := referrals s @ [\<lparr>rf_id = next_id s, rf_referrer = u_id u, rf_referee = referee,
                        rf_status = R_PENDING, rf_rewarded_at = None, rf_at = now\<rparr>],
                     next_id := next_id s + 1\<rparr>)"

definition activate_on_verify :: "id \<Rightarrow> db \<Rightarrow> db" where
  "activate_on_verify referee s =
     s\<lparr>referrals := update_rows (\<lambda>r. rf_referee r = referee \<and> rf_status r = R_PENDING)
                      (\<lambda>r. r\<lparr>rf_status := R_ACTIVE\<rparr>) (referrals s)\<rparr>"

definition apply_reward :: "time \<Rightarrow> referral_row \<Rightarrow> referral_row" where
  "apply_reward now r = r\<lparr>rf_status := R_REWARDED, rf_rewarded_at := Some now\<rparr>"

lemma apply_reward_simps [simp]:
  "rf_id (apply_reward now r) = rf_id r" "rf_status (apply_reward now r) = R_REWARDED"
  "rf_referrer (apply_reward now r) = rf_referrer r" "rf_referee (apply_reward now r) = rf_referee r"
  by (simp_all add: apply_reward_def)

interpretation referral_cas: guarded_update rf_id rf_status apply_reward "\<lambda>_ old. old = R_ACTIVE"
  by unfold_locales simp_all

definition reward_commit :: "time \<Rightarrow> referral_row \<Rightarrow> db \<Rightarrow> (id option, db) outcome" where
  "reward_commit now r s =
     (let n = cas_count rf_id rf_status (rf_id r) R_ACTIVE (referrals s);
          s1 = s\<lparr>referrals := cas_rows rf_id rf_status (rf_id r) R_ACTIVE (apply_reward now) (referrals s)\<rparr>
      in if n \<noteq> 1 then ok None s1
         else ok (Some (rf_referrer r))
                (s1\<lparr>cashbacks := cashbacks s1 @ [\<lparr>cb_id = next_id s1, cb_user = rf_referrer r,
                       cb_amount = referral_reward_amount, cb_source = REFERRAL_REWARD, cb_status = ELIGIBLE,
                       cb_referral = Some (rf_id r), cb_at = now\<rparr>],
                    next_id := next_id s1 + 1\<rparr>))"

definition reward_on_first_payment :: "time \<Rightarrow> id \<Rightarrow> db \<Rightarrow> (id option, db) outcome" where
  "reward_on_first_payment now referee s =
     (case find_row (\<lambda>r. rf_referee r = referee) (referrals s) of
        None \<Rightarrow> ok None s
      | Some r \<Rightarrow> if rf_status r \<noteq> R_ACTIVE then ok None s else reward_commit now r s)"

section \<open>Summary\<close>

definition mask_phone :: "string \<Rightarrow> string" where
  "mask_phone phone =
     (if length phone < 6 then phone else take 6 phone @ ''***'' @ drop (length phone - 2) phone)"

record referral_dto =
  rd_id :: id
  rd_referee :: id
  rd_phone :: string
  rd_status :: referral_status
  rd_rewarded :: "time option"
  rd_created :: time

record cashback_dto =
  cd_id :: id
  cd_amount :: int
  cd_source :: cashback_source
  cd_status :: cashback_status
  cd_created :: time

record referral_summary =
  rs_code :: string
  rs_referred :: nat
  rs_rewarded :: nat
  rs_earned :: int
  rs_referrals :: "referral_dto list"
  rs_cashbacks :: "cashback_dto list"

definition user_phone :: "id \<Rightarrow> db \<Rightarrow> string" where
  "user_phone u s = (case find_row (\<lambda>r. u_id r = u) (users s) of None \<Rightarrow> [] | Some r \<Rightarrow> u_phone r)"

definition referral_to_dto :: "db \<Rightarrow> referral_row \<Rightarrow> referral_dto" where
  "referral_to_dto s r = \<lparr>rd_id = rf_id r, rd_referee = rf_referee r,
     rd_phone = mask_phone (user_phone (rf_referee r) s), rd_status = rf_status r,
     rd_rewarded = rf_rewarded_at r, rd_created = rf_at r\<rparr>"

definition cashback_to_dto :: "cashback_row \<Rightarrow> cashback_dto" where
  "cashback_to_dto c = \<lparr>cd_id = cb_id c, cd_amount = cb_amount c, cd_source = cb_source c,
     cd_status = cb_status c, cd_created = cb_at c\<rparr>"

definition get_summary :: "id \<Rightarrow> db \<Rightarrow> referral_summary result" where
  "get_summary user s =
     (case find_row (\<lambda>u. u_id u = user) (users s) of
        None \<Rightarrow> Inl NotFound
      | Some u \<Rightarrow>
          let mine = newest_first rf_at (filter (\<lambda>r. rf_referrer r = user) (referrals s));
              earned = newest_first cb_at (filter (\<lambda>c. cb_user c = user) (cashbacks s))
          in Inr \<lparr>rs_code = u_referral_code u,
                  rs_referred = length mine,
                  rs_rewarded = length (filter (\<lambda>r. rf_status r = R_REWARDED) mine),
                  rs_earned = foldl (\<lambda>sum c. sum + cb_amount c) 0 earned,
                  rs_referrals = map (referral_to_dto s) mine,
                  rs_cashbacks = map cashback_to_dto earned\<rparr>)"

section \<open>The books\<close>

definition referral_keys :: "db \<Rightarrow> bool" where
  "referral_keys s = (distinct (map rf_id (referrals s)) \<and> distinct (map rf_referee (referrals s))
     \<and> (\<forall>i \<in> set (map rf_id (referrals s)). i < next_id s)
     \<and> list_all (\<lambda>r. rf_referrer r \<noteq> rf_referee r) (referrals s))"

definition rewarded_of :: "id \<Rightarrow> db \<Rightarrow> nat" where
  "rewarded_of u s = count_rows (\<lambda>r. rf_referrer r = u \<and> rf_status r = R_REWARDED) (referrals s)"

definition cashback_of :: "id \<Rightarrow> db \<Rightarrow> int" where
  "cashback_of u s = sum_rows (\<lambda>c. cb_user c = u) cb_amount (cashbacks s)"

definition books_balance :: "db \<Rightarrow> bool" where
  "books_balance s = (\<forall>u. cashback_of u s = referral_reward_amount * int (rewarded_of u s))"

lemma signup_keys: "referral_keys s \<Longrightarrow> referral_keys (record_signup now c k s)"
  by (auto simp: record_signup_def referral_keys_def split: option.splits)

lemma signup_books: "books_balance s \<Longrightarrow> books_balance (record_signup now c k s)"
  by (auto simp: record_signup_def books_balance_def cashback_of_def rewarded_of_def split: option.splits)

lemma activate_keys: "referral_keys s \<Longrightarrow> referral_keys (activate_on_verify c s)"
proof -
  assume k: "referral_keys s"
  let ?u = "update_rows (\<lambda>r. rf_referee r = c \<and> rf_status r = R_PENDING) (\<lambda>r. r\<lparr>rf_status := R_ACTIVE\<rparr>) (referrals s)"
  have "map rf_id ?u = map rf_id (referrals s)" "map rf_referee ?u = map rf_referee (referrals s)"
    by (rule map_key_update_rows, simp)+
  moreover have "list_all (\<lambda>r. rf_referrer r \<noteq> rf_referee r) ?u"
    using k by (auto simp: referral_keys_def list_all_iff set_update_rows)
  ultimately show ?thesis using k by (simp add: referral_keys_def activate_on_verify_def del: set_map)
qed

lemma count_rows_update_same:
  "(\<And>r. r \<in> set t \<Longrightarrow> P r \<Longrightarrow> Q (f r) = Q r) \<Longrightarrow> count_rows Q (update_rows P f t) = count_rows Q t"
  by (induction t) auto

lemma activate_books: "books_balance s \<Longrightarrow> books_balance (activate_on_verify c s)"
proof -
  have "rewarded_of u (activate_on_verify c s) = rewarded_of u s" for u
  proof -
    have "referrals (activate_on_verify c s) =
        update_rows (\<lambda>r. rf_referee r = c \<and> rf_status r = R_PENDING) (\<lambda>r. r\<lparr>rf_status := R_ACTIVE\<rparr>) (referrals s)"
      by (simp add: activate_on_verify_def)
    then show ?thesis unfolding rewarded_of_def by (simp only:) (rule count_rows_update_same, auto)
  qed
  moreover have "cashback_of u (activate_on_verify c s) = cashback_of u s" for u
    by (simp add: cashback_of_def activate_on_verify_def)
  ultimately show "books_balance s \<Longrightarrow> books_balance (activate_on_verify c s)" by (simp add: books_balance_def)
qed

text \<open>A guarded reward moves exactly one referral of the referrer to REWARDED.\<close>

lemma cas_reward_count:
  assumes "distinct (map rf_id t)" "r \<in> set t" "rf_status r = R_ACTIVE"
  shows "count_rows (\<lambda>x. rf_referrer x = u \<and> rf_status x = R_REWARDED)
           (cas_rows rf_id rf_status (rf_id r) R_ACTIVE (apply_reward now) t) =
         count_rows (\<lambda>x. rf_referrer x = u \<and> rf_status x = R_REWARDED) t + (if rf_referrer r = u then 1 else 0)"
  using assms
proof (induction t)
  case (Cons x t)
  show ?case
  proof (cases "x = r")
    case True
    then have "\<forall>y \<in> set t. \<not> (rf_id y = rf_id r \<and> rf_status y = R_ACTIVE)"
      using Cons.prems by (auto simp: rev_image_eqI)
    then have "cas_rows rf_id rf_status (rf_id r) R_ACTIVE (apply_reward now) t = t"
      unfolding cas_rows_def by (rule update_rows_id)
    then show ?thesis using True Cons.prems(3) by (simp add: cas_rows_def)
  next
    case False
    then have "rf_id x \<noteq> rf_id r" using Cons.prems by (auto simp: rev_image_eqI)
    then show ?thesis using False Cons by (simp add: cas_rows_def)
  qed
qed simp

lemma reward_commit_cases:
  assumes "reward_commit now r s = (res, t)"
  shows "(res = Inr None \<and> cas_count rf_id rf_status (rf_id r) R_ACTIVE (referrals s) \<noteq> 1
           \<and> cashbacks t = cashbacks s)
       \<or> (res = Inr (Some (rf_referrer r)) \<and> cas_count rf_id rf_status (rf_id r) R_ACTIVE (referrals s) = 1
           \<and> cashbacks t = cashbacks s @ [\<lparr>cb_id = next_id s, cb_user = rf_referrer r,
                       cb_amount = referral_reward_amount, cb_source = REFERRAL_REWARD, cb_status = ELIGIBLE,
                       cb_referral = Some (rf_id r), cb_at = now\<rparr>])"
    and "referrals t = cas_rows rf_id rf_status (rf_id r) R_ACTIVE (apply_reward now) (referrals s)"
    and "next_id s \<le> next_id t"
  using assms by (auto simp: reward_commit_def Let_def split: if_splits)

lemma reward_commit_frame [frame_simps]:
  assumes "reward_commit now r s = (res, t)"
  shows "orders t = orders s" "payments t = payments s" "users t = users s" "masters t = masters s"
    "history t = history s" "dispatches t = dispatches s" "notifications t = notifications s"
  using assms by (auto simp: reward_commit_def Let_def split: if_splits)

lemma reward_keys:
  assumes "referral_keys s" "reward_commit now r s = (res, t)"
  shows "referral_keys t"
proof -
  note c = reward_commit_cases(2,3) [OF assms(2)]
  have k: "map rf_id (referrals t) = map rf_id (referrals s)"
    unfolding c(1) by (rule referral_cas.keys_kept)
  have k2: "map rf_referee (referrals t) = map rf_referee (referrals s)"
    unfolding c(1) cas_rows_def by (rule map_key_update_rows) simp
  have "list_all (\<lambda>r. rf_referrer r \<noteq> rf_referee r) (referrals t)"
    using assms(1) unfolding c(1) cas_rows_def
    by (auto simp: referral_keys_def list_all_iff set_update_rows)
  then show ?thesis
    unfolding referral_keys_def k k2 using assms(1) c(2) by (auto simp: referral_keys_def intro: less_le_trans)
qed

lemma reward_books:
  assumes "referral_keys s" "books_balance s" "reward_commit now r s = (res, t)"
    "x \<in> set (referrals s)" "rf_id x = rf_id r" "rf_referrer x = rf_referrer r"
  shows "books_balance t"
proof (cases "cas_count rf_id rf_status (rf_id r) R_ACTIVE (referrals s) = 1")
  case True
  have d: "distinct (map rf_id (referrals s))" using assms(1) by (simp add: referral_keys_def)
  from True obtain y where y: "y \<in> set (referrals s)" "rf_id y = rf_id r" "rf_status y = R_ACTIVE"
    using referral_cas.wins_iff [OF d] by blast
  then have "y = x" using find_row_key_unique [OF d y(1) assms(4)] assms(5) by simp
  then have x: "rf_status x = R_ACTIVE" using y by simp
  have cb: "cashback_of u t = cashback_of u s + (if rf_referrer r = u then referral_reward_amount else 0)" for u
    using reward_commit_cases(1) [OF assms(3)] True by (auto simp: cashback_of_def)
  have rw: "rewarded_of u t = rewarded_of u s + (if rf_referrer r = u then 1 else 0)" for u
    using cas_reward_count [OF d assms(4) x, of u now] assms(5,6)
    by (simp add: rewarded_of_def reward_commit_cases(2) [OF assms(3)])
  show ?thesis using assms(2) by (simp add: books_balance_def cb rw distrib_left)
next
  case False
  have d: "distinct (map rf_id (referrals s))" using assms(1) by (simp add: referral_keys_def)
  have "cas_count rf_id rf_status (rf_id r) R_ACTIVE (referrals s) = 0"
    using False update_count_key_le_1 [OF d, of "rf_id r" "\<lambda>x. rf_status x = R_ACTIVE"]
    by (simp add: cas_count_def)
  then have "referrals t = referrals s"
    unfolding reward_commit_cases(2) [OF assms(3)] by (rule referral_cas.loser_changes_nothing)
  moreover have "cashbacks t = cashbacks s" using reward_commit_cases(1) [OF assms(3)] False by auto
  ultimately show ?thesis using assms(2) by (simp add: books_balance_def cashback_of_def rewarded_of_def)
qed

lemma reward_first_payment_cases:
  assumes "reward_on_first_payment now c s = (res, t)"
  obtains (nothing) "res = Inr None" "t = s"
  | (commit) r where "find_row (\<lambda>r. rf_referee r = c) (referrals s) = Some r" "rf_status r = R_ACTIVE"
      "reward_commit now r s = (res, t)"
  using assms by (auto simp: reward_on_first_payment_def split: option.splits if_splits)

lemma reward_first_payment_ok:
  "\<exists>res t. reward_on_first_payment now c s = (Inr res, t)"
  by (auto simp: reward_on_first_payment_def reward_commit_def Let_def ok_def split: option.splits)

lemma reward_payment_keeps:
  assumes "reward_on_first_payment now c s = (res, t)" "referral_keys s" "books_balance s"
  shows "referral_keys t \<and> books_balance t"
  using assms(1)
proof (cases rule: reward_first_payment_cases)
  case (commit r)
  have "r \<in> set (referrals s)" using find_row_Some [OF commit(1)] by simp
  then show ?thesis using reward_keys [OF assms(2) commit(3)] reward_books [OF assms(2,3) commit(3)] by simp
qed (use assms in simp)

lemma reward_payment_frame [frame_simps]:
  assumes "reward_on_first_payment now c s = (res, t)"
  shows "orders t = orders s" "payments t = payments s" "users t = users s" "masters t = masters s"
    "history t = history s" "dispatches t = dispatches s" "next_id s \<le> next_id t"
  using assms
  by (auto elim!: reward_first_payment_cases simp: reward_commit_frame reward_commit_cases(3))

lemma foldl_sum: "foldl (\<lambda>sum c. sum + f c) (a :: int) cs = a + sum_list (map f cs)"
  by (induction cs arbitrary: a) simp_all

lemma sum_list_sorted: "sum_list (map f (newest_first k cs)) = sum_list (map (f :: 'a \<Rightarrow> int) cs)"
proof -
  have "mset (map f (sort_key (\<lambda>r. - k r) cs)) = mset (map f cs)" by (simp only: mset_map mset_sort)
  then show ?thesis unfolding newest_first_def by (metis sum_mset_sum_list)
qed

lemma summary_totals:
  assumes "get_summary user s = Inr d"
  shows "rs_earned d = cashback_of user s" "rs_rewarded d = rewarded_of user s"
    "rs_referred d = count_rows (\<lambda>r. rf_referrer r = user) (referrals s)"
proof -
  show "rs_earned d = cashback_of user s"
    using assms by (auto simp: get_summary_def Let_def foldl_sum sum_list_sorted cashback_of_def sum_rows_def split: option.splits)
  have "length (filter P (newest_first k rows)) = length (filter P rows)" for P k and rows :: "referral_row list"
    by (metis mset_filter mset_sort newest_first_def size_mset)
  then show "rs_rewarded d = rewarded_of user s"
    using assms by (auto simp: get_summary_def Let_def rewarded_of_def count_rows_def filter_filter conj_commute split: option.splits)
  show "rs_referred d = count_rows (\<lambda>r. rf_referrer r = user) (referrals s)"
    using assms by (auto simp: get_summary_def Let_def count_rows_def split: option.splits)
qed

end
