(* ===== verification/Payments.thy ===== *)
theory Payments
  imports Tax Referrals Orders
begin

text \<open>
  \<open>modules/payments/payments.service.ts\<close>.  \<open>initiate\<close> is composed of the transaction
  that creates the payment while holding the order row (\<open>initiate_tx\<close>), the call of the
  payment rail (the parameter \<open>pc_charge\<close>) and \<open>settle\<close>; the parts are separate so that the
  step relation at the end can interleave other payments, webhooks and refunds between them.

  What the rail answers is not restricted: the invariant holds for any \<open>pc_charge\<close>.
\<close>

section \<open>Context\<close>

record charge_input =
  ci_payment :: id
  ci_amount :: int
  ci_method :: payment_method

record charge_result =
  cr_success :: bool
  cr_ref :: string
  cr_failure :: "string option"

record payment_ctx =
  pc_env :: env
  pc_now :: time
  pc_charge :: "charge_input \<Rightarrow> charge_result"

text \<open>A rate column is \<open>numeric(5, 4)\<close>.\<close>

definition numeric4 :: "rat \<Rightarrow> rat" where
  "numeric4 x = of_int (js_round (x * 10000)) / 10000"

definition active_payment_statuses :: "payment_status list" where
  "active_payment_statuses = [P_PENDING, P_PROCESSING, P_SUCCEEDED]"

definition find_payment :: "id \<Rightarrow> db \<Rightarrow> payment_row option" where
  "find_payment i s = find_row (\<lambda>p. p_id p = i) (payments s)"

definition payment_data :: "payment_row \<Rightarrow> (string \<times> json) list" where
  "payment_data p = [(''orderId'', JInt (int (p_order p))), (''paymentId'', JInt (int (p_id p)))]"

section \<open>Creating a payment\<close>

definition initiate_check :: "id \<Rightarrow> order_row option \<Rightarrow> error option" where
  "initiate_check customer order =
     (case order of
        None \<Rightarrow> Some NotFound
      | Some x \<Rightarrow>
          if o_customer x \<noteq> customer then Some Forbidden
          else if o_status x \<noteq> COMPLETED \<and> o_status x \<noteq> CLOSED then Some Conflict
          else if o_final x = None then Some Conflict
          else None)"

definition new_payment ::
  "env \<Rightarrow> time \<Rightarrow> id \<Rightarrow> id \<Rightarrow> payment_method \<Rightarrow> order_row \<Rightarrow> payment_row" where
  "new_payment e now i customer method x =
     (let amount = the (o_final x);
          w = compute_withholding (TAX_WITHHOLDING_RATE e) (amount - o_fee x)
      in \<lparr>p_id = i, p_order = o_id x, p_customer = customer, p_method = method, p_status = P_PROCESSING,
          p_amount = amount, p_fee = o_fee x, p_tax_rate = numeric4 (tw_rate w), p_tax = tw_tax w,
          p_net = tw_net w, p_ref = None, p_failure = None, p_note = None, p_resolved_by = None,
          p_resolved_at = None, p_created = now, p_succeeded_at = None, p_failed_at = None\<rparr>)"

definition initiate_body ::
  "env \<Rightarrow> time \<Rightarrow> id \<Rightarrow> payment_method \<Rightarrow> order_row \<Rightarrow> db \<Rightarrow> (payment_row, db) outcome" where
  "initiate_body e now customer method x s =
     (if \<exists>p \<in> set (payments s). p_order p = o_id x \<and> p_status p \<in> set active_payment_statuses
      then raise Conflict s
      else let p = new_payment e now (next_id s) customer method x
           in ok p (s\<lparr>payments := payments s @ [p], next_id := next_id s + 1\<rparr>))"

definition initiate_tx ::
  "env \<Rightarrow> time \<Rightarrow> id \<Rightarrow> payment_method \<Rightarrow> order_row \<Rightarrow> db \<Rightarrow> (payment_row, db) outcome" where
  "initiate_tx e now customer method x = transaction (initiate_body e now customer method x)"

section \<open>Settling\<close>

definition settle_row :: "time \<Rightarrow> charge_result \<Rightarrow> payment_row \<Rightarrow> payment_row" where
  "settle_row now r p =
     (if cr_success r then p\<lparr>p_status := P_SUCCEEDED, p_ref := Some (cr_ref r), p_succeeded_at := Some now\<rparr>
      else p\<lparr>p_status := P_FAILED, p_ref := Some (cr_ref r),
             p_failure := (case cr_failure r of None \<Rightarrow> p_failure p | Some f \<Rightarrow> Some f),
             p_failed_at := Some now\<rparr>)"

text \<open>The provider reference is unique, so an update to a reference already taken fails.\<close>

definition settle_write :: "time \<Rightarrow> payment_row \<Rightarrow> charge_result \<Rightarrow> db \<Rightarrow> (unit, db) outcome" where
  "settle_write now p r s =
     (if \<exists>q \<in> set (payments s). p_id q \<noteq> p_id p \<and> p_ref q = Some (cr_ref r) then raise UniqueViolation s
      else ok () (s\<lparr>payments := update_rows (\<lambda>q. p_id q = p_id p) (settle_row now r) (payments s)\<rparr>))"

definition settle_success :: "env \<Rightarrow> time \<Rightarrow> payment_row \<Rightarrow> db \<Rightarrow> (unit, db) outcome" where
  "settle_success e now p s =
     (case find_order (p_order p) s of
        None \<Rightarrow> raise InternalError s
      | Some x \<Rightarrow>
          and_then (record_withholding (TAX_PROVIDER e) s)
            (\<lambda>_ s1.
               let s2 = notify now (p_customer p) PAYMENT_SUCCEEDED (payment_data p) s1
               in and_then (reward_on_first_payment now (p_customer p) s2)
                    (\<lambda>referrer s3. case referrer of
                       None \<Rightarrow> ok () s3
                     | Some u \<Rightarrow> ok () (notify now u REFERRAL_REWARDED
                                        [(''customerId'', JInt (int (p_customer p)))] s3))))"

definition settle_tail :: "env \<Rightarrow> time \<Rightarrow> payment_row \<Rightarrow> charge_result \<Rightarrow> db \<Rightarrow> (unit, db) outcome" where
  "settle_tail e now p r s =
     (if cr_success r then settle_success e now p s
      else ok () (notify now (p_customer p) PAYMENT_FAILED (payment_data p) s))"

definition settle :: "env \<Rightarrow> time \<Rightarrow> payment_row \<Rightarrow> charge_result \<Rightarrow> db \<Rightarrow> (payment_row, db) outcome" where
  "settle e now p r s =
     and_then (settle_write now p r s)
       (\<lambda>_ s1. and_then (settle_tail e now p r s1) (\<lambda>_ s2. ok (settle_row now r p) s2))"

section \<open>The operations\<close>

record payment_dto =
  pd_id :: id
  pd_order :: id
  pd_method :: payment_method
  pd_status :: payment_status
  pd_amount :: int
  pd_fee :: int
  pd_tax_rate :: rat
  pd_tax :: int
  pd_net :: int
  pd_failure :: "string option"
  pd_note :: "string option"
  pd_resolved_at :: "time option"
  pd_created :: time
  pd_succeeded_at :: "time option"
  pd_failed_at :: "time option"

definition payment_to_dto :: "payment_row \<Rightarrow> payment_dto" where
  "payment_to_dto p = \<lparr>pd_id = p_id p, pd_order = p_order p, pd_method = p_method p, pd_status = p_status p,
     pd_amount = p_amount p, pd_fee = p_fee p, pd_tax_rate = fl64 (p_tax_rate p), pd_tax = p_tax p,
     pd_net = p_net p, pd_failure = p_failure p, pd_note = p_note p, pd_resolved_at = p_resolved_at p,
     pd_created = p_created p, pd_succeeded_at = p_succeeded_at p, pd_failed_at = p_failed_at p\<rparr>"

definition charge_input_of :: "payment_row \<Rightarrow> charge_input" where
  "charge_input_of p = \<lparr>ci_payment = p_id p, ci_amount = p_amount p, ci_method = p_method p\<rparr>"

definition initiate ::
  "payment_ctx \<Rightarrow> id \<Rightarrow> id \<Rightarrow> payment_method \<Rightarrow> db \<Rightarrow> (payment_dto, db) outcome" where
  "initiate ctx customer i method s =
     (case initiate_check customer (find_order i s) of
        Some err \<Rightarrow> raise err s
      | None \<Rightarrow>
          and_then (initiate_tx (pc_env ctx) (pc_now ctx) customer method (the (find_order i s)) s)
            (\<lambda>p s1. and_then (settle (pc_env ctx) (pc_now ctx) p (pc_charge ctx (charge_input_of p)) s1)
               (\<lambda>q s2. ok (payment_to_dto q) s2)))"

definition handle_webhook ::
  "payment_ctx \<Rightarrow> string \<Rightarrow> bool \<Rightarrow> string option \<Rightarrow> db \<Rightarrow> (unit, db) outcome" where
  "handle_webhook ctx ref success failure s =
     (case find_row (\<lambda>p. p_ref p = Some ref) (payments s) of
        None \<Rightarrow> ok () s
      | Some p \<Rightarrow>
          if p_status p \<noteq> P_PROCESSING then ok () s
          else and_then (settle (pc_env ctx) (pc_now ctx) p
                   \<lparr>cr_success = success, cr_ref = ref, cr_failure = failure\<rparr> s) (\<lambda>_ s1. ok () s1))"

record resolution =
  rl_refund :: bool
  rl_note :: string
  rl_by :: id
  rl_at :: time

definition apply_resolution :: "resolution \<Rightarrow> payment_row \<Rightarrow> payment_row" where
  "apply_resolution a p =
     p\<lparr>p_status := (if rl_refund a then P_REFUNDED else p_status p),
       p_note := Some (rl_note a), p_resolved_by := Some (rl_by a), p_resolved_at := Some (rl_at a)\<rparr>"

interpretation resolve_cas: guarded_update p_id p_resolved_at apply_resolution "\<lambda>_ old. old = None"
  by unfold_locales (auto simp: apply_resolution_def)

definition resolve_check :: "bool \<Rightarrow> payment_row option \<Rightarrow> error option" where
  "resolve_check refund p =
     (case p of
        None \<Rightarrow> Some NotFound
      | Some p \<Rightarrow>
          if p_resolved_at p \<noteq> None then Some Conflict
          else if refund \<and> p_status p \<noteq> P_SUCCEEDED then Some Conflict
          else None)"

definition resolve_commit :: "payment_row \<Rightarrow> resolution \<Rightarrow> db \<Rightarrow> (unit, db) outcome" where
  "resolve_commit p a s =
     (let n = cas_count p_id p_resolved_at (p_id p) None (payments s);
          s1 = s\<lparr>payments := cas_rows p_id p_resolved_at (p_id p) None (apply_resolution a) (payments s)\<rparr>
      in if n \<noteq> 1 then raise Conflict s1
         else ok () (notify (rl_at a) (p_customer p) PAYMENT_RESOLVED (payment_data p) s1))"

definition resolve :: "time \<Rightarrow> id \<Rightarrow> id \<Rightarrow> bool \<Rightarrow> string \<Rightarrow> db \<Rightarrow> (payment_dto, db) outcome" where
  "resolve now i admin refund note_text s =
     (case resolve_check refund (find_payment i s) of
        Some err \<Rightarrow> raise err s
      | None \<Rightarrow>
          and_then (resolve_commit (the (find_payment i s))
                      \<lparr>rl_refund = refund, rl_note = note_text, rl_by = admin, rl_at = now\<rparr> s)
            (\<lambda>_ s1. case find_payment i s1 of
                      None \<Rightarrow> raise NotFound s1 | Some q \<Rightarrow> ok (payment_to_dto q) s1))"

definition list_payments :: "id \<Rightarrow> id \<Rightarrow> db \<Rightarrow> payment_dto list result" where
  "list_payments customer i s =
     (case find_order i s of
        None \<Rightarrow> Inl NotFound
      | Some x \<Rightarrow>
          if o_customer x \<noteq> customer then Inl Forbidden
          else Inr (map payment_to_dto (newest_first p_created (filter (\<lambda>p. p_order p = i) (payments s)))))"

record earnings_page =
  ep_total_net :: int
  ep_jobs_paid :: nat
  ep_items :: "payment_dto list"
  ep_next :: "id option"

definition paid_to :: "id \<Rightarrow> db \<Rightarrow> payment_row \<Rightarrow> bool" where
  "paid_to m s p =
     (p_status p = P_SUCCEEDED \<and> (\<exists>x \<in> set (orders s). o_id x = p_order p \<and> o_master x = Some m))"

definition get_master_earnings :: "id \<Rightarrow> id option \<Rightarrow> db \<Rightarrow> earnings_page" where
  "get_master_earnings m cursor s =
     (let rows = newest_first (\<lambda>p. case p_succeeded_at p of None \<Rightarrow> 0 | Some t \<Rightarrow> t)
                   (filter (paid_to m s) (payments s));
          (items, next) = page p_id 20 cursor rows
      in \<lparr>ep_total_net = sum_rows (paid_to m s) p_net (payments s),
          ep_jobs_paid = count_rows (paid_to m s) (payments s),
          ep_items = map payment_to_dto items, ep_next = next\<rparr>)"

end
