(* ===== verification/PaymentSystem.thy ===== *)
theory PaymentSystem
  imports Payments
begin

text \<open>
  Payments under concurrency.  A configuration is the state, the payments whose charge is under way,
  and the rows that refund requests have read.  One step is one database write of a request: the
  transaction of \<open>initiate\<close>, the write of \<open>settle\<close> with whatever the rail answered, a
  webhook, the guarded write of \<open>resolve\<close> for a row read at any time before, or anything that
  leaves the payments alone.  The order \<open>initiate\<close> read may be any row that passed its checks.
\<close>

section \<open>Steps\<close>

type_synonym pay_config = "db \<times> payment_row list \<times> payment_row list"

inductive pay_step :: "env \<Rightarrow> pay_config \<Rightarrow> pay_config \<Rightarrow> bool" for e where
  pay: "initiate_check c (Some x) = None \<Longrightarrow> initiate_tx e now c method x s = (Inr p, t) \<Longrightarrow>
    pay_step e (s, flying, rs) (t, p # flying, rs)"
| charged: "p \<in> set flying \<Longrightarrow> settle_write now p r s = (res, t) \<Longrightarrow>
    pay_step e (s, flying, rs) (t, remove1 p flying, rs)"
| webhook: "find_row (\<lambda>p. p_ref p = Some (cr_ref r)) (payments s) = Some p \<Longrightarrow> p_status p = P_PROCESSING \<Longrightarrow>
    settle_write now p r s = (res, t) \<Longrightarrow> pay_step e (s, flying, rs) (t, flying, rs)"
| look: "p \<in> set (payments s) \<Longrightarrow> pay_step e (s, flying, rs) (s, flying, p # rs)"
| resolved: "p \<in> set rs \<Longrightarrow> resolve_check (rl_refund a) (Some p) = None \<Longrightarrow> resolve_commit p a s = (res, t) \<Longrightarrow>
    pay_step e (s, flying, rs) (t, flying, rs)"
| other: "payments t = payments s \<Longrightarrow> next_id s \<le> next_id t \<Longrightarrow> pay_step e (s, flying, rs) (t, flying, rs)"

definition pay_reachable :: "env \<Rightarrow> pay_config \<Rightarrow> bool" where
  "pay_reachable e c = (\<exists>s. payments s = [] \<and> (pay_step e)\<^sup>*\<^sup>* (s, [], []) c)"

section \<open>Invariant\<close>

definition active_of :: "id \<Rightarrow> payment_row \<Rightarrow> bool" where
  "active_of i p = (p_order p = i \<and> p_status p \<in> set active_payment_statuses)"

definition pay_row_ok :: "payment_row \<Rightarrow> bool" where
  "pay_row_ok p =
     (p_amount p = p_fee p + p_tax p + p_net p \<and>
      p_status p \<in> {P_PROCESSING, P_SUCCEEDED, P_FAILED, P_REFUNDED} \<and>
      (p_status p = P_PROCESSING \<longleftrightarrow> p_ref p = None) \<and>
      (p_status p \<in> {P_SUCCEEDED, P_REFUNDED} \<longleftrightarrow> p_succeeded_at p \<noteq> None) \<and>
      (p_status p = P_REFUNDED \<longrightarrow> p_resolved_at p \<noteq> None))"

definition pay_keys :: "db \<Rightarrow> bool" where
  "pay_keys s = (distinct (map p_id (payments s)) \<and> (\<forall>i \<in> set (map p_id (payments s)). i < next_id s))"

definition in_flight_ok :: "payment_row list \<Rightarrow> db \<Rightarrow> bool" where
  "in_flight_ok fl s = (distinct (map p_id fl) \<and>
     (\<forall>p \<in> set fl. \<exists>q \<in> set (payments s). p_id q = p_id p \<and> p_status q = P_PROCESSING))"

definition look_ok :: "payment_row \<Rightarrow> db \<Rightarrow> bool" where
  "look_ok p s = (\<exists>q \<in> set (payments s). p_id q = p_id p \<and>
     (p_status p = P_SUCCEEDED \<longrightarrow> p_status q = P_SUCCEEDED \<or> p_resolved_at q \<noteq> None))"

definition pay_inv :: "pay_config \<Rightarrow> bool" where
  "pay_inv c = (case c of (s, fl, rs) \<Rightarrow>
     pay_keys s \<and> (\<forall>p \<in> set (payments s). pay_row_ok p) \<and>
     (\<forall>i. count_rows (active_of i) (payments s) \<le> 1) \<and> in_flight_ok fl s \<and> (\<forall>p \<in> set rs. look_ok p s))"

lemma count_rows_update_le:
  "(\<And>r. r \<in> set t \<Longrightarrow> P r \<Longrightarrow> Q (f r) \<Longrightarrow> Q r) \<Longrightarrow> count_rows Q (update_rows P f t) \<le> count_rows Q t"
  by (induction t) (auto simp: le_SucI)

lemma count_rows_0: "count_rows Q t = 0 \<longleftrightarrow> (\<forall>r \<in> set t. \<not> Q r)"
  by (simp add: count_rows_def filter_empty_conv)

section \<open>One row rewritten\<close>

text \<open>Settling and resolving rewrite the row of one payment; the invariant is checked there.\<close>

lemma pay_rewrite:
  assumes "pay_inv (s, fl, rs)" "q \<in> set (payments s)" "p_id q = i"
    "payments t = update_rows (\<lambda>p. p_id p = i \<and> C p) f (payments s)" "next_id s \<le> next_id t"
    "C q \<Longrightarrow> p_id (f q) = i \<and> p_order (f q) = p_order q \<and> pay_row_ok (f q)
      \<and> (p_status (f q) \<in> set active_payment_statuses \<longrightarrow> p_status q \<in> set active_payment_statuses)
      \<and> (p_status q = P_SUCCEEDED \<longrightarrow> p_status (f q) = P_SUCCEEDED \<or> p_resolved_at (f q) \<noteq> None)
      \<and> (p_resolved_at q \<noteq> None \<longrightarrow> p_resolved_at (f q) \<noteq> None)"
    "distinct (map p_id gl)" "set gl \<subseteq> set fl"
    "C q \<Longrightarrow> p_status (f q) \<noteq> P_PROCESSING \<Longrightarrow> i \<notin> p_id ` set gl \<or> p_status q \<noteq> P_PROCESSING"
  shows "pay_inv (t, gl, rs)"
proof -
  have d: "distinct (map p_id (payments s))" using assms(1) by (simp add: pay_inv_def pay_keys_def)
  have q: "r = q" if "r \<in> set (payments s)" "p_id r = i" for r
    using find_row_key_unique [OF d that(1) assms(2)] that(2) assms(3) by simp
  have keys: "map p_id (payments t) = map p_id (payments s)"
    unfolding assms(4) by (rule map_key_update_rows) (use q assms(6) in auto)
  have "pay_keys t"
    unfolding pay_keys_def keys using assms(1,5) by (auto simp: pay_inv_def pay_keys_def intro: less_le_trans)
  moreover have "\<forall>p \<in> set (payments t). pay_row_ok p"
    unfolding assms(4) using assms(1,6) q by (auto simp: pay_inv_def dest!: in_update_rowsD)
  moreover have "count_rows (active_of j) (payments t) \<le> 1" for j
  proof -
    have "count_rows (active_of j) (payments t) \<le> count_rows (active_of j) (payments s)"
      unfolding assms(4) by (rule count_rows_update_le) (use q assms(6) in \<open>auto simp: active_of_def\<close>)
    then show ?thesis using assms(1) by (auto simp: pay_inv_def intro: le_trans)
  qed
  moreover have img: "(if p_id r = i \<and> C r then f r else r) \<in> set (payments t)" if "r \<in> set (payments s)" for r
    unfolding assms(4) set_update_rows using that by (rule imageI)
  have "in_flight_ok gl t"
    unfolding in_flight_ok_def
  proof (intro conjI ballI)
    fix p assume p: "p \<in> set gl"
    then obtain r where r: "r \<in> set (payments s)" "p_id r = p_id p" "p_status r = P_PROCESSING"
      using subsetD [OF assms(8) p] assms(1) by (auto simp: pay_inv_def in_flight_ok_def)
    show "\<exists>q \<in> set (payments t). p_id q = p_id p \<and> p_status q = P_PROCESSING"
    proof (cases "p_id r = i \<and> C r")
      case True
      then have [simp]: "r = q" using q r(1) by blast
      have "p_status (f q) = P_PROCESSING" using assms(9) True p r by force
      then show ?thesis using img [OF r(1)] True assms(6) r(2) by (intro bexI [of _ "f q"]) auto
    next
      case False
      then show ?thesis using img [OF r(1)] r by auto
    qed
  qed (rule assms(7))
  moreover have "look_ok p t" if "p \<in> set rs" for p
  proof -
    have "look_ok p s" using assms(1) that by (simp add: pay_inv_def)
    then obtain r where r: "r \<in> set (payments s)" "p_id r = p_id p"
      "p_status p = P_SUCCEEDED \<longrightarrow> p_status r = P_SUCCEEDED \<or> p_resolved_at r \<noteq> None"
      unfolding look_ok_def by blast
    show ?thesis
    proof (cases "p_id r = i \<and> C r")
      case True
      then have [simp]: "r = q" using q r(1) by blast
      show ?thesis using img [OF r(1)] True assms(6) r unfolding look_ok_def by (intro bexI [of _ "f q"]) auto
    next
      case False
      then show ?thesis using img [OF r(1)] r by (auto simp: look_ok_def)
    qed
  qed
  ultimately show ?thesis by (simp add: pay_inv_def)
qed

lemma settle_row_ok:
  assumes "pay_row_ok q" "p_status q = P_PROCESSING"
  shows "pay_row_ok (settle_row now r q)"
  using assms by (auto simp: pay_row_ok_def settle_row_def)

lemma settle_row_simps [simp]:
  "p_id (settle_row now r q) = p_id q" "p_order (settle_row now r q) = p_order q"
  "p_status (settle_row now r q) = (if cr_success r then P_SUCCEEDED else P_FAILED)"
  "p_resolved_at (settle_row now r q) = p_resolved_at q"
  by (simp_all add: settle_row_def)

lemma settle_write_inv:
  assumes "pay_inv (s, fl, rs)" "settle_write now p r s = (res, t)"
    "q \<in> set (payments s)" "p_id q = p_id p" "p_status q = P_PROCESSING"
    "distinct (map p_id gl)" "set gl \<subseteq> set fl" "p_id p \<notin> p_id ` set gl"
  shows "pay_inv (t, gl, rs)"
proof (cases "\<exists>q \<in> set (payments s). p_id q \<noteq> p_id p \<and> p_ref q = Some (cr_ref r)")
  case True
  then have "t = s" using assms(2) by (auto simp: settle_write_def raise_def)
  then show ?thesis
    using assms(1,6,7) by (auto simp: pay_inv_def in_flight_ok_def)
next
  case False
  then have t: "t = s\<lparr>payments := update_rows (\<lambda>q. p_id q = p_id p) (settle_row now r) (payments s)\<rparr>"
    using assms(2) by (auto simp: settle_write_def ok_def split: if_splits)
  have ok: "pay_row_ok q" using assms(1,3) by (auto simp: pay_inv_def)
  show ?thesis
    by (rule pay_rewrite [OF assms(1,3,4), where C = "\<lambda>_. True" and f = "settle_row now r"])
      (use assms(4-8) settle_row_ok [OF ok] in \<open>auto simp: t active_payment_statuses_def\<close>)
qed

section \<open>Every step keeps it\<close>

lemma initiate_cases:
  assumes "initiate_tx e now c method x s = (Inr p, t)"
  shows "p = new_payment e now (next_id s) c method x"
    "t = s\<lparr>payments := payments s @ [p], next_id := next_id s + 1\<rparr>"
    "\<not> (\<exists>q \<in> set (payments s). active_of (o_id x) q)"
  using assms
  by (auto simp: initiate_tx_def transaction_Inr initiate_body_def Let_def active_of_def split: if_splits)

lemma new_payment_simps [simp]:
  "p_id (new_payment e now i c m x) = i" "p_order (new_payment e now i c m x) = o_id x"
  "p_status (new_payment e now i c m x) = P_PROCESSING"
  by (simp_all add: new_payment_def Let_def)

lemma new_payment_ok: "pay_row_ok (new_payment e now i c m x)"
  by (simp add: pay_row_ok_def new_payment_def Let_def)

lemma pay_step_pay:
  assumes "pay_inv (s, fl, rs)" "initiate_tx e now c method x s = (Inr p, t)"
  shows "pay_inv (t, p # fl, rs)"
proof -
  note i = initiate_cases [OF assms(2)]
  have fresh: "\<forall>q \<in> set (payments s). p_id q < next_id s" using assms(1) by (simp add: pay_inv_def pay_keys_def)
  have "count_rows (active_of j) (payments t) \<le> 1" for j
  proof (cases "j = o_id x")
    case True
    then have "count_rows (active_of j) (payments s) = 0" using i(3) by (simp add: count_rows_0)
    then show ?thesis by (simp add: i(2))
  next
    case False
    then have "\<not> active_of j p" by (simp add: active_of_def i(1))
    then show ?thesis using assms(1) by (simp add: i(2) pay_inv_def)
  qed
  moreover have "pay_keys t" using assms(1) i fresh by (auto simp: pay_inv_def pay_keys_def less_Suc_eq)
  moreover have "in_flight_ok (p # fl) t"
  proof -
    have "p_id p \<notin> p_id ` set fl" using assms(1) fresh by (force simp: pay_inv_def in_flight_ok_def i(1))
    then show ?thesis using assms(1) by (auto simp: pay_inv_def in_flight_ok_def i)
  qed
  moreover have "\<forall>r \<in> set rs. look_ok r t" using assms(1) by (auto simp: pay_inv_def look_ok_def i(2))
  moreover have "\<forall>q \<in> set (payments t). pay_row_ok q"
    using assms(1) new_payment_ok by (auto simp: pay_inv_def i)
  ultimately show ?thesis by (simp add: pay_inv_def)
qed

lemma pay_step_charged:
  assumes "pay_inv (s, fl, rs)" "p \<in> set fl" "settle_write now p r s = (res, t)"
  shows "pay_inv (t, remove1 p fl, rs)"
proof -
  obtain q where q: "q \<in> set (payments s)" "p_id q = p_id p" "p_status q = P_PROCESSING"
    using assms(1,2) by (auto simp: pay_inv_def in_flight_ok_def)
  have d: "distinct (map p_id fl)" using assms(1) by (simp add: pay_inv_def in_flight_ok_def)
  then have df: "distinct fl" by (simp add: distinct_map)
  have "p_id p \<notin> p_id ` set (remove1 p fl)"
    using find_row_key_unique [OF d _ assms(2)] df by (auto simp: set_remove1_eq)
  moreover have "distinct (map p_id (remove1 p fl))"
    using d df by (auto simp: distinct_map intro: inj_on_subset)
  ultimately show ?thesis
    using set_remove1_subset by (intro settle_write_inv [OF assms(1,3) q]) auto
qed

lemma pay_step_resolved:
  assumes "pay_inv (s, fl, rs)" "p \<in> set rs" "resolve_check (rl_refund a) (Some p) = None"
    "resolve_commit p a s = (res, t)"
  shows "pay_inv (t, fl, rs)"
proof -
  obtain q where q: "q \<in> set (payments s)" "p_id q = p_id p"
    "p_status p = P_SUCCEEDED \<longrightarrow> p_status q = P_SUCCEEDED \<or> p_resolved_at q \<noteq> None"
    using assms(1,2) by (auto simp: pay_inv_def look_ok_def)
  have ok: "pay_row_ok q" using assms(1) q(1) by (auto simp: pay_inv_def)
  have t: "payments t = update_rows (\<lambda>r. p_id r = p_id p \<and> p_resolved_at r = None) (apply_resolution a) (payments s)"
    "next_id s \<le> next_id t"
    using assms(4) by (auto simp: resolve_commit_def Let_def cas_rows_def notify_def create_record_def
        deliver_def emit_to_user_def split: if_splits)
  have fl: "distinct (map p_id fl)" using assms(1) by (simp add: pay_inv_def in_flight_ok_def)
  show ?thesis
  proof (rule pay_rewrite [OF assms(1) q(1,2) t(1) t(2) _ fl subset_refl])
    assume "p_resolved_at q = None"
    then show "p_id (apply_resolution a q) = p_id p \<and> p_order (apply_resolution a q) = p_order q \<and>
        pay_row_ok (apply_resolution a q) \<and>
        (p_status (apply_resolution a q) \<in> set active_payment_statuses \<longrightarrow> p_status q \<in> set active_payment_statuses) \<and>
        (p_status q = P_SUCCEEDED \<longrightarrow> p_status (apply_resolution a q) = P_SUCCEEDED \<or> p_resolved_at (apply_resolution a q) \<noteq> None) \<and>
        (p_resolved_at q \<noteq> None \<longrightarrow> p_resolved_at (apply_resolution a q) \<noteq> None)"
      using ok q(2,3) assms(3)
      by (auto simp: apply_resolution_def pay_row_ok_def active_payment_statuses_def resolve_check_def split: if_splits)
  next
    assume "p_resolved_at q = None" "p_status (apply_resolution a q) \<noteq> P_PROCESSING"
    then show "p_id p \<notin> p_id ` set fl \<or> p_status q \<noteq> P_PROCESSING"
      using q(3) assms(3) by (auto simp: apply_resolution_def resolve_check_def split: if_splits)
  qed
qed

theorem pay_step_inv:
  assumes "pay_step e c c'" "pay_inv c"
  shows "pay_inv c'"
  using assms
proof (cases rule: pay_step.cases)
  case (webhook r s p now res t flying rs)
  have "p_ref p \<noteq> None" "p \<in> set (payments s)" using find_row_Some [OF webhook(3)] by auto
  then show ?thesis using webhook assms(2) by (auto simp: pay_inv_def pay_row_ok_def)
next
  case (look p s flying rs)
  then show ?thesis using assms(2) by (auto simp: pay_inv_def look_ok_def)
next
  case (other t s flying rs)
  then show ?thesis
    using assms(2) by (auto simp: pay_inv_def pay_keys_def in_flight_ok_def look_ok_def intro: less_le_trans)
qed (use assms(2) in \<open>auto intro: pay_step_pay pay_step_charged pay_step_resolved\<close>)

lemma pay_reachable_inv: "pay_reachable e c \<Longrightarrow> pay_inv c"
proof -
  assume "pay_reachable e c"
  then obtain s where s: "payments s = []" "(pay_step e)\<^sup>*\<^sup>* (s, [], []) c" by (auto simp: pay_reachable_def)
  have "pay_inv (s, [], [])" using s(1) by (simp add: pay_inv_def pay_keys_def in_flight_ok_def)
  from s(2) this show ?thesis
    by (induction rule: rtranclp_induct) (blast intro: pay_step_inv)+
qed

section \<open>Consequences\<close>

lemma webhook_noop:
  assumes "pay_inv (s, fl, rs)"
  shows "handle_webhook ctx ref success failure s = ok () s"
proof (cases "find_row (\<lambda>p. p_ref p = Some ref) (payments s)")
  case (Some p)
  then have "p \<in> set (payments s)" "p_ref p \<noteq> None" using find_row_Some [OF Some] by auto
  then have "p_status p \<noteq> P_PROCESSING" using assms by (auto simp: pay_inv_def pay_row_ok_def)
  then show ?thesis using Some by (simp add: handle_webhook_def)
qed (simp add: handle_webhook_def)

end
