(* ===== verification/Text.thy ===== *)
theory Text
  imports JsNumber
begin

text \<open>
  The texts the program parses: phone numbers (\<open>packages/contracts/src/phone.ts\<close>), durations
  (\<open>apps/api/src/common/util/duration.ts\<close>) and the masking of secrets
  (\<open>infra/crypto/field-crypto.ts\<close>).  A text is a list of characters with codes below 256; white
  space is what \<open>trim\<close> and \<open>\s\<close> accept in that range.
\<close>

section \<open>Characters\<close>

definition is_digit :: "char \<Rightarrow> bool" where
  "is_digit c = (48 \<le> (of_char c :: nat) \<and> (of_char c :: nat) \<le> 57)"

definition is_space :: "char \<Rightarrow> bool" where
  "is_space c = ((of_char c :: nat) \<in> {9, 10, 11, 12, 13, 32, 160})"

definition trim :: "string \<Rightarrow> string" where
  "trim x = rev (dropWhile is_space (rev (dropWhile is_space x)))"

definition starts_with :: "string \<Rightarrow> string \<Rightarrow> bool" where
  "starts_with x p = (take (length p) x = p)"

fun digits_value :: "int \<Rightarrow> string \<Rightarrow> int" where
  "digits_value acc [] = acc"
| "digits_value acc (c # cs) = digits_value (10 * acc + (of_char c - 48)) cs"

lemma is_digit_chars [simp]:
  "is_digit (CHR ''0'')" "is_digit (CHR ''9'')" "is_digit (CHR ''8'')" "\<not> is_digit (CHR ''+'')"
  by (simp_all add: is_digit_def)

lemma digit_not_plus: "is_digit c \<Longrightarrow> c \<noteq> CHR ''+''"
  by auto

section \<open>Phone numbers\<close>

definition uz_phone :: "string \<Rightarrow> bool" where
  "uz_phone x = (starts_with x ''+998'' \<and> length x = 13 \<and> list_all is_digit (drop 4 x))"

definition normalize_uz_phone :: "string \<Rightarrow> string option" where
  "normalize_uz_phone input =
     (let digits = filter (\<lambda>c. is_digit c \<or> c = CHR ''+'') input;
          n1 = (if starts_with digits ''00'' then CHR ''+'' # drop 2 digits else digits);
          n2 = (if starts_with n1 ''998'' then CHR ''+'' # n1 else n1);
          n3 = (if length n2 = 9 \<and> list_all is_digit n2 then ''+998'' @ n2 else n2)
      in if uz_phone n3 then Some n3 else None)"

definition parse_uz_phone :: "string \<Rightarrow> string option" where
  "parse_uz_phone x = normalize_uz_phone (trim x)"

lemma uz_phone_shape: "uz_phone x \<longleftrightarrow> (\<exists>d. x = ''+998'' @ d \<and> length d = 9 \<and> list_all is_digit d)"
proof
  assume x: "uz_phone x"
  have "length ''+998'' = 4" by simp
  then have "take 4 x = ''+998''" using x unfolding uz_phone_def starts_with_def by metis
  then have "x = ''+998'' @ drop 4 x" by (metis append_take_drop_id)
  moreover have "length (drop 4 x) = 9" using x by (simp add: uz_phone_def)
  ultimately show "\<exists>d. x = ''+998'' @ d \<and> length d = 9 \<and> list_all is_digit d"
    using x unfolding uz_phone_def by blast
qed (auto simp: uz_phone_def starts_with_def)

lemma normalize_uz: "normalize_uz_phone x = Some y \<Longrightarrow> uz_phone y"
  by (auto simp: normalize_uz_phone_def Let_def split: if_splits)

lemma filter_digits: "list_all is_digit d \<Longrightarrow> filter (\<lambda>c. is_digit c \<or> c = CHR ''+'') d = d"
  by (induction d) auto

lemma normalize_canonical:
  assumes "length d = 9" "list_all is_digit d"
  shows "normalize_uz_phone (''+998'' @ d) = Some (''+998'' @ d)"
proof -
  have "uz_phone (''+998'' @ d)" unfolding uz_phone_shape using assms by blast
  then show ?thesis
    using assms by (simp add: normalize_uz_phone_def Let_def filter_digits starts_with_def)
qed

text \<open>A number that was normalised once is a fixed point.\<close>

lemma normalize_idempotent: "normalize_uz_phone x = Some y \<Longrightarrow> normalize_uz_phone y = Some y"
proof -
  assume "normalize_uz_phone x = Some y"
  then obtain d where "y = ''+998'' @ d" "length d = 9" "list_all is_digit d"
    using normalize_uz uz_phone_shape by blast
  then show ?thesis using normalize_canonical by simp
qed

lemma normalize_with_code:
  assumes "length d = 9" "list_all is_digit d"
  shows "normalize_uz_phone (''998'' @ d) = Some (''+998'' @ d)"
    "normalize_uz_phone (''00998'' @ d) = Some (''+998'' @ d)"
proof -
  have "uz_phone (''+998'' @ d)" unfolding uz_phone_shape using assms by blast
  then show "normalize_uz_phone (''998'' @ d) = Some (''+998'' @ d)"
    "normalize_uz_phone (''00998'' @ d) = Some (''+998'' @ d)"
    using assms by (simp_all add: normalize_uz_phone_def Let_def filter_digits starts_with_def)
qed

lemma normalize_national:
  assumes "length d = 9" "list_all is_digit d"
  shows "normalize_uz_phone d =
    (if starts_with d ''00'' \<or> starts_with d ''998'' then None else Some (''+998'' @ d))"
proof -
  have u: "uz_phone (''+998'' @ d)" unfolding uz_phone_shape using assms by blast
  have l: "\<not> uz_phone (CHR ''+'' # d)" using assms(1) by (simp add: uz_phone_def)
  show ?thesis
  proof (cases "starts_with d ''00''")
    case True
    have "\<not> starts_with (CHR ''+'' # drop 2 d) ''998''" by (simp add: starts_with_def)
    moreover have "\<not> uz_phone (CHR ''+'' # drop 2 d)" using assms(1) by (simp add: uz_phone_def)
    ultimately show ?thesis
      using True assms by (simp add: normalize_uz_phone_def Let_def filter_digits)
  next
    case False
    then show ?thesis
      using assms u l by (simp add: normalize_uz_phone_def Let_def filter_digits)
  qed
qed

text \<open>Separators are ignored.\<close>

lemma normalize_ignores:
  "filter (\<lambda>c. is_digit c \<or> c = CHR ''+'') x = filter (\<lambda>c. is_digit c \<or> c = CHR ''+'') y \<Longrightarrow>
   normalize_uz_phone x = normalize_uz_phone y"
  by (simp add: normalize_uz_phone_def)

section \<open>Durations\<close>

definition unit_seconds :: "string \<Rightarrow> int option" where
  "unit_seconds u =
     (if u = [] \<or> u = ''s'' then Some 1 else if u = ''m'' then Some 60
      else if u = ''h'' then Some 3600 else if u = ''d'' then Some 86400 else None)"

text \<open>The pattern: one or more digits, white space, an optional unit.  The value is a double.\<close>

definition parse_duration_seconds :: "string \<Rightarrow> rat" where
  "parse_duration_seconds input =
     (let x = trim input;
          ds = takeWhile is_digit x;
          rest = dropWhile is_space (dropWhile is_digit x)
      in case unit_seconds rest of
           None \<Rightarrow> 900
         | Some k \<Rightarrow> if ds = [] then 900
                      else fl64 (fl64 (of_int (digits_value 0 ds)) * of_int k))"

lemma digits_value_nonneg: "0 \<le> acc \<Longrightarrow> list_all is_digit ds \<Longrightarrow> 0 \<le> digits_value acc ds"
proof (induction ds arbitrary: acc)
  case (Cons c ds)
  have "int 48 \<le> int (of_char c)"
    using Cons.prems(2) unfolding of_nat_le_iff by (simp add: is_digit_def)
  then have "(48 :: int) \<le> of_char c" by (simp only: of_nat_of_char of_nat_numeral)
  then show ?case using Cons by simp
qed simp

lemma takeWhile_digits: "list_all is_digit (takeWhile is_digit x)"
  by (induction x) auto

lemma duration_nonneg: "0 \<le> parse_duration_seconds x"
proof -
  have "0 \<le> digits_value 0 (takeWhile is_digit (trim x))"
    using takeWhile_digits by (intro digits_value_nonneg) auto
  then have "0 \<le> fl64 (of_int (digits_value 0 (takeWhile is_digit (trim x))))"
    by (intro double.fl_nonneg) simp
  then show ?thesis
    by (auto simp: parse_duration_seconds_def Let_def unit_seconds_def intro!: double.fl_nonneg split: option.splits)
qed

section \<open>Masking\<close>

text \<open>\<open>slice(-k)\<close> is the last \<open>k\<close> characters, except that \<open>slice(-0)\<close> is the whole text.\<close>

definition slice_last :: "nat \<Rightarrow> string \<Rightarrow> string" where
  "slice_last k x = (if k = 0 then x else drop (length x - k) x)"

definition mask :: "nat \<Rightarrow> string \<Rightarrow> string" where
  "mask visible plain =
     (if length plain \<le> visible then plain
      else replicate (length plain - visible) (CHR ''*'') @ slice_last visible plain)"

lemma mask_length: "0 < v \<Longrightarrow> length (mask v p) = length p"
  by (simp add: mask_def slice_last_def)

text \<open>Two secrets of one length that end alike have the same mask: nothing else is shown.\<close>

lemma mask_hides:
  assumes "length p = length q" "drop (length p - v) p = drop (length q - v) q" "v < length p" "0 < v"
  shows "mask v p = mask v q"
  using assms by (simp add: mask_def slice_last_def)

text \<open>Asked to show nothing it shows everything.\<close>

lemma mask_zero_shows: "p \<noteq> [] \<Longrightarrow> mask 0 p = replicate (length p) (CHR ''*'') @ p"
  by (simp add: mask_def slice_last_def)

end
