(* ===== verification/Otp.thy ===== *)
theory Otp
  imports Config Schema Text
begin

text \<open>
  One-time codes, \<open>modules/auth/otp.service.ts\<close>, and the Redis counters behind them,
  \<open>infra/redis/redis.service.ts\<close>.  The key-value store keeps, per key, a count and the time it
  expires; when it is down (\<open>ax_redis_up\<close>) or answers with an error the limits are skipped, as the
  handlers catch it.  Hashing and the random numbers are parameters of the context.

  \<open>otp_attempt\<close> is the part of \<open>verify\<close> after the row has been read, with that row as an
  argument, so that attempts that read the same row can be stated.
\<close>

section \<open>Context\<close>

record claims =
  cl_id :: id
  cl_role :: role
  cl_status :: user_status
  cl_verification :: "verification_status option"

record auth_ctx =
  ax_env :: env
  ax_now :: time
  ax_redis_up :: bool
  ax_hash :: "string \<Rightarrow> string"
  ax_verify :: "string \<Rightarrow> string \<Rightarrow> bool"
  ax_code :: nat
  ax_sms_ok :: bool
  ax_random8 :: "nat \<Rightarrow> byte list"
  ax_refresh :: string
  ax_sha :: "string \<Rightarrow> string"
  ax_sign :: "claims \<Rightarrow> rat \<Rightarrow> string"

section \<open>Redis\<close>

definition live_entry :: "time \<Rightarrow> redis_key \<Rightarrow> db \<Rightarrow> redis_entry option" where
  "live_entry now k s =
     (case find_row (\<lambda>x. fst x = k) (redis s) of
        None \<Rightarrow> None
      | Some (_, e) \<Rightarrow>
          if (case re_expires e of None \<Rightarrow> True | Some t \<Rightarrow> now < t) then Some e else None)"

definition put_entry :: "redis_key \<Rightarrow> redis_entry \<Rightarrow> db \<Rightarrow> db" where
  "put_entry k e s = s\<lparr>redis := (k, e) # filter (\<lambda>x. fst x \<noteq> k) (redis s)\<rparr>"

definition redis_get :: "time \<Rightarrow> redis_key \<Rightarrow> db \<Rightarrow> nat" where
  "redis_get now k s = (case live_entry now k s of None \<Rightarrow> 0 | Some e \<Rightarrow> re_count e)"

definition redis_incr :: "time \<Rightarrow> redis_key \<Rightarrow> int \<Rightarrow> db \<Rightarrow> nat \<times> db" where
  "redis_incr now k ttl s =
     (case live_entry now k s of
        None \<Rightarrow> (1, put_entry k \<lparr>re_count = 1, re_expires = Some (now + ttl * 1000)\<rparr> s)
      | Some e \<Rightarrow> (re_count e + 1, put_entry k (e\<lparr>re_count := re_count e + 1\<rparr>) s))"

text \<open>An expiry that is not positive is refused by the store.\<close>

definition redis_set_nx :: "time \<Rightarrow> redis_key \<Rightarrow> int \<Rightarrow> db \<Rightarrow> (bool, db) outcome" where
  "redis_set_nx now k ttl s =
     (if ttl \<le> 0 then raise InternalError s
      else case live_entry now k s of
        Some _ \<Rightarrow> ok False s
      | None \<Rightarrow> ok True (put_entry k \<lparr>re_count = 1, re_expires = Some (now + ttl * 1000)\<rparr> s))"

definition redis_ttl :: "time \<Rightarrow> redis_key \<Rightarrow> db \<Rightarrow> int" where
  "redis_ttl now k s =
     (case live_entry now k s of
        None \<Rightarrow> - 2
      | Some e \<Rightarrow> (case re_expires e of None \<Rightarrow> - 1 | Some t \<Rightarrow> (t - now + 500) div 1000))"

definition redis_del :: "redis_key \<Rightarrow> db \<Rightarrow> db" where
  "redis_del k s = s\<lparr>redis := filter (\<lambda>x. fst x \<noteq> k) (redis s)\<rparr>"

lemma find_row_filter_neq:
  "k \<noteq> k' \<Longrightarrow> find_row (\<lambda>x. fst x = k) (filter (\<lambda>x. fst x \<noteq> k') t) = find_row (\<lambda>x. fst x = k) t"
  by (induction t) auto

lemma find_row_filter_eq: "find_row (\<lambda>x. fst x = k) (filter (\<lambda>x. fst x \<noteq> k) t) = None"
  by (simp add: find_row_None)

lemma live_put [simp]:
  "live_entry now k (put_entry k e s) =
   (if (case re_expires e of None \<Rightarrow> True | Some t \<Rightarrow> now < t) then Some e else None)"
  "k \<noteq> k' \<Longrightarrow> live_entry now k (put_entry k' e s) = live_entry now k s"
  by (simp_all add: live_entry_def put_entry_def find_row_filter_neq)

lemma live_del [simp]:
  "live_entry now k (redis_del k s) = None"
  "k \<noteq> k' \<Longrightarrow> live_entry now k (redis_del k' s) = live_entry now k s"
  by (simp_all add: live_entry_def redis_del_def find_row_filter_neq find_row_filter_eq)

lemma put_entry_frame [simp, frame_simps]:
  "otps (put_entry k e s) = otps s" "users (put_entry k e s) = users s" "sessions (put_entry k e s) = sessions s"
  "masters (put_entry k e s) = masters s" "sms_sent (put_entry k e s) = sms_sent s"
  "next_id (put_entry k e s) = next_id s" "referrals (put_entry k e s) = referrals s"
  "customer_profiles (put_entry k e s) = customer_profiles s"
  by (simp_all add: put_entry_def)

lemma redis_del_frame [simp, frame_simps]:
  "otps (redis_del k s) = otps s" "users (redis_del k s) = users s" "sessions (redis_del k s) = sessions s"
  "masters (redis_del k s) = masters s" "next_id (redis_del k s) = next_id s" "sms_sent (redis_del k s) = sms_sent s"
  by (simp_all add: redis_del_def)

lemma live_entry_cong: "redis s = redis t \<Longrightarrow> live_entry now k s = live_entry now k t"
  by (simp add: live_entry_def)

section \<open>Issuing a code\<close>

definition digit_char :: "nat \<Rightarrow> char" where
  "digit_char d = char_of (48 + d)"

definition code_text :: "nat \<Rightarrow> string" where
  "code_text n = map (\<lambda>k. digit_char (n div 10 ^ k mod 10)) [5, 4, 3, 2, 1, 0]"

definition enforce_rate_limits :: "auth_ctx \<Rightarrow> string \<Rightarrow> otp_purpose \<Rightarrow> db \<Rightarrow> (unit, db) outcome" where
  "enforce_rate_limits ctx phone purpose s =
     (if \<not> ax_redis_up ctx then ok () s
      else case redis_set_nx (ax_now ctx) (Otp_Cooldown purpose phone)
                  (OTP_RESEND_COOLDOWN_SECONDS (ax_env ctx)) s of
             (Inl _, s1) \<Rightarrow> ok () s1
           | (Inr fresh, s1) \<Rightarrow>
               if \<not> fresh then raise BadRequest s1
               else let (n, s2) = redis_incr (ax_now ctx) (Otp_Daily phone) 86400 s1
                    in if n > OTP_DAILY_CAP_PER_PHONE (ax_env ctx) then raise BadRequest s2 else ok () s2)"

definition unused_code :: "string \<Rightarrow> otp_purpose \<Rightarrow> otp_row \<Rightarrow> bool" where
  "unused_code phone purpose c = (otp_phone c = phone \<and> otp_purpose c = purpose \<and> otp_used c = None)"

definition issue_code :: "auth_ctx \<Rightarrow> string \<Rightarrow> otp_purpose \<Rightarrow> db \<Rightarrow> (int, db) outcome" where
  "issue_code ctx phone purpose s =
     and_then (enforce_rate_limits ctx phone purpose s)
       (\<lambda>_ s1.
          let code = code_text (ax_code ctx);
              s2 = s1\<lparr>otps := delete_rows (unused_code phone purpose) (otps s1)\<rparr>;
              row = \<lparr>otp_id = next_id s2, otp_phone = phone, otp_hash = ax_hash ctx code, otp_purpose = purpose,
                     otp_attempts = 0, otp_expires = ax_now ctx + OTP_TTL_SECONDS (ax_env ctx) * 1000,
                     otp_used = None\<rparr>;
              s3 = s2\<lparr>otps := otps s2 @ [row], next_id := next_id s2 + 1\<rparr>
          in if ax_sms_ok ctx
             then ok (OTP_RESEND_COOLDOWN_SECONDS (ax_env ctx)) (s3\<lparr>sms_sent := sms_sent s3 @ [(phone, code)]\<rparr>)
             else raise InternalError s3)"

definition ensure_challenge :: "auth_ctx \<Rightarrow> string \<Rightarrow> otp_purpose \<Rightarrow> db \<Rightarrow> (int, db) outcome" where
  "ensure_challenge ctx phone purpose s =
     (let remaining = (if ax_redis_up ctx then redis_ttl (ax_now ctx) (Otp_Cooldown purpose phone) s else 0)
      in if remaining > 0 then ok remaining s
         else case issue_code ctx phone purpose s of
                (Inl BadRequest, s1) \<Rightarrow> ok (OTP_RESEND_COOLDOWN_SECONDS (ax_env ctx)) s1
              | r \<Rightarrow> r)"

section \<open>Checking a code\<close>

definition find_code :: "time \<Rightarrow> string \<Rightarrow> otp_purpose \<Rightarrow> db \<Rightarrow> otp_row option" where
  "find_code now phone purpose s = find_latest (\<lambda>c. unused_code phone purpose c \<and> now < otp_expires c) (otps s)"

definition otp_attempt :: "auth_ctx \<Rightarrow> otp_row \<Rightarrow> string \<Rightarrow> db \<Rightarrow> (unit, db) outcome" where
  "otp_attempt ctx c code s =
     (if otp_attempts c \<ge> OTP_MAX_ATTEMPTS (ax_env ctx) then raise BadRequest s
      else if \<not> ax_verify ctx (otp_hash c) code
        then raise BadRequest (s\<lparr>otps := update_rows (\<lambda>r. otp_id r = otp_id c)
                                          (\<lambda>r. r\<lparr>otp_attempts := otp_attempts r + 1\<rparr>) (otps s)\<rparr>)
      else ok () (s\<lparr>otps := update_rows (\<lambda>r. otp_id r = otp_id c)
                              (\<lambda>r. r\<lparr>otp_used := Some (ax_now ctx)\<rparr>) (otps s)\<rparr>))"

definition verify_code :: "auth_ctx \<Rightarrow> string \<Rightarrow> string \<Rightarrow> otp_purpose \<Rightarrow> db \<Rightarrow> (unit, db) outcome" where
  "verify_code ctx phone code purpose s =
     (case find_code (ax_now ctx) phone purpose s of
        None \<Rightarrow> raise BadRequest s
      | Some c \<Rightarrow> otp_attempt ctx c code s)"

lemma otp_attempt_frame [frame_simps]:
  "otp_attempt ctx c code s = (r, t) \<Longrightarrow> users t = users s \<and> sessions t = sessions s \<and> masters t = masters s
     \<and> next_id t = next_id s \<and> referrals t = referrals s \<and> redis t = redis s"
  by (auto simp: otp_attempt_def split: if_splits)

lemma verify_code_frame [frame_simps]:
  assumes "verify_code ctx phone code purpose s = (r, t)"
  shows "users t = users s" "sessions t = sessions s" "masters t = masters s" "next_id t = next_id s"
    "referrals t = referrals s"
proof -
  have "users t = users s \<and> sessions t = sessions s \<and> masters t = masters s \<and> next_id t = next_id s
     \<and> referrals t = referrals s"
    using assms otp_attempt_frame by (fastforce simp: verify_code_def split: option.splits)
  then show "users t = users s" "sessions t = sessions s" "masters t = masters s" "next_id t = next_id s"
    "referrals t = referrals s" by simp_all
qed

section \<open>Guesses one after the other\<close>

text \<open>Every code that is still good at time \<open>T\<close> has seen \<open>n\<close> wrong guesses.\<close>

definition attempts_used :: "string \<Rightarrow> otp_purpose \<Rightarrow> time \<Rightarrow> nat \<Rightarrow> db \<Rightarrow> bool" where
  "attempts_used phone purpose T n s =
     (\<forall>c \<in> set (otps s). unused_code phone purpose c \<longrightarrow> T < otp_expires c \<longrightarrow> n \<le> otp_attempts c)"

fun guess_all :: "(auth_ctx \<times> string) list \<Rightarrow> string \<Rightarrow> otp_purpose \<Rightarrow> db \<Rightarrow> db" where
  "guess_all [] phone purpose s = s"
| "guess_all ((ctx, code) # gs) phone purpose s =
     guess_all gs phone purpose (snd (verify_code ctx phone code purpose s))"

definition single_code :: "string \<Rightarrow> otp_purpose \<Rightarrow> db \<Rightarrow> bool" where
  "single_code phone purpose s =
     (\<forall>c \<in> set (otps s). \<forall>d \<in> set (otps s). unused_code phone purpose c \<longrightarrow> unused_code phone purpose d \<longrightarrow> c = d)"

lemma unused_code_update [simp]:
  "unused_code p q (c\<lparr>otp_attempts := n\<rparr>) = unused_code p q c"
  "\<not> unused_code p q (c\<lparr>otp_used := Some t\<rparr>)"
  by (simp_all add: unused_code_def)

lemma verify_code_cases:
  assumes "verify_code ctx phone code purpose s = (r, t)"
  obtains (none) "find_code (ax_now ctx) phone purpose s = None" "r = Inl BadRequest" "t = s"
  | (max) c where "find_code (ax_now ctx) phone purpose s = Some c"
      "OTP_MAX_ATTEMPTS (ax_env ctx) \<le> otp_attempts c" "r = Inl BadRequest" "t = s"
  | (wrong) c where "find_code (ax_now ctx) phone purpose s = Some c" "\<not> ax_verify ctx (otp_hash c) code"
      "r = Inl BadRequest"
      "otps t = update_rows (\<lambda>r. otp_id r = otp_id c) (\<lambda>r. r\<lparr>otp_attempts := otp_attempts r + 1\<rparr>) (otps s)"
  | (right) c where "find_code (ax_now ctx) phone purpose s = Some c" "ax_verify ctx (otp_hash c) code"
      "r = Inr ()" "otp_attempts c < OTP_MAX_ATTEMPTS (ax_env ctx)"
      "otps t = update_rows (\<lambda>r. otp_id r = otp_id c) (\<lambda>r. r\<lparr>otp_used := Some (ax_now ctx)\<rparr>) (otps s)"
  using assms that unfolding verify_code_def otp_attempt_def
  by (auto split: option.splits if_splits)

lemma single_code_update:
  assumes "single_code phone purpose s" "otps t = update_rows P f (otps s)"
    "\<And>c. unused_code phone purpose (f c) \<Longrightarrow> unused_code phone purpose c"
  shows "single_code phone purpose t"
proof -
  let ?g = "\<lambda>c. if P c then f c else c"
  have "\<exists>c \<in> set (otps s). d = ?g c \<and> unused_code phone purpose c"
    if "d \<in> set (otps t)" "unused_code phone purpose d" for d
    using that assms(3) unfolding assms(2) set_update_rows by auto
  then show ?thesis using assms(1) unfolding single_code_def by metis
qed

lemma verify_keeps_single:
  assumes "single_code phone purpose s" "verify_code ctx phone code purpose s = (r, t)"
  shows "single_code phone purpose t"
  using assms(2)
proof (cases rule: verify_code_cases)
  case (wrong c)
  show ?thesis by (rule single_code_update [OF assms(1) wrong(4)]) simp
next
  case (right c)
  show ?thesis by (rule single_code_update [OF assms(1) right(5)]) simp
qed (use assms(1) in simp_all)

lemma find_code_Some:
  "find_code now phone purpose s = Some c \<Longrightarrow> c \<in> set (otps s) \<and> unused_code phone purpose c \<and> now < otp_expires c"
  unfolding find_code_def by (auto dest: find_latest_Some)

lemma verify_uses_attempt:
  assumes "single_code phone purpose s" "attempts_used phone purpose T n s"
    "verify_code ctx phone code purpose s = (r, t)" "ax_now ctx \<le> T"
  shows "attempts_used phone purpose T (min (n + 1) (OTP_MAX_ATTEMPTS (ax_env ctx))) t"
  using assms(3)
proof (cases rule: verify_code_cases)
  case none
  have "\<not> T < otp_expires c" if "c \<in> set (otps s)" "unused_code phone purpose c" for c
    using none(1) that assms(4) unfolding find_code_def find_latest_None by fastforce
  then show ?thesis by (auto simp: attempts_used_def none)
next
  case (max c)
  then have "d = c" if "d \<in> set (otps s)" "unused_code phone purpose d" for d
    using that find_code_Some [OF max(1)] assms(1) unfolding single_code_def by blast
  then show ?thesis using max by (auto simp: attempts_used_def)
next
  case (wrong c)
  have c: "d = c" if "d \<in> set (otps s)" "unused_code phone purpose d" for d
    using that find_code_Some [OF wrong(1)] assms(1) unfolding single_code_def by blast
  have n: "T < otp_expires c \<Longrightarrow> n \<le> otp_attempts c"
    using assms(2) find_code_Some [OF wrong(1)] unfolding attempts_used_def by blast
  show ?thesis
    unfolding attempts_used_def
  proof (intro ballI impI)
    fix d assume d: "d \<in> set (otps t)" "unused_code phone purpose d" "T < otp_expires d"
    from in_update_rowsD [OF d(1) [unfolded wrong(4)]]
    show "min (n + 1) (OTP_MAX_ATTEMPTS (ax_env ctx)) \<le> otp_attempts d"
    proof (elim disjE bexE conjE)
      assume "d \<in> set (otps s)" "otp_id d \<noteq> otp_id c"
      then show ?thesis using c d(2) by blast
    next
      fix e assume e: "e \<in> set (otps s)" "d = e\<lparr>otp_attempts := otp_attempts e + 1\<rparr>"
      then have "e = c" using c d(2) by simp
      then show ?thesis using n d(3) e(2) by simp
    qed
  qed
next
  case (right c)
  have c: "d = c" if "d \<in> set (otps s)" "unused_code phone purpose d" for d
    using that find_code_Some [OF right(1)] assms(1) unfolding single_code_def by blast
  have "\<not> unused_code phone purpose d" if "d \<in> set (otps t)" for d
    using in_update_rowsD [OF that [unfolded right(5)]] c by auto
  then show ?thesis by (simp add: attempts_used_def)
qed

lemma guess_all_used:
  assumes "single_code phone purpose s" "attempts_used phone purpose T n s"
    "\<forall>(ctx, code) \<in> set gs. ax_now ctx \<le> T \<and> OTP_MAX_ATTEMPTS (ax_env ctx) = k"
  shows "single_code phone purpose (guess_all gs phone purpose s)
    \<and> attempts_used phone purpose T (min (n + length gs) k) (guess_all gs phone purpose s)"
  using assms
proof (induction gs arbitrary: s n)
  case Nil
  then show ?case by (auto simp: attempts_used_def)
next
  case (Cons g gs)
  obtain ctx code where g: "g = (ctx, code)" by fastforce
  obtain r t where t: "verify_code ctx phone code purpose s = (r, t)" by fastforce
  have k: "ax_now ctx \<le> T" "OTP_MAX_ATTEMPTS (ax_env ctx) = k" using Cons.prems(3) g by auto
  have "single_code phone purpose t" by (rule verify_keeps_single [OF Cons.prems(1) t])
  moreover have "attempts_used phone purpose T (min (n + 1) k) t"
    using verify_uses_attempt [OF Cons.prems(1,2) t k(1)] k(2) by simp
  ultimately have "single_code phone purpose (guess_all gs phone purpose t) \<and>
      attempts_used phone purpose T (min (min (n + 1) k + length gs) k) (guess_all gs phone purpose t)"
    using Cons.prems(3) by (intro Cons.IH) auto
  moreover have "min (min (n + 1) k + length gs) k = min (n + length (g # gs)) k" by simp
  ultimately show ?case by (simp add: g t)
qed

text \<open>Once all attempts are used no guess succeeds, the right one included.\<close>

lemma exhausted_code_fails:
  assumes "attempts_used phone purpose (ax_now ctx) k s" "OTP_MAX_ATTEMPTS (ax_env ctx) \<le> k"
  shows "verify_code ctx phone code purpose s = raise BadRequest s"
proof (cases "find_code (ax_now ctx) phone purpose s")
  case (Some c)
  then have "k \<le> otp_attempts c" using find_code_Some [OF Some] assms(1) unfolding attempts_used_def by blast
  then show ?thesis using Some assms(2) by (simp add: verify_code_def otp_attempt_def)
qed (simp add: verify_code_def)

section \<open>Guesses at the same time\<close>

text \<open>Requests that read the row before any of them writes: each is judged on the attempts it read.\<close>

fun attempts_together :: "auth_ctx \<Rightarrow> otp_row \<Rightarrow> string list \<Rightarrow> db \<Rightarrow> (error + unit) list \<times> db" where
  "attempts_together ctx c [] s = ([], s)"
| "attempts_together ctx c (code # codes) s =
     (let (r, s1) = otp_attempt ctx c code s; (rs, s2) = attempts_together ctx c codes s1 in (r # rs, s2))"

lemma attempts_together_results:
  assumes "otp_attempts c < OTP_MAX_ATTEMPTS (ax_env ctx)"
  shows "fst (attempts_together ctx c codes s) =
         map (\<lambda>code. if ax_verify ctx (otp_hash c) code then Inr () else Inl BadRequest) codes"
  using assms
proof (induction codes arbitrary: s)
  case (Cons code codes)
  have "fst (otp_attempt ctx c code s) = (if ax_verify ctx (otp_hash c) code then Inr () else Inl BadRequest)"
    using Cons.prems by (simp add: otp_attempt_def)
  then show ?case using Cons by (simp add: case_prod_beta Let_def)
qed simp

section \<open>Issuing\<close>

lemma issue_code_single:
  assumes "issue_code ctx phone purpose s = (Inr n, t)"
  shows "single_code phone purpose t" "attempts_used phone purpose T 0 t"
  using assms
  by (auto simp: issue_code_def and_then_Inr Let_def single_code_def attempts_used_def split: if_splits)

lemma enforce_frame [frame_simps]:
  assumes "enforce_rate_limits ctx phone purpose s = (r, t)"
  shows "otps t = otps s" "users t = users s" "sessions t = sessions s" "masters t = masters s"
    "sms_sent t = sms_sent s" "next_id t = next_id s" "referrals t = referrals s"
proof -
  have "otps t = otps s \<and> users t = users s \<and> sessions t = sessions s \<and> masters t = masters s
    \<and> sms_sent t = sms_sent s \<and> next_id t = next_id s \<and> referrals t = referrals s"
    using assms
    by (auto simp: enforce_rate_limits_def redis_set_nx_def redis_incr_def raise_def ok_def
        split: if_splits option.splits prod.splits)
  then show "otps t = otps s" "users t = users s" "sessions t = sessions s" "masters t = masters s"
    "sms_sent t = sms_sent s" "next_id t = next_id s" "referrals t = referrals s" by simp_all
qed

lemma issue_frame [frame_simps]:
  assumes "issue_code ctx phone purpose s = (r, t)"
  shows "users t = users s" "sessions t = sessions s" "masters t = masters s" "referrals t = referrals s"
proof -
  have "users t = users s \<and> sessions t = sessions s \<and> masters t = masters s \<and> referrals t = referrals s"
    using assms enforce_frame
    by (fastforce simp: issue_code_def and_then_eq Let_def raise_def ok_def split: if_splits)
  then show "users t = users s" "sessions t = sessions s" "masters t = masters s" "referrals t = referrals s" by simp_all
qed

lemma ensure_frame [frame_simps]:
  assumes "ensure_challenge ctx phone purpose s = (r, t)"
  shows "users t = users s" "sessions t = sessions s" "masters t = masters s"
proof -
  have "users t = users s \<and> sessions t = sessions s \<and> masters t = masters s"
    using assms issue_frame
    by (fastforce simp: ensure_challenge_def Let_def ok_def split: if_splits prod.splits sum.splits error.splits)
  then show "users t = users s" "sessions t = sessions s" "masters t = masters s" by simp_all
qed

text \<open>The daily cap: with the store up and a positive cooldown nobody is sent more than the cap.\<close>

lemma issue_at_cap:
  assumes "ax_redis_up ctx" "0 < OTP_RESEND_COOLDOWN_SECONDS (ax_env ctx)"
    "live_entry (ax_now ctx) (Otp_Cooldown purpose phone) s = None"
    "live_entry (ax_now ctx) (Otp_Daily phone) s = Some e" "OTP_DAILY_CAP_PER_PHONE (ax_env ctx) \<le> re_count e"
  shows "\<exists>t. issue_code ctx phone purpose s = (Inl BadRequest, t) \<and> otps t = otps s \<and> sms_sent t = sms_sent s"
  using assms
  by (simp add: issue_code_def enforce_rate_limits_def redis_set_nx_def redis_incr_def raise_def ok_def)

end
