(* ===== verification/Users.thy ===== *)
theory Users
  imports Orders
begin

text \<open>
  \<open>modules/users/users.service.ts\<close>: the profiles, the media a master shows as evidence, and the
  address book.  The field cipher is the parameter \<open>uc_encrypt\<close>.  An address book has at most
  one default address (\<open>one_default\<close>) as long as the two halves of \<open>createAddress\<close> are not
  interleaved; they are separate definitions so that the interleaving can be stated.
\<close>

section \<open>Profiles\<close>

record users_ctx =
  uc_now :: time
  uc_encrypt :: "string \<Rightarrow> string"

record me_dto =
  me_id :: id
  me_phone :: string
  me_role :: role
  me_status :: user_status
  me_locale :: locale_code
  me_referral_code :: string
  me_created :: time
  me_customer :: "(string option \<times> string option) option"
  me_master :: "(string option \<times> verification_status \<times> int) option"

definition find_customer :: "id \<Rightarrow> db \<Rightarrow> customer_profile_row option" where
  "find_customer u s = find_row (\<lambda>r. cp_user r = u) (customer_profiles s)"

definition find_master :: "id \<Rightarrow> db \<Rightarrow> master_row option" where
  "find_master u s = find_row (\<lambda>r. m_user r = u) (masters s)"

definition get_me :: "id \<Rightarrow> db \<Rightarrow> me_dto result" where
  "get_me u s =
     (case find_row (\<lambda>r. u_id r = u) (users s) of
        None \<Rightarrow> Inl NotFound
      | Some r \<Rightarrow>
          Inr \<lparr>me_id = u_id r, me_phone = u_phone r, me_role = u_role r, me_status = u_status r,
               me_locale = u_locale r, me_referral_code = u_referral_code r, me_created = u_created r,
               me_customer = map_option (\<lambda>c. (cp_name c, cp_avatar c)) (find_customer u s),
               me_master = map_option (\<lambda>m. (m_name m, m_verification m, m_trust_tier m)) (find_master u s)\<rparr>)"

text \<open>An absent \<open>avatarUrl\<close> leaves the stored one alone.\<close>

definition update_customer_profile ::
  "id \<Rightarrow> string \<Rightarrow> string option \<Rightarrow> db \<Rightarrow> (string option \<times> string option) \<times> db" where
  "update_customer_profile u name avatar s =
     (case find_customer u s of
        Some r \<Rightarrow>
          ((Some name, or_keep_some avatar (cp_avatar r)),
           s\<lparr>customer_profiles := update_rows (\<lambda>r. cp_user r = u)
               (\<lambda>r. r\<lparr>cp_name := Some name, cp_avatar := or_keep_some avatar (cp_avatar r)\<rparr>)
               (customer_profiles s)\<rparr>)
      | None \<Rightarrow>
          ((Some name, avatar),
           s\<lparr>customer_profiles := customer_profiles s @ [\<lparr>cp_user = u, cp_name = Some name, cp_avatar = avatar\<rparr>]\<rparr>))"

record master_profile_dto =
  mp_name :: "string option"
  mp_avatar :: "string option"
  mp_years :: int
  mp_bio :: "string option"
  mp_verification :: verification_status
  mp_trust_tier :: int
  mp_rating :: rat
  mp_jobs :: int
  mp_online :: bool
  mp_online_since :: "time option"
  mp_self_employed :: bool
  mp_pinfl_set :: bool
  mp_skills :: "(id \<times> string \<times> string \<times> string) list"
  mp_areas :: "(id \<times> string \<times> rat \<times> rat \<times> int) list"
  mp_media :: "(id \<times> master_media_kind \<times> object_key \<times> string option \<times> bool) list"

definition skill_dto :: "db \<Rightarrow> skill_row \<Rightarrow> (id \<times> string \<times> string \<times> string) option" where
  "skill_dto s k = map_option (\<lambda>c. (sk_category k, c_slug c, c_name_uz c, c_name_ru c))
     (find_row (\<lambda>c. c_id c = sk_category k) (categories s))"

definition master_profile_to_dto :: "db \<Rightarrow> master_row \<Rightarrow> master_profile_dto" where
  "master_profile_to_dto s m =
     \<lparr>mp_name = m_name m, mp_avatar = m_avatar m, mp_years = m_years m, mp_bio = m_bio m,
      mp_verification = m_verification m, mp_trust_tier = m_trust_tier m, mp_rating = fl64 (m_rating m),
      mp_jobs = m_jobs m, mp_online = m_online m, mp_online_since = m_online_since m,
      mp_self_employed = m_self_employed m, mp_pinfl_set = (m_pinfl m \<noteq> None),
      mp_skills = List.map_filter (skill_dto s) (filter (\<lambda>k. sk_master k = m_user m) (skills s)),
      mp_areas = map (\<lambda>a. (sa_id a, sa_label a, fl64 (sa_lat a), fl64 (sa_lng a), sa_radius a))
                   (filter (\<lambda>a. sa_master a = m_user m) (areas s)),
      mp_media = map (\<lambda>r. (mm_id r, mm_kind r, mm_key r, mm_caption r, mm_approved r))
                   (filter (\<lambda>r. mm_master r = m_user m) (master_media s))\<rparr>"

definition get_master_profile :: "id \<Rightarrow> db \<Rightarrow> master_profile_dto result" where
  "get_master_profile u s =
     (case find_master u s of None \<Rightarrow> Inl NotFound | Some m \<Rightarrow> Inr (master_profile_to_dto s m))"

text \<open>\<open>update\<close> on a missing row is the client's record-not-found error.\<close>

definition set_master_availability ::
  "time \<Rightarrow> id \<Rightarrow> bool \<Rightarrow> db \<Rightarrow> (bool \<times> time option, db) outcome" where
  "set_master_availability now u online s =
     (case find_master u s of
        None \<Rightarrow> raise InternalError s
      | Some m \<Rightarrow>
          let since = (if online then Some now else None)
          in ok (online, since)
               (s\<lparr>masters := update_rows (\<lambda>r. m_user r = u)
                    (\<lambda>r. r\<lparr>m_online := online, m_online_since := since\<rparr>) (masters s)\<rparr>))"

section \<open>Editing a master profile\<close>

record area_input =
  ar_label :: string
  ar_lat :: rat
  ar_lng :: rat
  ar_radius :: int

record master_profile_update =
  mu_name :: string
  mu_avatar :: "string option"
  mu_years :: int
  mu_bio :: "string option"
  mu_skills :: "id list"
  mu_areas :: "area_input list"
  mu_pinfl :: "string option"
  mu_self_employed :: bool

definition skills_known :: "id list \<Rightarrow> db \<Rightarrow> bool" where
  "skills_known ks s =
     (ks = [] \<or> count_rows (\<lambda>c. c_id c \<in> set ks \<and> c_active c) (categories s) = card (set ks))"

definition pinfl_given :: "users_ctx \<Rightarrow> master_profile_update \<Rightarrow> string option" where
  "pinfl_given ctx d =
     (case mu_pinfl d of None \<Rightarrow> None | Some p \<Rightarrow> if p = [] then None else Some (uc_encrypt ctx p))"

definition edit_master :: "users_ctx \<Rightarrow> master_profile_update \<Rightarrow> master_row \<Rightarrow> master_row" where
  "edit_master ctx d r =
     r\<lparr>m_name := Some (mu_name d), m_avatar := or_keep_some (mu_avatar d) (m_avatar r), m_years := mu_years d,
       m_bio := or_keep_some (mu_bio d) (m_bio r), m_self_employed := mu_self_employed d,
       m_pinfl := or_keep_some (pinfl_given ctx d) (m_pinfl r)\<rparr>"

definition new_master :: "users_ctx \<Rightarrow> id \<Rightarrow> master_profile_update \<Rightarrow> master_row" where
  "new_master ctx u d =
     \<lparr>m_user = u, m_name = Some (mu_name d), m_avatar = mu_avatar d, m_years = mu_years d, m_bio = mu_bio d,
      m_verification = V_UNVERIFIED, m_trust_tier = 0, m_rating = 0, m_jobs = 0, m_pinfl = pinfl_given ctx d,
      m_self_employed = mu_self_employed d, m_online = False, m_online_since = None\<rparr>"

definition upsert_master :: "users_ctx \<Rightarrow> id \<Rightarrow> master_profile_update \<Rightarrow> db \<Rightarrow> db" where
  "upsert_master ctx u d s =
     (case find_master u s of
        Some _ \<Rightarrow> s\<lparr>masters := update_rows (\<lambda>r. m_user r = u) (edit_master ctx d) (masters s)\<rparr>
      | None \<Rightarrow> s\<lparr>masters := masters s @ [new_master ctx u d]\<rparr>)"

definition replace_skills :: "id \<Rightarrow> id list \<Rightarrow> db \<Rightarrow> db" where
  "replace_skills u ks s =
     s\<lparr>skills := delete_rows (\<lambda>k. sk_master k = u) (skills s)
         @ map (\<lambda>c. \<lparr>sk_master = u, sk_category = c\<rparr>) (remdups ks)\<rparr>"

definition area_rows :: "id \<Rightarrow> id \<Rightarrow> area_input list \<Rightarrow> area_row list" where
  "area_rows i u ds =
     map (\<lambda>(k, a). \<lparr>sa_id = k, sa_master = u, sa_label = ar_label a, sa_lat = numeric6 (ar_lat a),
                    sa_lng = numeric6 (ar_lng a), sa_radius = ar_radius a\<rparr>) (enumerate i ds)"

definition replace_areas :: "id \<Rightarrow> area_input list \<Rightarrow> db \<Rightarrow> db" where
  "replace_areas u ds s =
     s\<lparr>areas := delete_rows (\<lambda>a. sa_master a = u) (areas s) @ area_rows (next_id s) u ds,
       next_id := next_id s + length ds\<rparr>"

definition update_master_profile ::
  "users_ctx \<Rightarrow> id \<Rightarrow> master_profile_update \<Rightarrow> db \<Rightarrow> (master_profile_dto, db) outcome" where
  "update_master_profile ctx u d s =
     (if \<not> skills_known (mu_skills d) s then raise BadRequest s
      else let s1 = replace_areas u (mu_areas d) (replace_skills u (mu_skills d) (upsert_master ctx u d s))
           in case get_master_profile u s1 of Inl e \<Rightarrow> raise e s1 | Inr r \<Rightarrow> ok r s1)"

section \<open>Evidence of a master\<close>

definition master_media_ext :: "string \<Rightarrow> string option" where
  "master_media_ext = js_lookup
     [(''image/jpeg'', ''.jpg''), (''image/png'', ''.png''), (''image/webp'', ''.webp''),
      (''image/heic'', ''.heic'')] inherited_text"

definition master_media_max_bytes :: nat where
  "master_media_max_bytes = 10 * 1024 * 1024"

definition add_master_media ::
  "id \<Rightarrow> master_media_kind \<Rightarrow> byte list \<Rightarrow> string \<Rightarrow> string option \<Rightarrow> db \<Rightarrow> (master_media_row, db) outcome" where
  "add_master_media u kind buffer mime caption s =
     (case master_media_ext mime of
        None \<Rightarrow> raise UnsupportedMediaType s
      | Some ext \<Rightarrow>
          if length buffer > master_media_max_bytes then raise BadRequest s
          else case matches_magic_bytes buffer mime of
            Inl err \<Rightarrow> raise err s
          | Inr matches \<Rightarrow>
          if \<not> matches then raise UnsupportedMediaType s
          else let key = Object_Key (next_id s) ext;
                   s1 = s\<lparr>files := files s @ [(key, buffer)], next_id := next_id s + 1\<rparr>;
                   m = \<lparr>mm_id = next_id s1, mm_master = u, mm_kind = kind, mm_key = key, mm_mime = mime,
                        mm_caption = caption, mm_approved = False\<rparr>
               in ok m (s1\<lparr>master_media := master_media s1 @ [m], next_id := next_id s1 + 1\<rparr>))"

text \<open>Deleting removes the row; unlike order media the stored file stays.\<close>

definition delete_master_media :: "id \<Rightarrow> id \<Rightarrow> db \<Rightarrow> (unit, db) outcome" where
  "delete_master_media u i s =
     (case find_row (\<lambda>m. mm_id m = i) (master_media s) of
        None \<Rightarrow> raise NotFound s
      | Some m \<Rightarrow>
          if mm_master m \<noteq> u then raise Forbidden s
          else ok () (s\<lparr>master_media := delete_rows (\<lambda>r. mm_id r = i) (master_media s)\<rparr>))"

definition get_master_media_file :: "id \<Rightarrow> db \<Rightarrow> (object_key \<times> string) result" where
  "get_master_media_file i s =
     (case find_row (\<lambda>m. mm_id m = i) (master_media s) of
        None \<Rightarrow> Inl NotFound
      | Some m \<Rightarrow> Inr (mm_key m, mm_mime m))"

section \<open>Addresses\<close>

record address_input =
  ad_label :: string
  ad_text :: string
  ad_lat :: rat
  ad_lng :: rat
  ad_default :: bool

definition default_first :: "address_row list \<Rightarrow> address_row list" where
  "default_first rows = filter a_default rows @ filter (\<lambda>a. \<not> a_default a) rows"

definition list_addresses :: "id \<Rightarrow> db \<Rightarrow> address_row list" where
  "list_addresses u s = default_first (newest_first a_created (filter (\<lambda>a. a_user a = u) (addresses s)))"

definition clear_default :: "id \<Rightarrow> db \<Rightarrow> db" where
  "clear_default u s =
     s\<lparr>addresses := update_rows (\<lambda>a. a_user a = u) (\<lambda>a. a\<lparr>a_default := False\<rparr>) (addresses s)\<rparr>"

definition insert_address :: "time \<Rightarrow> id \<Rightarrow> address_input \<Rightarrow> db \<Rightarrow> address_row \<times> db" where
  "insert_address now u d s =
     (let a = \<lparr>a_id = next_id s, a_user = u, a_label = ad_label d, a_text = ad_text d,
               a_lat = numeric6 (ad_lat d), a_lng = numeric6 (ad_lng d), a_default = ad_default d, a_created = now\<rparr>
      in (a, s\<lparr>addresses := addresses s @ [a], next_id := next_id s + 1\<rparr>))"

definition create_address :: "time \<Rightarrow> id \<Rightarrow> address_input \<Rightarrow> db \<Rightarrow> address_row \<times> db" where
  "create_address now u d s = insert_address now u d (if ad_default d then clear_default u s else s)"

definition owned_address :: "id \<Rightarrow> id \<Rightarrow> db \<Rightarrow> bool" where
  "owned_address u i s =
     (case find_row (\<lambda>a. a_id a = i) (addresses s) of None \<Rightarrow> False | Some a \<Rightarrow> a_user a = u)"

definition set_default_address :: "id \<Rightarrow> id \<Rightarrow> db \<Rightarrow> (unit, db) outcome" where
  "set_default_address u i s =
     (if \<not> owned_address u i s then raise NotFound s
      else let s1 = clear_default u s
           in ok () (s1\<lparr>addresses := update_rows (\<lambda>a. a_id a = i) (\<lambda>a. a\<lparr>a_default := True\<rparr>) (addresses s1)\<rparr>))"

definition delete_address :: "id \<Rightarrow> id \<Rightarrow> db \<Rightarrow> (unit, db) outcome" where
  "delete_address u i s =
     (if \<not> owned_address u i s then raise NotFound s
      else ok () (s\<lparr>addresses := delete_rows (\<lambda>a. a_id a = i) (addresses s)\<rparr>))"

section \<open>The address book\<close>

definition default_of :: "id \<Rightarrow> address_row \<Rightarrow> bool" where
  "default_of u a = (a_user a = u \<and> a_default a)"

definition one_default :: "db \<Rightarrow> bool" where
  "one_default s =
     (distinct (map a_id (addresses s)) \<and> (\<forall>i \<in> set (map a_id (addresses s)). i < next_id s) \<and>
      (\<forall>u. count_rows (default_of u) (addresses s) \<le> 1))"

lemma default_of_update [simp]: "default_of u (a\<lparr>a_default := b\<rparr>) = (a_user a = u \<and> b)"
  by (simp add: default_of_def)

lemma default_of_user: "default_of u a \<Longrightarrow> a_user a = u"
  by (simp add: default_of_def)

lemma clear_default_keys [simp]: "map a_id (addresses (clear_default u s)) = map a_id (addresses s)"
  "next_id (clear_default u s) = next_id s"
  by (simp_all add: clear_default_def map_key_update_rows)

lemma clear_default_count:
  "count_rows (default_of v) (addresses (clear_default u s)) =
   (if v = u then 0 else count_rows (default_of v) (addresses s))"
proof -
  have "count_rows (default_of v) (update_rows (\<lambda>a. a_user a = u) (\<lambda>a. a\<lparr>a_default := False\<rparr>) t) =
        (if v = u then 0 else count_rows (default_of v) t)" for t
    by (induction t) (auto dest: default_of_user)
  then show ?thesis by (simp add: clear_default_def)
qed

lemma create_address_one_default:
  assumes "one_default s" "create_address now u d s = (a, t)"
  shows "one_default t"
proof -
  let ?s = "if ad_default d then clear_default u s else s"
  have a: "a_id a = next_id s" "a_user a = u" "a_default a = ad_default d"
    and t: "addresses t = addresses ?s @ [a]" "next_id t = next_id s + 1"
    using assms(2) by (auto simp: create_address_def insert_address_def Let_def)
  have k: "map a_id (addresses t) = map a_id (addresses s) @ [next_id s]" by (simp add: t a)
  have "count_rows (default_of v) (addresses t) \<le> 1" for v
  proof -
    have "count_rows (default_of v) (addresses s) \<le> 1" using assms(1) by (simp add: one_default_def)
    moreover have "default_of v a \<longleftrightarrow> u = v \<and> ad_default d" by (simp add: default_of_def a)
    ultimately show ?thesis by (auto simp: t clear_default_count)
  qed
  moreover have "distinct (map a_id (addresses t))" "\<forall>i \<in> set (map a_id (addresses t)). i < next_id t"
    using assms(1) unfolding k t(2) one_default_def by (auto simp: less_Suc_eq)
  ultimately show ?thesis unfolding one_default_def by blast
qed

lemma count_one_key:
  assumes "distinct (map key t)" "\<And>r. r \<in> set t \<Longrightarrow> P r \<Longrightarrow> key r = k"
  shows "count_rows P t \<le> 1"
  using assms
proof (induction t)
  case (Cons r t)
  show ?case
  proof (cases "P r")
    case True
    have "\<not> P q" if q: "q \<in> set t" for q
    proof
      assume "P q"
      then have "key q = key r" using Cons.prems(2) [of q] Cons.prems(2) [of r] True q by simp
      then have "key r \<in> key ` set t" using q by (metis imageI)
      then show False using Cons.prems(1) by simp
    qed
    then have "count_rows P t = 0" by (simp add: count_rows_def filter_empty_conv)
    then show ?thesis using True by simp
  next
    case False
    then show ?thesis using Cons by simp
  qed
qed simp

lemma count_rows_0_iff: "count_rows P t = 0 \<longleftrightarrow> (\<forall>r \<in> set t. \<not> P r)"
  by (simp add: count_rows_def filter_empty_conv)

lemma count_rows_filter_le: "count_rows P (filter Q t) \<le> count_rows P t"
  by (induction t) auto

lemma set_default_one_default:
  assumes "one_default s" "set_default_address u i s = (r, t)"
  shows "one_default t"
proof (cases "owned_address u i s")
  case True
  let ?s = "clear_default u s"
  let ?t = "update_rows (\<lambda>a. a_id a = i) (\<lambda>a. a\<lparr>a_default := True\<rparr>) (addresses ?s)"
  have t: "addresses t = ?t" "next_id t = next_id s"
    using assms(2) True by (auto simp: set_default_address_def Let_def)
  have d: "distinct (map a_id (addresses s))" using assms(1) by (simp add: one_default_def)
  have k: "map a_id ?t = map a_id (addresses s)" by (simp add: map_key_update_rows)
  obtain a where a: "a \<in> set (addresses s)" "a_id a = i" "a_user a = u"
    using True find_row_Some unfolding owned_address_def by (fastforce split: option.splits)
  have own: "a_user b = u" if "b \<in> set (addresses ?s)" "a_id b = i" for b
  proof -
    from that(1) obtain c where c: "c \<in> set (addresses s)" "a_id c = a_id b" "a_user c = a_user b"
      by (fastforce simp: clear_default_def set_update_rows)
    then show ?thesis using find_row_key_unique [OF d c(1) a(1)] that(2) a(2,3) by metis
  qed
  have "count_rows (default_of v) ?t \<le> 1" for v
  proof (cases "v = u")
    case True
    have none: "\<forall>c \<in> set (addresses ?s). \<not> default_of u c"
      using clear_default_count [of u u s] unfolding count_rows_0_iff [symmetric] by simp
    have "a_id b = i" if "b \<in> set ?t" "default_of v b" for b
    proof -
      from in_update_rowsD [OF that(1)] consider "b \<in> set (addresses ?s)"
        | c where "a_id c = i" "b = c\<lparr>a_default := True\<rparr>" by blast
      then show ?thesis by cases (use none that(2) True in auto)
    qed
    then show ?thesis using k d by (intro count_one_key [of a_id]) auto
  next
    case False
    have "count_rows (default_of v) ?t = count_rows (default_of v) (addresses ?s)"
    proof -
      have "count_rows (default_of v) (update_rows (\<lambda>a. a_id a = i) (\<lambda>a. a\<lparr>a_default := True\<rparr>) w) =
            count_rows (default_of v) w" if "\<forall>b \<in> set w. a_id b = i \<longrightarrow> a_user b = u" for w
        using that False by (induction w) (auto dest: default_of_user)
      then show ?thesis using own by blast
    qed
    then show ?thesis using False assms(1) by (simp add: clear_default_count one_default_def)
  qed
  then show ?thesis unfolding one_default_def t k using assms(1) by (simp add: one_default_def)
qed (use assms in \<open>simp add: set_default_address_def\<close>)

lemma delete_address_one_default:
  assumes "one_default s" "delete_address u i s = (r, t)"
  shows "one_default t"
proof (cases "owned_address u i s")
  case True
  then have t: "addresses t = filter (\<lambda>a. a_id a \<noteq> i) (addresses s)" "next_id t = next_id s"
    using assms(2) by (auto simp: delete_address_def delete_rows_def)
  have "count_rows (default_of v) (addresses t) \<le> 1" for v
    using count_rows_filter_le [of "default_of v" "\<lambda>a. a_id a \<noteq> i" "addresses s"] assms(1)
    unfolding t one_default_def by (meson le_trans)
  then show ?thesis using assms(1) unfolding one_default_def t by (auto simp: distinct_map_filter)
qed (use assms in \<open>simp add: delete_address_def\<close>)

text \<open>The list shows the default address first, if there is one.\<close>

lemma list_addresses_set: "set (list_addresses u s) = {a \<in> set (addresses s). a_user a = u}"
  by (auto simp: list_addresses_def default_first_def)

lemma list_addresses_default:
  assumes "a \<in> set (addresses s)" "a_user a = u" "a_default a"
  shows "a_default (hd (list_addresses u s))"
proof -
  let ?rows = "newest_first a_created (filter (\<lambda>a. a_user a = u) (addresses s))"
  have "filter a_default ?rows \<noteq> []" using assms by (auto simp: filter_empty_conv)
  then obtain x xs where x: "filter a_default ?rows = x # xs" by (cases "filter a_default ?rows") auto
  have "x \<in> set (filter a_default ?rows)" unfolding x by simp
  then have "a_default x" by simp
  then show ?thesis using x by (simp add: list_addresses_def default_first_def)
qed

end
