(* ===== verification/Auth.thy ===== *)
theory Auth
  imports Otp Referrals Users
begin

text \<open>
  Accounts and sessions: \<open>modules/auth/auth.service.ts\<close>, \<open>token.service.ts\<close> and the guards of
  \<open>common/auth\<close>.  A refresh token is kept as its hash and is consumed once; an access token is the
  signature of the claims (parameters \<open>ax_sign\<close> and \<open>ctx_read\<close> of the guard), so a guard
  sees the claims of the time it was issued.  \<open>register\<close> is public: whoever calls it with a phone
  that is not verified yet replaces the password.
\<close>

section \<open>Sessions\<close>

record auth_tokens =
  at_access :: string
  at_refresh :: string
  at_expires_in :: rat

definition issue_tokens :: "auth_ctx \<Rightarrow> claims \<Rightarrow> db \<Rightarrow> auth_tokens \<times> db" where
  "issue_tokens ctx c s =
     (let expires_in = parse_duration_seconds (JWT_ACCESS_TTL (ax_env ctx));
          row = \<lparr>s_id = next_id s, s_user = cl_id c, s_hash = ax_sha ctx (ax_refresh ctx),
                 s_expires = ax_now ctx + JWT_REFRESH_TTL_DAYS (ax_env ctx) * 86400 * 1000, s_revoked = None\<rparr>
      in (\<lparr>at_access = ax_sign ctx c expires_in, at_refresh = ax_refresh ctx, at_expires_in = expires_in\<rparr>,
          s\<lparr>sessions := sessions s @ [row], next_id := next_id s + 1\<rparr>))"

definition live_session :: "time \<Rightarrow> session_row \<Rightarrow> bool" where
  "live_session now r = (s_revoked r = None \<and> now < s_expires r)"

text \<open>The transaction that holds the row: \<open>i\<close> is the session found by its hash before it.\<close>

definition consume_locked :: "time \<Rightarrow> id \<Rightarrow> db \<Rightarrow> (session_row, db) outcome" where
  "consume_locked now i s =
     (case find_row (\<lambda>r. s_id r = i \<and> live_session now r) (sessions s) of
        None \<Rightarrow> raise Unauthorized s
      | Some r \<Rightarrow> ok r (s\<lparr>sessions := update_rows (\<lambda>r. s_id r = i) (\<lambda>r. r\<lparr>s_revoked := Some now\<rparr>) (sessions s)\<rparr>))"

definition consume_session :: "auth_ctx \<Rightarrow> string \<Rightarrow> db \<Rightarrow> (session_row, db) outcome" where
  "consume_session ctx raw s =
     (case find_row (\<lambda>r. s_hash r = ax_sha ctx raw) (sessions s) of
        None \<Rightarrow> raise Unauthorized s
      | Some r \<Rightarrow> consume_locked (ax_now ctx) (s_id r) s)"

definition revoke_sessions :: "time \<Rightarrow> (session_row \<Rightarrow> bool) \<Rightarrow> db \<Rightarrow> db" where
  "revoke_sessions now P s =
     s\<lparr>sessions := update_rows (\<lambda>r. P r \<and> s_revoked r = None) (\<lambda>r. r\<lparr>s_revoked := Some now\<rparr>) (sessions s)\<rparr>"

definition revoke_by_token :: "auth_ctx \<Rightarrow> string \<Rightarrow> db \<Rightarrow> db" where
  "revoke_by_token ctx raw = revoke_sessions (ax_now ctx) (\<lambda>r. s_hash r = ax_sha ctx raw)"

definition revoke_all_for_user :: "auth_ctx \<Rightarrow> id \<Rightarrow> db \<Rightarrow> db" where
  "revoke_all_for_user ctx u = revoke_sessions (ax_now ctx) (\<lambda>r. s_user r = u)"

section \<open>Login lockout\<close>

definition enforce_login_limit :: "auth_ctx \<Rightarrow> string \<Rightarrow> db \<Rightarrow> (unit, db) outcome" where
  "enforce_login_limit ctx phone s =
     (if ax_redis_up ctx \<and> redis_get (ax_now ctx) (Login_Fail phone) s \<ge> LOGIN_MAX_ATTEMPTS (ax_env ctx)
      then raise Unauthorized s else ok () s)"

definition register_failed_login :: "auth_ctx \<Rightarrow> string \<Rightarrow> db \<Rightarrow> db" where
  "register_failed_login ctx phone s =
     (if ax_redis_up ctx
      then snd (redis_incr (ax_now ctx) (Login_Fail phone) (LOGIN_LOCKOUT_SECONDS (ax_env ctx)) s) else s)"

definition clear_failed_logins :: "auth_ctx \<Rightarrow> string \<Rightarrow> db \<Rightarrow> db" where
  "clear_failed_logins ctx phone s = (if ax_redis_up ctx then redis_del (Login_Fail phone) s else s)"

section \<open>Accounts\<close>

definition find_user :: "id \<Rightarrow> db \<Rightarrow> user_row option" where
  "find_user u s = find_row (\<lambda>r. u_id r = u) (users s)"

definition user_by_phone :: "string \<Rightarrow> db \<Rightarrow> user_row option" where
  "user_by_phone phone s = find_row (\<lambda>r. u_phone r = phone) (users s)"

definition blocked :: "user_status \<Rightarrow> bool" where
  "blocked st = (st = U_BANNED \<or> st = U_SUSPENDED)"

definition claims_of :: "user_row \<Rightarrow> db \<Rightarrow> claims" where
  "claims_of r s = \<lparr>cl_id = u_id r, cl_role = u_role r, cl_status = u_status r,
     cl_verification = map_option m_verification (find_master (u_id r) s)\<rparr>"

record session_user =
  su_id :: id
  su_phone :: string
  su_role :: role
  su_status :: user_status
  su_locale :: locale_code
  su_verification :: "verification_status option"

definition session_user_of :: "user_row \<Rightarrow> db \<Rightarrow> session_user" where
  "session_user_of r s = \<lparr>su_id = u_id r, su_phone = u_phone r, su_role = u_role r, su_status = u_status r,
     su_locale = u_locale r, su_verification = map_option m_verification (find_master (u_id r) s)\<rparr>"

definition log_in :: "auth_ctx \<Rightarrow> user_row \<Rightarrow> db \<Rightarrow> (session_user \<times> auth_tokens) \<times> db" where
  "log_in ctx r s = (let (t, s1) = issue_tokens ctx (claims_of r s) s in ((session_user_of r s, t), s1))"

definition bare_master :: "id \<Rightarrow> master_row" where
  "bare_master u = \<lparr>m_user = u, m_name = None, m_avatar = None, m_years = 0, m_bio = None,
     m_verification = V_UNVERIFIED, m_trust_tier = 0, m_rating = 0, m_jobs = 0, m_pinfl = None,
     m_self_employed = False, m_online = False, m_online_since = None\<rparr>"

definition ensure_profile :: "id \<Rightarrow> role \<Rightarrow> db \<Rightarrow> db" where
  "ensure_profile u r s =
     (if r = MASTER
      then (if find_master u s = None then s\<lparr>masters := masters s @ [bare_master u]\<rparr> else s)
      else (if find_customer u s = None
            then s\<lparr>customer_profiles := customer_profiles s @ [\<lparr>cp_user = u, cp_name = None, cp_avatar = None\<rparr>]\<rparr>
            else s))"

definition referral_alphabet :: string where
  "referral_alphabet = ''ABCDEFGHJKLMNPQRSTUVWXYZ23456789''"

definition referral_code_of :: "byte list \<Rightarrow> string" where
  "referral_code_of bs = map (\<lambda>b. referral_alphabet ! (unat b mod length referral_alphabet)) bs"

definition base36_digit :: "nat \<Rightarrow> char" where
  "base36_digit d = (if d < 10 then char_of (48 + d) else char_of (55 + d))"

fun base36 :: "nat \<Rightarrow> string" where
  "base36 n = (if n < 36 then [base36_digit n] else base36 (n div 36) @ [base36_digit (n mod 36)])"

declare base36.simps [simp del]

definition code_free :: "string \<Rightarrow> db \<Rightarrow> bool" where
  "code_free k s = (find_row (\<lambda>r. u_referral_code r = k) (users s) = None)"

fun try_codes :: "string list \<Rightarrow> db \<Rightarrow> string option" where
  "try_codes [] s = None"
| "try_codes (k # ks) s = (if code_free k s then Some k else try_codes ks s)"

definition unique_referral_code :: "auth_ctx \<Rightarrow> db \<Rightarrow> string" where
  "unique_referral_code ctx s =
     (case try_codes (map (\<lambda>n. referral_code_of (ax_random8 ctx n)) [0, 1, 2, 3, 4]) s of
        Some k \<Rightarrow> k
      | None \<Rightarrow> CHR ''H'' # base36 (nat (ax_now ctx)))"

section \<open>Operations\<close>

record register_input =
  ri_phone :: string
  ri_password :: string
  ri_role :: role
  ri_locale :: locale_code
  ri_referred_by :: "string option"

record otp_challenge =
  oc_phone :: string
  oc_resend_in :: int

definition reregister :: "auth_ctx \<Rightarrow> register_input \<Rightarrow> user_row \<Rightarrow> db \<Rightarrow> db" where
  "reregister ctx d r s =
     ensure_profile (u_id r) (ri_role d)
       (s\<lparr>users := update_rows (\<lambda>x. u_id x = u_id r)
            (\<lambda>x. x\<lparr>u_password := ax_hash ctx (ri_password d), u_role := ri_role d, u_locale := ri_locale d\<rparr>)
            (users s)\<rparr>)"

definition create_account :: "auth_ctx \<Rightarrow> register_input \<Rightarrow> db \<Rightarrow> (unit, db) outcome" where
  "create_account ctx d s =
     (let k = unique_referral_code ctx s
      in if user_by_phone (ri_phone d) s \<noteq> None \<or> \<not> code_free k s then raise UniqueViolation s
         else let r = \<lparr>u_id = next_id s, u_phone = ri_phone d, u_password = ax_hash ctx (ri_password d),
                       u_role = ri_role d, u_status = U_PENDING, u_referral_code = k, u_locale = ri_locale d,
                       u_created = ax_now ctx\<rparr>;
                  s1 = s\<lparr>users := users s @ [r], next_id := next_id s + 1\<rparr>
              in ok () (record_signup (ax_now ctx) (u_id r) (ri_referred_by d)
                          (ensure_profile (u_id r) (ri_role d) s1)))"

definition challenge_for :: "string \<Rightarrow> (int, db) outcome \<Rightarrow> (otp_challenge, db) outcome" where
  "challenge_for phone r = and_then r (\<lambda>n s. ok \<lparr>oc_phone = phone, oc_resend_in = n\<rparr> s)"

definition register :: "auth_ctx \<Rightarrow> register_input \<Rightarrow> db \<Rightarrow> (otp_challenge, db) outcome" where
  "register ctx d s =
     (case user_by_phone (ri_phone d) s of
        Some r \<Rightarrow>
          if u_status r \<noteq> U_PENDING then raise Conflict s
          else challenge_for (ri_phone d) (issue_code ctx (ri_phone d) SIGNUP (reregister ctx d r s))
      | None \<Rightarrow>
          and_then (create_account ctx d s)
            (\<lambda>_ s1. challenge_for (ri_phone d) (issue_code ctx (ri_phone d) SIGNUP s1)))"

definition activate :: "user_row \<Rightarrow> db \<Rightarrow> user_row \<times> db" where
  "activate r s =
     (if u_status r = U_PENDING
      then (r\<lparr>u_status := U_ACTIVE\<rparr>,
            activate_on_verify (u_id r)
              (s\<lparr>users := update_rows (\<lambda>x. u_id x = u_id r) (\<lambda>x. x\<lparr>u_status := U_ACTIVE\<rparr>) (users s)\<rparr>))
      else (r, s))"

definition verify_otp ::
  "auth_ctx \<Rightarrow> string \<Rightarrow> string \<Rightarrow> otp_purpose \<Rightarrow> db \<Rightarrow> (session_user \<times> auth_tokens, db) outcome" where
  "verify_otp ctx phone code purpose s =
     and_then (verify_code ctx phone code purpose s)
       (\<lambda>_ s1. case user_by_phone phone s1 of
          None \<Rightarrow> raise BadRequest s1
        | Some r \<Rightarrow>
            if blocked (u_status r) then raise Forbidden s1
            else let (r', s2) = activate r s1; (x, s3) = log_in ctx r' s2 in ok x s3)"

datatype login_outcome =
    Logged_In session_user auth_tokens
  | Needs_Verification otp_challenge

definition credentials_ok :: "auth_ctx \<Rightarrow> string \<Rightarrow> user_row option \<Rightarrow> bool" where
  "credentials_ok ctx password r =
     (case r of None \<Rightarrow> False | Some u \<Rightarrow> ax_verify ctx (u_password u) password)"

definition login :: "auth_ctx \<Rightarrow> string \<Rightarrow> string \<Rightarrow> db \<Rightarrow> (login_outcome, db) outcome" where
  "login ctx phone password s =
     and_then (enforce_login_limit ctx phone s)
       (\<lambda>_ s0.
          let found = user_by_phone phone s0
          in if \<not> credentials_ok ctx password found
             then raise Unauthorized (register_failed_login ctx phone s0)
             else let r = the found; s1 = clear_failed_logins ctx phone s0
                  in if blocked (u_status r) then raise Forbidden s1
                     else if u_status r = U_PENDING
                       then and_then (challenge_for phone (ensure_challenge ctx phone SIGNUP s1))
                              (\<lambda>c s2. ok (Needs_Verification c) s2)
                     else let ((u, t), s2) = log_in ctx r s1 in ok (Logged_In u t) s2)"

definition request_otp :: "auth_ctx \<Rightarrow> string \<Rightarrow> otp_purpose \<Rightarrow> db \<Rightarrow> (otp_challenge, db) outcome" where
  "request_otp ctx phone purpose s =
     (case user_by_phone phone s of
        Some _ \<Rightarrow> challenge_for phone (issue_code ctx phone purpose s)
      | None \<Rightarrow> ok \<lparr>oc_phone = phone, oc_resend_in = 45\<rparr> s)"

definition refresh :: "auth_ctx \<Rightarrow> string \<Rightarrow> db \<Rightarrow> (session_user \<times> auth_tokens, db) outcome" where
  "refresh ctx raw s =
     and_then (consume_session ctx raw s)
       (\<lambda>session s1. case find_user (s_user session) s1 of
          None \<Rightarrow> raise Unauthorized s1
        | Some r \<Rightarrow>
            if blocked (u_status r) then raise Forbidden s1
            else let (x, s2) = log_in ctx r s1 in ok x s2)"

definition logout :: "auth_ctx \<Rightarrow> string option \<Rightarrow> db \<Rightarrow> db" where
  "logout ctx raw s =
     (case raw of None \<Rightarrow> s | Some x \<Rightarrow> if x = [] then s else revoke_by_token ctx x s)"

definition request_password_reset :: "auth_ctx \<Rightarrow> string \<Rightarrow> db \<Rightarrow> (otp_challenge, db) outcome" where
  "request_password_reset ctx phone s = request_otp ctx phone RESET s"

definition reset_password :: "auth_ctx \<Rightarrow> string \<Rightarrow> string \<Rightarrow> string \<Rightarrow> db \<Rightarrow> (unit, db) outcome" where
  "reset_password ctx phone code new_password s =
     and_then (verify_code ctx phone code RESET s)
       (\<lambda>_ s1. case user_by_phone phone s1 of
          None \<Rightarrow> raise BadRequest s1
        | Some r \<Rightarrow>
            ok () (revoke_all_for_user ctx (u_id r)
              (s1\<lparr>users := update_rows (\<lambda>x. u_id x = u_id r) (\<lambda>x. x\<lparr>u_password := ax_hash ctx new_password\<rparr>)
                   (users s1)\<rparr>)))"

section \<open>Guards\<close>

definition bearer_prefix :: string where
  "bearer_prefix = ''Bearer ''"

definition jwt_auth_guard :: "(string \<Rightarrow> claims option) \<Rightarrow> bool \<Rightarrow> string option \<Rightarrow> claims option result" where
  "jwt_auth_guard read_token is_public header =
     (if is_public then Inr None
      else case header of
        None \<Rightarrow> Inl Unauthorized
      | Some h \<Rightarrow>
          if \<not> starts_with h bearer_prefix then Inl Unauthorized
          else case read_token (drop (length bearer_prefix) h) of
            None \<Rightarrow> Inl Unauthorized
          | Some c \<Rightarrow> if blocked (cl_status c) then Inl Unauthorized else Inr (Some c))"

definition roles_guard :: "role list \<Rightarrow> claims option \<Rightarrow> bool result" where
  "roles_guard required user =
     (if required = [] then Inr True
      else case user of
        None \<Rightarrow> Inl Forbidden
      | Some c \<Rightarrow> if cl_role c \<in> set required then Inr True else Inl Forbidden)"

end
