(* ===== verification/Guarantee.thy ===== *)
theory Guarantee
  imports Orders
begin

text \<open>
  \<open>modules/guarantee/guarantee.service.ts\<close>: a claim is filed once per order and decided once.
  \<open>decide_commit\<close> is the guarded write with the row that was read; \<open>claim_cas\<close> makes two
  deciding administrators produce one decision.
\<close>

definition has_paid :: "id \<Rightarrow> db \<Rightarrow> bool" where
  "has_paid i s = (\<exists>p \<in> set (payments s). p_order p = i \<and> p_status p = P_SUCCEEDED)"

definition verified_master :: "id option \<Rightarrow> db \<Rightarrow> bool" where
  "verified_master m s =
     (case m of
        None \<Rightarrow> False
      | Some i \<Rightarrow> (case find_row (\<lambda>r. m_user r = i) (masters s) of
                     None \<Rightarrow> False | Some r \<Rightarrow> m_verification r = V_VERIFIED))"

definition claim_check :: "id \<Rightarrow> id \<Rightarrow> db \<Rightarrow> error option" where
  "claim_check customer i s =
     (case find_order i s of
        None \<Rightarrow> Some NotFound
      | Some x \<Rightarrow>
          if o_customer x \<noteq> customer then Some Forbidden
          else if o_status x \<noteq> CLOSED then Some Conflict
          else if \<not> verified_master (o_master x) s then Some Conflict
          else if \<not> has_paid i s then Some Conflict
          else if find_row (\<lambda>c. g_order c = i) (claims s) \<noteq> None then Some Conflict
          else None)"

definition file_claim :: "time \<Rightarrow> id \<Rightarrow> id \<Rightarrow> string \<Rightarrow> db \<Rightarrow> (claim_row, db) outcome" where
  "file_claim now customer i reason s =
     (case claim_check customer i s of
        Some e \<Rightarrow> raise e s
      | None \<Rightarrow>
          let c = \<lparr>g_id = next_id s, g_order = i, g_customer = customer, g_reason = reason, g_status = C_OPEN,
                   g_decided_by = None, g_decided_at = None, g_note = None, g_at = now\<rparr>
          in ok c (s\<lparr>claims := claims s @ [c], next_id := next_id s + 1\<rparr>))"

definition claim_for_order :: "id \<Rightarrow> id \<Rightarrow> db \<Rightarrow> claim_row option result" where
  "claim_for_order customer i s =
     (case find_order i s of
        None \<Rightarrow> Inl NotFound
      | Some x \<Rightarrow> if o_customer x \<noteq> customer then Inl Forbidden
                  else Inr (find_row (\<lambda>c. g_order c = i) (claims s)))"

record decision =
  de_approve :: bool
  de_by :: id
  de_at :: time
  de_note :: "string option"

definition apply_decision :: "decision \<Rightarrow> claim_row \<Rightarrow> claim_row" where
  "apply_decision a c =
     c\<lparr>g_status := (if de_approve a then C_APPROVED else C_REJECTED), g_decided_by := Some (de_by a),
       g_decided_at := Some (de_at a), g_note := (case de_note a of None \<Rightarrow> g_note c | Some n \<Rightarrow> Some n)\<rparr>"

definition open_claim :: "claim_status \<Rightarrow> bool" where
  "open_claim st = (st = C_OPEN \<or> st = C_UNDER_REVIEW)"

interpretation claim_cas: guarded_update g_id g_status apply_decision "\<lambda>_ old. open_claim old"
  by unfold_locales (auto simp: apply_decision_def open_claim_def)

definition decide_claim_commit :: "claim_row \<Rightarrow> decision \<Rightarrow> db \<Rightarrow> (unit, db) outcome" where
  "decide_claim_commit c a s =
     (let n = cas_count g_id g_status (g_id c) (g_status c) (claims s);
          s1 = s\<lparr>claims := cas_rows g_id g_status (g_id c) (g_status c) (apply_decision a) (claims s)\<rparr>
      in if n \<noteq> 1 then raise Conflict s1
         else ok () (notify (de_at a) (g_customer c) GUARANTEE_CLAIM_DECIDED
                       [(''claimId'', JInt (int (g_id c))), (''orderId'', JInt (int (g_order c)))] s1))"

definition decide_claim :: "id \<Rightarrow> decision \<Rightarrow> db \<Rightarrow> (claim_row, db) outcome" where
  "decide_claim i a s =
     (case find_row (\<lambda>c. g_id c = i) (claims s) of
        None \<Rightarrow> raise NotFound s
      | Some c \<Rightarrow>
          if \<not> open_claim (g_status c) then raise Conflict s
          else and_then (decide_claim_commit c a s)
                 (\<lambda>_ s1. case find_row (\<lambda>c. g_id c = i) (claims s1) of
                           None \<Rightarrow> raise NotFound s1 | Some d \<Rightarrow> ok d s1))"

section \<open>One claim per order, one decision per claim\<close>

definition claims_ok :: "db \<Rightarrow> bool" where
  "claims_ok s = (distinct (map g_id (claims s)) \<and> distinct (map g_order (claims s)) \<and>
     (\<forall>i \<in> set (map g_id (claims s)). i < next_id s) \<and>
     (\<forall>c \<in> set (claims s). open_claim (g_status c) \<longleftrightarrow> g_decided_at c = None))"

lemma file_claim_Inr:
  "(\<exists>c t. file_claim now customer i reason s = (Inr c, t)) \<longleftrightarrow>
   (\<exists>x. find_order i s = Some x \<and> o_customer x = customer \<and> o_status x = CLOSED
      \<and> verified_master (o_master x) s \<and> has_paid i s \<and> find_row (\<lambda>c. g_order c = i) (claims s) = None)"
  by (auto simp: file_claim_def claim_check_def Let_def ok_def split: option.splits if_splits)

lemma file_claim_ok:
  assumes "claims_ok s" "file_claim now customer i reason s = (Inr c, t)"
  shows "claims_ok t"
proof -
  have "find_row (\<lambda>c. g_order c = i) (claims s) = None"
    using assms(2) by (auto simp: file_claim_def claim_check_def Let_def split: option.splits if_splits)
  then have "i \<notin> set (map g_order (claims s))" by (auto simp: find_row_None)
  then show ?thesis
    using assms by (auto simp: file_claim_def claims_ok_def Let_def open_claim_def split: option.splits)
qed

lemma decide_commit_ok:
  assumes "claims_ok s" "open_claim (g_status c)" "decide_claim_commit c a s = (r, t)"
  shows "claims_ok t"
proof -
  let ?cs = "cas_rows g_id g_status (g_id c) (g_status c) (apply_decision a) (claims s)"
  have t: "claims t = ?cs" "next_id s \<le> next_id t"
    using assms(3) by (auto simp: decide_claim_commit_def Let_def split: if_splits)
  have k: "map g_id ?cs = map g_id (claims s)" by (rule claim_cas.keys_kept)
  have o: "map g_order ?cs = map g_order (claims s)"
    unfolding cas_rows_def by (rule map_key_update_rows) (simp add: apply_decision_def)
  have "\<forall>x \<in> set ?cs. open_claim (g_status x) \<longleftrightarrow> g_decided_at x = None"
    using assms(1) unfolding cas_rows_def claims_ok_def
    by (auto dest!: in_update_rowsD simp: apply_decision_def open_claim_def split: if_splits)
  then show ?thesis
    unfolding claims_ok_def t(1) k o using assms(1) t(2) by (auto simp: claims_ok_def intro: less_le_trans)
qed

end
