(* ===== verification/Verification.thy ===== *)
theory Verification
  imports Orders
begin

text \<open>
  \<open>modules/verification/verification.service.ts\<close>: a master asks to be verified and an
  administrator decides.  Submitting runs in a transaction that holds the master's row, so it is one
  step; deciding is a guarded write (\<open>verification_cas\<close>) in one transaction with the profile.
  \<open>verifications_ok\<close> ties the two tables together: a master has a pending request exactly when
  his profile says PENDING, and never two.
\<close>

section \<open>Operations\<close>

definition set_verification :: "id \<Rightarrow> verification_status \<Rightarrow> db \<Rightarrow> db" where
  "set_verification m st s =
     s\<lparr>masters := update_rows (\<lambda>x. m_user x = m) (\<lambda>x. x\<lparr>m_verification := st\<rparr>) (masters s)\<rparr>"

definition submit_body :: "time \<Rightarrow> id \<Rightarrow> string option \<Rightarrow> db \<Rightarrow> (verification_row, db) outcome" where
  "submit_body now m note_text s =
     (case find_row (\<lambda>x. m_user x = m) (masters s) of
        None \<Rightarrow> raise NotFound s
      | Some x \<Rightarrow>
          if m_verification x = V_VERIFIED then raise Conflict s
          else if find_row (\<lambda>v. v_master v = m \<and> v_status v = V_PENDING) (verifications s) \<noteq> None then raise Conflict s
          else let v = \<lparr>v_id = next_id s, v_master = m, v_provider = MANUAL, v_status = V_PENDING,
                        v_note = note_text, v_decided_by = None, v_decided_at = None, v_created = now\<rparr>
               in ok v (set_verification m V_PENDING
                          (s\<lparr>verifications := verifications s @ [v], next_id := next_id s + 1\<rparr>)))"

definition submit_verification :: "time \<Rightarrow> id \<Rightarrow> string option \<Rightarrow> db \<Rightarrow> (verification_row, db) outcome" where
  "submit_verification now m note_text = transaction (submit_body now m note_text)"

definition my_latest :: "id \<Rightarrow> db \<Rightarrow> verification_row option" where
  "my_latest m s = find_row (\<lambda>_. True) (newest_first v_created (filter (\<lambda>v. v_master v = m) (verifications s)))"

record verdict =
  vd_approve :: bool
  vd_by :: id
  vd_at :: time
  vd_note :: "string option"

definition verdict_status :: "verdict \<Rightarrow> verification_status" where
  "verdict_status a = (if vd_approve a then V_VERIFIED else V_REJECTED)"

definition apply_verdict :: "verdict \<times> string option \<Rightarrow> verification_row \<Rightarrow> verification_row" where
  "apply_verdict a v = v\<lparr>v_status := verdict_status (fst a), v_decided_by := Some (vd_by (fst a)),
     v_decided_at := Some (vd_at (fst a)), v_note := (case vd_note (fst a) of None \<Rightarrow> snd a | Some n \<Rightarrow> Some n)\<rparr>"

interpretation verification_cas: guarded_update v_id v_status apply_verdict "\<lambda>_ old. old = V_PENDING"
  by unfold_locales (auto simp: apply_verdict_def verdict_status_def split: if_splits)

definition decide_body :: "verification_row \<Rightarrow> verdict \<Rightarrow> db \<Rightarrow> (unit, db) outcome" where
  "decide_body v a s =
     (let n = cas_count v_id v_status (v_id v) V_PENDING (verifications s);
          s1 = s\<lparr>verifications := cas_rows v_id v_status (v_id v) V_PENDING (apply_verdict (a, v_note v)) (verifications s)\<rparr>
      in if n \<noteq> 1 then raise Conflict s1
         else ok () (set_verification (v_master v) (verdict_status a) s1))"

definition decide_check :: "verification_row option \<Rightarrow> verdict \<Rightarrow> error option" where
  "decide_check v a =
     (case v of
        None \<Rightarrow> Some NotFound
      | Some v \<Rightarrow>
          if v_status v \<noteq> V_PENDING then Some Conflict
          else if \<not> vd_approve a \<and> (vd_note a = None \<or> vd_note a = Some []) then Some BadRequest
          else None)"

definition decide_commit :: "verification_row \<Rightarrow> verdict \<Rightarrow> db \<Rightarrow> (unit, db) outcome" where
  "decide_commit v a s =
     and_then (transaction (decide_body v a) s)
       (\<lambda>_ s1. ok () (notify (vd_at a) (v_master v)
                        (if vd_approve a then VERIFICATION_APPROVED else VERIFICATION_REJECTED)
                        [(''verificationId'', JInt (int (v_id v)))] s1))"

definition decide_verification :: "id \<Rightarrow> verdict \<Rightarrow> db \<Rightarrow> (verification_row, db) outcome" where
  "decide_verification i a s =
     (let r = find_row (\<lambda>v. v_id v = i) (verifications s)
      in case decide_check r a of
           Some e \<Rightarrow> raise e s
         | None \<Rightarrow> and_then (decide_commit (the r) a s)
             (\<lambda>_ s1. case find_row (\<lambda>v. v_id v = i) (verifications s1) of
                       None \<Rightarrow> raise NotFound s1 | Some v \<Rightarrow> ok v s1))"

section \<open>Requests and profiles agree\<close>

definition pending_of :: "id \<Rightarrow> db \<Rightarrow> nat" where
  "pending_of m s = count_rows (\<lambda>v. v_master v = m \<and> v_status v = V_PENDING) (verifications s)"

definition verifications_ok :: "db \<Rightarrow> bool" where
  "verifications_ok s =
     (distinct (map v_id (verifications s)) \<and> (\<forall>i \<in> set (map v_id (verifications s)). i < next_id s) \<and>
      distinct (map m_user (masters s)) \<and>
      (\<forall>x \<in> set (masters s). pending_of (m_user x) s = (if m_verification x = V_PENDING then 1 else 0)) \<and>
      (\<forall>v \<in> set (verifications s). v_status v = V_PENDING \<longrightarrow> v_master v \<in> m_user ` set (masters s)))"

lemma set_verification_masters:
  "x \<in> set (masters (set_verification m st s)) \<Longrightarrow>
   \<exists>y \<in> set (masters s). m_user x = m_user y \<and> m_verification x = (if m_user y = m then st else m_verification y)"
  by (auto simp: set_verification_def set_update_rows split: if_splits)

lemma set_verification_frame [simp]:
  "verifications (set_verification m st s) = verifications s" "next_id (set_verification m st s) = next_id s"
  "map m_user (masters (set_verification m st s)) = map m_user (masters s)"
  by (simp_all add: set_verification_def map_key_update_rows)

lemma set_verification_users [simp]:
  "m_user ` set (masters (set_verification m st s)) = m_user ` set (masters s)"
  by (metis set_verification_frame(3) list.set_map)

lemma pending_set_verification [simp]: "pending_of k (set_verification m st s) = pending_of k s"
  by (simp add: pending_of_def)

lemma submit_verification_ok:
  assumes "verifications_ok s" "submit_verification now m nt s = (Inr v, t)"
  shows "verifications_ok t"
proof -
  have b: "submit_body now m nt s = (Inr v, t)" using assms(2) by (simp add: submit_verification_def transaction_Inr)
  then obtain x where x: "find_row (\<lambda>x. m_user x = m) (masters s) = Some x"
    and none: "find_row (\<lambda>v. v_master v = m \<and> v_status v = V_PENDING) (verifications s) = None"
    and v: "v_id v = next_id s" "v_master v = m" "v_status v = V_PENDING"
    and t: "t = set_verification m V_PENDING (s\<lparr>verifications := verifications s @ [v], next_id := next_id s + 1\<rparr>)"
    by (auto simp: submit_body_def Let_def split: option.splits if_splits)
  have xm: "m \<in> m_user ` set (masters s)" using find_row_Some [OF x] by auto
  have p0: "pending_of m s = 0" using none by (simp add: pending_of_def count_rows_def find_row_None)
  have p: "pending_of k t = pending_of k s + (if k = m then 1 else 0)" for k
    using v by (simp add: t pending_of_def)
  have "\<forall>y \<in> set (masters t). pending_of (m_user y) t = (if m_verification y = V_PENDING then 1 else 0)"
  proof
    fix y assume "y \<in> set (masters t)"
    then obtain z where z: "z \<in> set (masters s)" "m_user y = m_user z"
      "m_verification y = (if m_user z = m then V_PENDING else m_verification z)"
      unfolding t by (drule_tac set_verification_masters) auto
    then show "pending_of (m_user y) t = (if m_verification y = V_PENDING then 1 else 0)"
      using assms(1) p p0 by (auto simp: verifications_ok_def)
  qed
  then show ?thesis
    using assms(1) v xm unfolding verifications_ok_def t
    by (auto simp: less_Suc_eq simp del: set_map)
qed

lemma decide_body_cases:
  assumes "decide_body v a s = (Inr u, t)"
  shows "cas_count v_id v_status (v_id v) V_PENDING (verifications s) = 1"
    "t = set_verification (v_master v) (verdict_status a)
       (s\<lparr>verifications := cas_rows v_id v_status (v_id v) V_PENDING (apply_verdict (a, v_note v)) (verifications s)\<rparr>)"
  using assms by (auto simp: decide_body_def Let_def split: if_splits)

lemma apply_verdict_simps [simp]:
  "v_id (apply_verdict a v) = v_id v" "v_master (apply_verdict a v) = v_master v"
  "v_status (apply_verdict a v) = verdict_status (fst a)"
  by (simp_all add: apply_verdict_def)

lemma verdict_not_pending [simp]: "verdict_status a \<noteq> V_PENDING"
  by (simp add: verdict_status_def)

lemma cas_verdict_pending:
  assumes "distinct (map v_id t)" "w \<in> set t" "v_status w = V_PENDING"
  shows "count_rows (\<lambda>x. v_master x = k \<and> v_status x = V_PENDING)
           (cas_rows v_id v_status (v_id w) V_PENDING (apply_verdict a) t) + (if v_master w = k then 1 else 0) =
         count_rows (\<lambda>x. v_master x = k \<and> v_status x = V_PENDING) t"
  using assms
proof (induction t)
  case (Cons x t)
  show ?case
  proof (cases "x = w")
    case True
    then have "\<forall>y \<in> set t. \<not> (v_id y = v_id w \<and> v_status y = V_PENDING)"
      using Cons.prems by (auto simp: rev_image_eqI)
    then have "cas_rows v_id v_status (v_id w) V_PENDING (apply_verdict a) t = t"
      unfolding cas_rows_def by (rule update_rows_id)
    then show ?thesis using True Cons.prems(3) by (simp add: cas_rows_def)
  next
    case False
    then have "v_id x \<noteq> v_id w" using Cons.prems by (auto simp: rev_image_eqI)
    then show ?thesis using False Cons by (simp add: cas_rows_def split: if_splits)
  qed
qed simp

text \<open>The row read may be old: only its id, master and note are used.\<close>

lemma decide_body_ok:
  assumes "verifications_ok s" "decide_body v a s = (Inr u, t)" "w \<in> set (verifications s)"
    "v_id w = v_id v" "v_master w = v_master v"
  shows "verifications_ok t"
proof -
  note c = decide_body_cases [OF assms(2)]
  have d: "distinct (map v_id (verifications s))" using assms(1) by (simp add: verifications_ok_def)
  obtain w' where "w' \<in> set (verifications s)" "v_id w' = v_id v" "v_status w' = V_PENDING"
    using c(1) verification_cas.wins_iff [OF d] by blast
  then have w: "v_status w = V_PENDING" using find_row_key_unique [OF d _ assms(3)] assms(4) by metis
  let ?vs = "cas_rows v_id v_status (v_id v) V_PENDING (apply_verdict (a, v_note v)) (verifications s)"
  have vs: "verifications t = ?vs" "next_id t = next_id s" by (simp_all add: c(2))
  have k: "map v_id ?vs = map v_id (verifications s)" by (rule verification_cas.keys_kept)
  have p: "pending_of i t + (if v_master v = i then 1 else 0) = pending_of i s" for i
    using cas_verdict_pending [OF d assms(3) w, of i "(a, v_note v)"] assms(4,5) by (simp add: pending_of_def vs)
  have ms: "m_user ` set (masters t) = m_user ` set (masters s)" "map m_user (masters t) = map m_user (masters s)"
    by (simp_all add: c(2) del: set_map)
  have "\<forall>y \<in> set (masters t). pending_of (m_user y) t = (if m_verification y = V_PENDING then 1 else 0)"
  proof
    fix y assume "y \<in> set (masters t)"
    then obtain z where z: "z \<in> set (masters s)" "m_user y = m_user z"
      "m_verification y = (if m_user z = v_master v then verdict_status a else m_verification z)"
      unfolding c(2) by (drule_tac set_verification_masters) auto
    have "pending_of (m_user z) s = (if m_verification z = V_PENDING then 1 else 0)"
      using assms(1) z(1) by (simp add: verifications_ok_def)
    then show "pending_of (m_user y) t = (if m_verification y = V_PENDING then 1 else 0)"
      using p [of "m_user z"] z(2,3) by (auto split: if_splits)
  qed
  moreover have "v_master x \<in> m_user ` set (masters s)" if "x \<in> set ?vs" "v_status x = V_PENDING" for x
    using that assms(1) unfolding cas_rows_def verifications_ok_def by (auto dest!: in_update_rowsD)
  moreover have "distinct (map v_id (verifications s))" "\<forall>i \<in> set (map v_id (verifications s)). i < next_id s"
    "distinct (map m_user (masters s))"
    using assms(1) by (simp_all add: verifications_ok_def)
  ultimately show ?thesis
    unfolding verifications_ok_def vs k ms by (intro conjI) (assumption | blast)+
qed

lemma decide_commit_keeps:
  assumes "verifications_ok s" "decide_commit v a s = (r, t)" "w \<in> set (verifications s)"
    "v_id w = v_id v" "v_master w = v_master v"
  shows "verifications_ok t"
proof -
  have frame: "verifications_ok (notify n u ty d x)" if "verifications_ok x" for n u ty d x
    using that by (auto simp: verifications_ok_def pending_of_def)
  show ?thesis
  proof (cases "transaction (decide_body v a) s")
    case (Pair b s1)
    show ?thesis
    proof (cases b)
      case (Inl e)
      have "s1 = s" by (rule transaction_Inl [OF Pair [unfolded Inl]])
      then show ?thesis using assms(1,2) Pair Inl by (auto simp: decide_commit_def)
    next
      case (Inr u)
      then have "decide_body v a s = (Inr u, s1)" using Pair by (simp add: transaction_Inr)
      from decide_body_ok [OF assms(1) this assms(3-5)] show ?thesis
        using assms(2) Pair Inr frame by (auto simp: decide_commit_def)
    qed
  qed
qed

end
