(* ===== verification/Reviews.thy ===== *)
theory Reviews
  imports Orders
begin

text \<open>
  \<open>modules/reviews/reviews.service.ts\<close>.  The rating of a master is stored as the mean of the
  ratings of all his reviews, computed in doubles and kept with two decimals; a rating of two or less
  is a complaint for the penalty engine.  \<open>reviews_ok\<close> is what the unique key and the request
  schema give: one review per order, ratings from 1 to 5.
\<close>

section \<open>Operations\<close>

definition complaint_rating_threshold :: int where
  "complaint_rating_threshold = 2"

definition review_check :: "id \<Rightarrow> id \<Rightarrow> db \<Rightarrow> (id result)" where
  "review_check customer i s =
     (case find_order i s of
        None \<Rightarrow> Inl NotFound
      | Some x \<Rightarrow>
          if o_customer x \<noteq> customer then Inl Forbidden
          else if o_status x \<noteq> CLOSED then Inl Conflict
          else case o_master x of
            None \<Rightarrow> Inl Conflict
          | Some m \<Rightarrow> if find_row (\<lambda>r. r_order r = i) (reviews s) \<noteq> None then Inl Conflict else Inr m)"

definition average :: "int list \<Rightarrow> rat option" where
  "average rs = (if rs = [] then None else Some (fl64 (of_int (sum_list rs) / of_nat (length rs))))"

definition ratings_of :: "id \<Rightarrow> review_row list \<Rightarrow> int list" where
  "ratings_of m rows = map r_rating (filter (\<lambda>r. r_master r = m) rows)"

definition store_rating :: "id \<Rightarrow> rat \<Rightarrow> db \<Rightarrow> db" where
  "store_rating m avg s =
     s\<lparr>masters := update_rows (\<lambda>x. m_user x = m) (\<lambda>x. x\<lparr>m_rating := numeric2 avg\<rparr>) (masters s)\<rparr>"

definition review_body ::
  "time \<Rightarrow> id \<Rightarrow> id \<Rightarrow> id \<Rightarrow> int \<Rightarrow> string option \<Rightarrow> db \<Rightarrow> (review_row, db) outcome" where
  "review_body now customer i m rating comment s =
     (if \<exists>r \<in> set (reviews s). r_order r = i then raise UniqueViolation s
      else let r = \<lparr>r_id = next_id s, r_order = i, r_customer = customer, r_master = m, r_rating = rating,
                    r_comment = comment, r_at = now\<rparr>;
               s1 = s\<lparr>reviews := reviews s @ [r], next_id := next_id s + 1\<rparr>;
               avg = (case average (ratings_of m (reviews s1)) of None \<Rightarrow> of_int rating | Some a \<Rightarrow> a)
           in ok r (store_rating m avg s1))"

definition create_review ::
  "time \<Rightarrow> id \<Rightarrow> id \<Rightarrow> int \<Rightarrow> string option \<Rightarrow> string \<Rightarrow> db \<Rightarrow> (review_row, db) outcome" where
  "create_review now customer i rating comment note_text s =
     (case review_check customer i s of
        Inl e \<Rightarrow> raise e s
      | Inr m \<Rightarrow>
          and_then (transaction (review_body now customer i m rating comment) s)
            (\<lambda>r s1.
               if rating \<le> complaint_rating_threshold
               then and_then (record_event now m CUSTOMER_COMPLAINT (Some i) (Some note_text) s1) (\<lambda>_ s2. ok r s2)
               else and_then (recompute_trust_tier now m s1) (\<lambda>_ s2. ok r s2)))"

definition review_for_order :: "id \<Rightarrow> db \<Rightarrow> review_row option" where
  "review_for_order i s = find_row (\<lambda>r. r_order r = i) (reviews s)"

definition recent_reviews :: "id \<Rightarrow> nat \<Rightarrow> db \<Rightarrow> review_row list" where
  "recent_reviews m n s = take n (newest_first r_at (filter (\<lambda>r. r_master r = m) (reviews s)))"

section \<open>Reviews are unique and their ratings in range\<close>

definition reviews_ok :: "db \<Rightarrow> bool" where
  "reviews_ok s = (distinct (map r_order (reviews s)) \<and> (\<forall>r \<in> set (reviews s). 1 \<le> r_rating r \<and> r_rating r \<le> 5))"

lemma review_body_cases:
  assumes "review_body now c i m rating comment s = (Inr r, t)"
  shows "\<not> (\<exists>q \<in> set (reviews s). r_order q = i)"
    "reviews t = reviews s @ [r]" "r_order r = i" "r_master r = m" "r_rating r = rating" "r_customer r = c"
    "masters t = update_rows (\<lambda>x. m_user x = m)
       (\<lambda>x. x\<lparr>m_rating := numeric2 (the (average (ratings_of m (reviews t))))\<rparr>) (masters s)"
    "orders t = orders s" "penalties t = penalties s"
  using assms
  by (auto simp: review_body_def Let_def store_rating_def average_def ratings_of_def split: if_splits)

lemma sum_list_range:
  fixes rs :: "int list"
  assumes "\<forall>r \<in> set rs. 1 \<le> r \<and> r \<le> 5"
  shows "int (length rs) \<le> sum_list rs \<and> sum_list rs \<le> 5 * int (length rs)"
  using assms by (induction rs) auto

lemma average_range:
  assumes "\<forall>r \<in> set rs. 1 \<le> r \<and> r \<le> 5" "average rs = Some a"
  shows "1 \<le> a \<and> a \<le> 5"
proof -
  have n: "0 < length rs" using assms(2) by (auto simp: average_def split: if_splits)
  let ?q = "(of_int (sum_list rs) :: rat) / of_nat (length rs)"
  have s: "(of_nat (length rs) :: rat) \<le> of_int (sum_list rs)" "of_int (sum_list rs) \<le> (5 * of_nat (length rs) :: rat)"
    using sum_list_range [OF assms(1)] by (metis of_int_le_iff of_int_of_nat_eq) (metis sum_list_range [OF assms(1)] of_int_le_iff of_int_mult of_int_numeral of_int_of_nat_eq)
  then have "1 \<le> ?q" "?q \<le> 5" using n by (simp_all add: le_divide_eq divide_le_eq)
  then have "1 \<le> fl64 ?q" "fl64 ?q \<le> 5"
    using double.fl_ge_int [of 1 ?q] double.fl_le_int [of ?q 5] by simp_all
  then show ?thesis using assms(2) by (auto simp: average_def split: if_splits)
qed

lemma numeric2_range: "1 \<le> a \<Longrightarrow> a \<le> 5 \<Longrightarrow> 1 \<le> numeric2 a \<and> numeric2 a \<le> 5"
  using numeric2_mono [of 1 a] numeric2_mono [of a 5] numeric2_int [of 1] numeric2_int [of 5] by simp

lemma create_review_cases:
  assumes "create_review now c i rating comment nt s = (Inr r, t)"
  obtains m s1 where "review_check c i s = Inr m"
    "review_body now c i m rating comment s = (Inr r, s1)"
    "reviews t = reviews s1" "map m_rating (masters t) = map m_rating (masters s1)"
    "map m_user (masters t) = map m_user (masters s1)" "orders t = orders s1"
    "penalties t = penalties s1 @
       (if rating \<le> 2 then [new_penalty now (next_id s1) m CUSTOMER_COMPLAINT (Some i) (Some nt)] else [])"
proof -
  obtain m s1 where m: "review_check c i s = Inr m" "review_body now c i m rating comment s = (Inr r, s1)"
    and rest: "(if rating \<le> complaint_rating_threshold
               then and_then (record_event now m CUSTOMER_COMPLAINT (Some i) (Some nt) s1) (\<lambda>_ s2. ok r s2)
               else and_then (recompute_trust_tier now m s1) (\<lambda>_ s2. ok r s2)) = (Inr r, t)"
    using assms by (auto simp: create_review_def and_then_Inr transaction_Inr split: sum.splits if_splits)
  show thesis
  proof (cases "rating \<le> complaint_rating_threshold")
    case True
    then obtain p s2 where p: "record_event now m CUSTOMER_COMPLAINT (Some i) (Some nt) s1 = (Inr p, s2)" "t = s2"
      using rest by (auto simp: and_then_Inr)
    obtain rr s3 where q: "recompute_trust_tier now m (insert_penalty p s1) = (Inr rr, s3)"
      "t = notify now m PENALTY_ISSUED [(''penaltyRecordId'', JInt (int (pn_id p))),
                      (''eventType'', JStr (penalty_event_name CUSTOMER_COMPLAINT))] s3"
      using p(1) unfolding p(2) by (rule record_event_cases)
    have "map m_rating (masters t) = map m_rating (masters s1)" "map m_user (masters t) = map m_user (masters s1)"
      using recompute_frame [OF q(1)] by (simp_all add: q(2))
    then show thesis
      using that m record_event_frame [OF p(1)] True p(2) by (simp add: complaint_rating_threshold_def)
  next
    case False
    then obtain x where x: "recompute_trust_tier now m s1 = (Inr x, t)" using rest by (auto simp: and_then_Inr)
    show thesis using that m recompute_frame [OF x] False by (simp add: complaint_rating_threshold_def)
  qed
qed

lemma review_check_Inr:
  "review_check c i s = Inr m \<Longrightarrow> \<exists>x. find_order i s = Some x \<and> o_customer x = c \<and> o_status x = CLOSED
     \<and> o_master x = Some m \<and> find_row (\<lambda>r. r_order r = i) (reviews s) = None"
  by (auto simp: review_check_def split: option.splits if_splits)

lemma review_masters:
  assumes "create_review now c i rating comment nt s = (Inr r, t)" "reviews_ok s" "1 \<le> rating" "rating \<le> 5"
    "x \<in> set (masters t)" "m_user x = r_master r"
  shows "m_rating x = numeric2 (the (average (ratings_of (r_master r) (reviews t))))"
    "1 \<le> m_rating x" "m_rating x \<le> 5"
proof -
  obtain m s1 where b: "review_body now c i m rating comment s = (Inr r, s1)"
    and e: "reviews t = reviews s1" "map m_rating (masters t) = map m_rating (masters s1)"
    "map m_user (masters t) = map m_user (masters s1)"
    using assms(1) by (rule create_review_cases)
  note c = review_body_cases [OF b]
  let ?a = "the (average (ratings_of m (reviews s1)))"
  obtain k where k: "k < length (masters t)" "masters t ! k = x" using assms(5) by (auto simp: in_set_conv_nth)
  have l: "length (masters t) = length (masters s1)" using e(2) by (metis length_map)
  have "m_rating x = m_rating (masters s1 ! k)" "m_user x = m_user (masters s1 ! k)"
    using e(2,3) k l by (metis nth_map)+
  moreover have "masters s1 ! k \<in> set (masters s1)" using k l by simp
  ultimately obtain y where y: "y \<in> set (masters s1)" "m_rating x = m_rating y" "m_user y = m"
    using assms(6) c(4) by auto
  have "m_rating y = numeric2 ?a"
    using in_update_rowsD [OF y(1) [unfolded c(7)]] y(3) by (metis (no_types, lifting) master_row.select_convs(8) master_row.surjective master_row.update_convs(8))
  then show r: "m_rating x = numeric2 (the (average (ratings_of (r_master r) (reviews t))))"
    using y(2) c(4) e(1) by simp
  have "\<forall>v \<in> set (ratings_of m (reviews s1)). 1 \<le> v \<and> v \<le> 5"
    using assms(2-4) by (auto simp: ratings_of_def c(2,5) reviews_ok_def)
  moreover have "ratings_of m (reviews s1) \<noteq> []" using c(2,4) by (simp add: ratings_of_def)
  then have "average (ratings_of m (reviews s1)) = Some ?a" by (simp add: average_def)
  ultimately have "1 \<le> ?a \<and> ?a \<le> 5" by (rule average_range)
  then have "1 \<le> numeric2 ?a \<and> numeric2 ?a \<le> 5" using numeric2_range by blast
  then show "1 \<le> m_rating x" "m_rating x \<le> 5" using r c(4) e(1) by simp_all
qed

end
