(* ===== verification/Subscriptions.thy ===== *)
theory Subscriptions
  imports DispatchEligibility
begin

text \<open>
  \<open>modules/subscriptions/subscriptions.service.ts\<close>: the Premium plan of a master.  No row is
  the free plan; an expired trial is rewritten to EXPIRED when it is read.  The dispatch query has
  its own formula for the same question (\<open>premium_at\<close>); the lemma at the end compares them.
\<close>

definition trial_ms :: int where
  "trial_ms = 14 * 24 * 60 * 60 * 1000"

record subscription_dto =
  sd_plan :: subscription_plan
  sd_status :: subscription_status
  sd_trial_ends :: "time option"
  sd_period_end :: "time option"
  sd_premium :: bool

definition free_dto :: subscription_dto where
  "free_dto = \<lparr>sd_plan = FREE, sd_status = S_ACTIVE, sd_trial_ends = None, sd_period_end = None, sd_premium = False\<rparr>"

definition subscription_to_dto :: "subscription_row \<Rightarrow> subscription_dto" where
  "subscription_to_dto r = \<lparr>sd_plan = sb_plan r, sd_status = sb_status r, sd_trial_ends = sb_trial_ends r,
     sd_period_end = sb_period_end r,
     sd_premium = (sb_plan r = PREMIUM \<and> (sb_status r = S_ACTIVE \<or> sb_status r = S_TRIAL))\<rparr>"

definition trial_over :: "time \<Rightarrow> subscription_row \<Rightarrow> bool" where
  "trial_over now r = (sb_status r = S_TRIAL \<and> (case sb_trial_ends r of None \<Rightarrow> False | Some e \<Rightarrow> e < now))"

definition expire_trial :: "subscription_row \<Rightarrow> subscription_row" where
  "expire_trial r = r\<lparr>sb_status := S_EXPIRED\<rparr>"

definition get_status :: "time \<Rightarrow> id \<Rightarrow> db \<Rightarrow> subscription_dto \<times> db" where
  "get_status now m s =
     (case find_row (\<lambda>r. sb_master r = m) (subscriptions s) of
        None \<Rightarrow> (free_dto, s)
      | Some r \<Rightarrow>
          if trial_over now r
          then (subscription_to_dto (expire_trial r),
                s\<lparr>subscriptions := update_rows (\<lambda>r. sb_master r = m) expire_trial (subscriptions s)\<rparr>)
          else (subscription_to_dto r, s))"

definition premium_row :: "time \<Rightarrow> subscription_row \<Rightarrow> subscription_row" where
  "premium_row now r = r\<lparr>sb_plan := PREMIUM, sb_status := S_TRIAL, sb_trial_ends := Some (now + trial_ms),
     sb_period_end := None\<rparr>"

definition upgrade_to_premium :: "time \<Rightarrow> id \<Rightarrow> db \<Rightarrow> (subscription_dto, db) outcome" where
  "upgrade_to_premium now m s =
     (let (d, s1) = get_status now m s
      in if sd_premium d then raise Conflict s1
         else case find_row (\<lambda>r. sb_master r = m) (subscriptions s1) of
           Some r \<Rightarrow> ok (subscription_to_dto (premium_row now r))
                        (s1\<lparr>subscriptions := update_rows (\<lambda>r. sb_master r = m) (premium_row now) (subscriptions s1)\<rparr>)
         | None \<Rightarrow>
             let r = \<lparr>sb_master = m, sb_plan = PREMIUM, sb_status = S_TRIAL, sb_trial_ends = Some (now + trial_ms),
                      sb_period_end = None\<rparr>
             in ok (subscription_to_dto r) (s1\<lparr>subscriptions := subscriptions s1 @ [r]\<rparr>))"

definition is_premium_active :: "time \<Rightarrow> id \<Rightarrow> db \<Rightarrow> bool" where
  "is_premium_active now m s = sd_premium (fst (get_status now m s))"

lemma subscription_simps [simp]:
  "sb_master (expire_trial r) = sb_master r" "sb_status (expire_trial r) = S_EXPIRED"
  "sb_master (premium_row now r) = sb_master r" "sb_status (premium_row now r) = S_TRIAL"
  "sb_plan (premium_row now r) = PREMIUM" "sb_trial_ends (premium_row now r) = Some (now + trial_ms)"
  by (simp_all add: expire_trial_def premium_row_def)

text \<open>Reading twice at the same time changes nothing more.\<close>

lemma get_status_idempotent:
  assumes "get_status now m s = (d, t)"
  shows "get_status now m t = (d, t)"
proof (cases "find_row (\<lambda>r. sb_master r = m) (subscriptions s)")
  case (Some r)
  have "find_row (\<lambda>r. sb_master r = m) (update_rows (\<lambda>r. sb_master r = m) expire_trial (subscriptions s)) =
        Some (expire_trial r)"
    using Some find_row_Some [OF Some] by (subst find_row_update_rows) auto
  then show ?thesis using assms Some by (auto simp: get_status_def trial_over_def split: if_splits)
qed (use assms in \<open>simp add: get_status_def\<close>)

text \<open>The service and the dispatch query agree except at the instant the trial ends.\<close>

lemma premium_agrees:
  assumes "\<And>r. find_row (\<lambda>r. sb_master r = m) (subscriptions s) = Some r \<Longrightarrow> sb_status r = S_TRIAL \<Longrightarrow>
             \<exists>e. sb_trial_ends r = Some e \<and> e \<noteq> now"
  shows "is_premium_active now m s = premium_at now m s"
proof (cases "find_row (\<lambda>r. sb_master r = m) (subscriptions s)")
  case (Some r)
  then show ?thesis
    using assms [OF Some]
    by (cases "sb_status r")
      (auto simp: is_premium_active_def get_status_def premium_at_def trial_over_def subscription_to_dto_def)
qed (simp add: is_premium_active_def get_status_def premium_at_def free_dto_def)

lemma upgrade_gives_premium:
  assumes "upgrade_to_premium now m s = (Inr d, t)" "0 \<le> dt" "dt < trial_ms"
  shows "premium_at (now + dt) m t"
proof -
  obtain d1 s1 where g: "get_status now m s = (d1, s1)" by fastforce
  show ?thesis
  proof (cases "find_row (\<lambda>r. sb_master r = m) (subscriptions s1)")
    case (Some r)
    have "find_row (\<lambda>r. sb_master r = m) (update_rows (\<lambda>r. sb_master r = m) (premium_row now) (subscriptions s1)) =
          Some (premium_row now r)"
      using Some find_row_Some [OF Some] by (subst find_row_update_rows) auto
    then show ?thesis
      using assms g Some by (auto simp: upgrade_to_premium_def premium_at_def split: if_splits)
  next
    case None
    then show ?thesis
      using assms g by (auto simp: upgrade_to_premium_def premium_at_def Let_def find_row_append split: if_splits)
  qed
qed

end
