(* ===== verification/Admin.thy ===== *)
theory Admin
  imports Auth Payments Guarantee Verification Reviews Subscriptions
begin

text \<open>
  The administration: the audit trail (\<open>modules/audit\<close>), the feature flags
  (\<open>modules/feature-flags\<close>), and the services and controllers of \<open>modules/admin\<close>.  The decision
  endpoints wrap the services of the other components and append to the audit trail; nothing removes
  or rewrites an entry.  Display texts and serialised dates are left out; averages the database
  computes are the exact mean rounded to a double.
\<close>

section \<open>Audit trail\<close>

definition record_audit ::
  "time \<Rightarrow> id \<Rightarrow> string \<Rightarrow> string \<Rightarrow> string option \<Rightarrow> json option \<Rightarrow> json option \<Rightarrow> db \<Rightarrow> db" where
  "record_audit now actor action entity eid before after s =
     s\<lparr>audit_logs := audit_logs s @ [\<lparr>al_id = next_id s, al_actor = actor, al_action = action, al_entity = entity,
         al_entity_id = eid, al_before = before, al_after = after, al_at = now\<rparr>],
       next_id := next_id s + 1\<rparr>"

definition list_audit :: "id option \<Rightarrow> id option \<Rightarrow> string option \<Rightarrow> db \<Rightarrow> audit_row list \<times> id option" where
  "list_audit cursor actor entity s =
     page al_id 30 cursor (newest_first al_at
       (filter (\<lambda>r. (case actor of None \<Rightarrow> True | Some a \<Rightarrow> al_actor r = a)
                  \<and> (case entity of None \<Rightarrow> True | Some e \<Rightarrow> e = [] \<or> al_entity r = e)) (audit_logs s)))"

lemma record_audit_frame [simp, frame_simps]:
  "users (record_audit n a b c d e f s) = users s" "sessions (record_audit n a b c d e f s) = sessions s"
  "masters (record_audit n a b c d e f s) = masters s" "orders (record_audit n a b c d e f s) = orders s"
  "payments (record_audit n a b c d e f s) = payments s" "flags (record_audit n a b c d e f s) = flags s"
  "verifications (record_audit n a b c d e f s) = verifications s" "claims (record_audit n a b c d e f s) = claims s"
  "next_id (record_audit n a b c d e f s) = next_id s + 1" "otps (record_audit n a b c d e f s) = otps s"
  "length (audit_logs (record_audit n a b c d e f s)) = length (audit_logs s) + 1"
  by (simp_all add: record_audit_def)

text \<open>The database keeps a key as text.\<close>

definition id_text :: "id \<Rightarrow> string" where
  "id_text i = base36 i"

section \<open>Feature flags\<close>

definition flag_json :: "flag_row \<Rightarrow> json" where
  "flag_json f = JObj [(''key'', JStr (ff_key f)), (''enabled'', JBool (ff_enabled f)),
     (''description'', case ff_description f of None \<Rightarrow> JNull | Some d \<Rightarrow> JStr d),
     (''updatedAt'', JInt (ff_updated f))]"

fun string_le :: "string \<Rightarrow> string \<Rightarrow> bool" where
  "string_le [] ys = True"
| "string_le (x # xs) [] = False"
| "string_le (x # xs) (y # ys) =
     ((of_char x :: nat) < of_char y \<or> x = y \<and> string_le xs ys)"

definition insert_by_key :: "flag_row \<Rightarrow> flag_row list \<Rightarrow> flag_row list" where
  "insert_by_key f fs = takeWhile (\<lambda>g. string_le (ff_key g) (ff_key f)) fs @ [f]
     @ dropWhile (\<lambda>g. string_le (ff_key g) (ff_key f)) fs"

definition list_flags :: "db \<Rightarrow> flag_row list" where
  "list_flags s = foldr insert_by_key (rev (flags s)) []"

definition edit_flag :: "time \<Rightarrow> bool \<Rightarrow> string option \<Rightarrow> flag_row \<Rightarrow> flag_row" where
  "edit_flag now enabled description f =
     f\<lparr>ff_enabled := enabled, ff_description := or_keep_some description (ff_description f), ff_updated := now\<rparr>"

definition upsert_flag :: "time \<Rightarrow> id \<Rightarrow> string \<Rightarrow> bool \<Rightarrow> string option \<Rightarrow> db \<Rightarrow> flag_row \<times> db" where
  "upsert_flag now admin key enabled description s =
     (let before = find_row (\<lambda>f. ff_key f = key) (flags s);
          after = (case before of
                     Some f \<Rightarrow> edit_flag now enabled description f
                   | None \<Rightarrow> \<lparr>ff_key = key, ff_enabled = enabled, ff_description = description, ff_updated = now\<rparr>);
          s1 = (case before of
                  Some _ \<Rightarrow> s\<lparr>flags := update_rows (\<lambda>f. ff_key f = key) (edit_flag now enabled description) (flags s)\<rparr>
                | None \<Rightarrow> s\<lparr>flags := flags s @ [after]\<rparr>)
      in (after, record_audit now admin
            (if before = None then ''FEATURE_FLAG_CREATE'' else ''FEATURE_FLAG_UPDATE'') ''FeatureFlag'' (Some key)
            (map_option flag_json before) (Some (flag_json after)) s1))"

section \<open>Users\<close>

record user_filters =
  uf_phone :: "string option"
  uf_role :: "role option"
  uf_status :: "user_status option"
  uf_verification :: "verification_status option"
  uf_trust_tier :: "int option"
  uf_plan :: "subscription_plan option"

fun contains_text :: "string \<Rightarrow> string \<Rightarrow> bool" where
  "contains_text [] p = (p = [])"
| "contains_text (c # cs) p = (starts_with (c # cs) p \<or> contains_text cs p)"

definition master_filter_active :: "user_filters \<Rightarrow> bool" where
  "master_filter_active f = (uf_verification f \<noteq> None \<or> uf_trust_tier f \<noteq> None \<or> uf_plan f \<noteq> None)"

definition effective_role :: "user_filters \<Rightarrow> role option" where
  "effective_role f = (if master_filter_active f then Some MASTER else uf_role f)"

definition find_subscription :: "id \<Rightarrow> db \<Rightarrow> subscription_row option" where
  "find_subscription m s = find_row (\<lambda>r. sb_master r = m) (subscriptions s)"

definition wants :: "'a option \<Rightarrow> 'a \<Rightarrow> bool" where
  "wants f x = (case f of None \<Rightarrow> True | Some y \<Rightarrow> x = y)"

definition master_matches :: "user_filters \<Rightarrow> id \<Rightarrow> db \<Rightarrow> bool" where
  "master_matches f u s =
     (case find_master u s of
        None \<Rightarrow> False
      | Some m \<Rightarrow>
          wants (uf_verification f) (m_verification m) \<and> wants (uf_trust_tier f) (m_trust_tier m) \<and>
          (uf_plan f = Some PREMIUM \<longrightarrow> find_subscription u s \<noteq> None) \<and>
          (uf_plan f = Some FREE \<longrightarrow> find_subscription u s = None))"

definition user_matches :: "user_filters \<Rightarrow> db \<Rightarrow> user_row \<Rightarrow> bool" where
  "user_matches f s r =
     ((case uf_phone f of None \<Rightarrow> True | Some p \<Rightarrow> contains_text (u_phone r) p) \<and>
      wants (effective_role f) (u_role r) \<and> wants (uf_status f) (u_status r) \<and>
      (master_filter_active f \<longrightarrow> master_matches f (u_id r) s))"

record admin_user =
  au_id :: id
  au_phone :: string
  au_role :: role
  au_status :: user_status
  au_name :: "string option"
  au_created :: time
  au_verification :: "verification_status option"
  au_trust_tier :: "int option"
  au_rating :: "rat option"
  au_jobs :: "int option"
  au_plan :: "subscription_plan option"

definition admin_user_of :: "db \<Rightarrow> user_row \<Rightarrow> admin_user" where
  "admin_user_of s r =
     (let m = find_master (u_id r) s;
          c = find_customer (u_id r) s
      in \<lparr>au_id = u_id r, au_phone = u_phone r, au_role = u_role r, au_status = u_status r,
          au_name = (case Option.bind m m_name of
                       Some n \<Rightarrow> Some n | None \<Rightarrow> Option.bind c cp_name),
          au_created = u_created r,
          au_verification = map_option m_verification m, au_trust_tier = map_option m_trust_tier m,
          au_rating = map_option (\<lambda>x. fl64 (m_rating x)) m, au_jobs = map_option m_jobs m,
          au_plan = map_option (\<lambda>_. if find_subscription (u_id r) s = None then FREE else PREMIUM) m\<rparr>)"

definition admin_list_users :: "user_filters \<Rightarrow> id option \<Rightarrow> db \<Rightarrow> admin_user list \<times> id option" where
  "admin_list_users f cursor s =
     (let (rows, next) = page u_id 30 cursor (newest_first u_created (filter (user_matches f s) (users s)))
      in (map (admin_user_of s) rows, next))"

record admin_user_detail =
  ud_user :: admin_user
  ud_orders :: nat
  ud_points :: "int option"

definition orders_of_user :: "user_row \<Rightarrow> db \<Rightarrow> nat" where
  "orders_of_user r s =
     count_rows (\<lambda>x. if u_role r = MASTER then o_master x = Some (u_id r) else o_customer x = u_id r) (orders s)"

definition admin_user_details :: "time \<Rightarrow> id \<Rightarrow> db \<Rightarrow> admin_user_detail result" where
  "admin_user_details now i s =
     (case find_user i s of
        None \<Rightarrow> Inl NotFound
      | Some r \<Rightarrow>
          let d = admin_user_of s r
          in if u_role r \<noteq> MASTER then Inr \<lparr>ud_user = d, ud_orders = orders_of_user r s, ud_points = None\<rparr>
             else case compute_trust_score now i s of
               Inl e \<Rightarrow> Inl e
             | Inr t \<Rightarrow>
                 Inr \<lparr>ud_user = d\<lparr>au_trust_tier := Some (tr_tier t)\<rparr>, ud_orders = orders_of_user r s,
                      ud_points = Some (snd (penalty_history now i s))\<rparr>)"

definition user_status_text :: "user_status \<Rightarrow> string" where
  "user_status_text st = (case st of
     U_PENDING \<Rightarrow> ''PENDING'' | U_ACTIVE \<Rightarrow> ''ACTIVE'' | U_SUSPENDED \<Rightarrow> ''SUSPENDED'' | U_BANNED \<Rightarrow> ''BANNED'')"

definition set_status :: "id \<Rightarrow> (user_status \<Rightarrow> bool) \<Rightarrow> user_status \<Rightarrow> db \<Rightarrow> nat \<times> db" where
  "set_status i P st s =
     (update_count (\<lambda>r. u_id r = i \<and> P (u_status r)) (users s),
      s\<lparr>users := update_rows (\<lambda>r. u_id r = i \<and> P (u_status r)) (\<lambda>r. r\<lparr>u_status := st\<rparr>) (users s)\<rparr>)"

definition with_details :: "time \<Rightarrow> id \<Rightarrow> db \<Rightarrow> (admin_user_detail, db) outcome" where
  "with_details now i s = (case admin_user_details now i s of Inl e \<Rightarrow> raise e s | Inr d \<Rightarrow> ok d s)"

definition suspend_user :: "time \<Rightarrow> id \<Rightarrow> id \<Rightarrow> string \<Rightarrow> db \<Rightarrow> (admin_user_detail, db) outcome" where
  "suspend_user now target admin reason s =
     (if target = admin then raise Forbidden s
      else case find_user target s of
        None \<Rightarrow> raise NotFound s
      | Some r \<Rightarrow>
          if u_role r = ADMIN then raise Forbidden s
          else let (n, s1) = set_status target (\<lambda>st. st \<noteq> U_SUSPENDED) U_SUSPENDED s
               in with_details now target
                    (record_audit now admin ''USER_SUSPEND'' ''User'' (Some (id_text target))
                       (Some (JObj [(''status'', JStr (user_status_text (u_status r)))]))
                       (Some (JObj [(''status'', JStr ''SUSPENDED''), (''reason'', JStr reason),
                                    (''alreadySuspended'', JBool (n = 0))])) s1))"

definition restore_user :: "time \<Rightarrow> id \<Rightarrow> id \<Rightarrow> db \<Rightarrow> (admin_user_detail, db) outcome" where
  "restore_user now target admin s =
     (case find_user target s of
        None \<Rightarrow> raise NotFound s
      | Some r \<Rightarrow>
          let (n, s1) = set_status target (\<lambda>st. st = U_SUSPENDED) U_ACTIVE s
          in with_details now target
               (record_audit now admin ''USER_RESTORE'' ''User'' (Some (id_text target))
                  (Some (JObj [(''status'', JStr (user_status_text (u_status r)))]))
                  (Some (JObj [(''status'', JStr ''ACTIVE''), (''wasAlreadyActive'', JBool (n = 0))])) s1))"

section \<open>Orders\<close>

record order_filters =
  of_status :: "order_status option"
  of_category :: "id option"
  of_tier :: "service_tier option"
  of_customer :: "id option"
  of_master :: "id option"
  of_from :: "time option"
  of_to :: "time option"
  of_lat :: "rat option"
  of_lng :: "rat option"
  of_radius :: "rat option"

definition in_range :: "time option \<Rightarrow> time option \<Rightarrow> time \<Rightarrow> bool" where
  "in_range from to t =
     ((case from of None \<Rightarrow> True | Some a \<Rightarrow> a \<le> t) \<and> (case to of None \<Rightarrow> True | Some b \<Rightarrow> t \<le> b))"

definition near_point :: "(point \<Rightarrow> point \<Rightarrow> rat) \<Rightarrow> order_filters \<Rightarrow> order_row \<Rightarrow> bool" where
  "near_point geo f x =
     (case (of_lat f, of_lng f, of_radius f) of
        (Some lat, Some lng, Some r) \<Rightarrow>
          (case (o_lat x, o_lng x) of
             (Some a, Some b) \<Rightarrow> geo (a, b) (lat, lng) \<le> r | _ \<Rightarrow> False)
      | _ \<Rightarrow> True)"

definition order_matches :: "(point \<Rightarrow> point \<Rightarrow> rat) \<Rightarrow> order_filters \<Rightarrow> order_row \<Rightarrow> bool" where
  "order_matches geo f x =
     (near_point geo f x \<and> wants (of_status f) (o_status x) \<and> wants (of_tier f) (o_tier x) \<and>
      (case of_category f of None \<Rightarrow> True | Some c \<Rightarrow> o_category x = Some c) \<and>
      wants (of_customer f) (o_customer x) \<and>
      (case of_master f of None \<Rightarrow> True | Some m \<Rightarrow> o_master x = Some m) \<and>
      in_range (of_from f) (of_to f) (o_created x))"

record admin_order =
  ao_id :: id
  ao_no :: nat
  ao_status :: order_status
  ao_tier :: service_tier
  ao_category :: "string option"
  ao_customer_phone :: string
  ao_master_phone :: "string option"
  ao_price_min :: "int option"
  ao_price_max :: "int option"
  ao_final :: "int option"
  ao_created :: time

definition admin_order_of :: "db \<Rightarrow> order_row \<Rightarrow> admin_order" where
  "admin_order_of s x =
     \<lparr>ao_id = o_id x, ao_no = o_no x, ao_status = o_status x, ao_tier = o_tier x,
      ao_category = (case o_category x of None \<Rightarrow> None
                     | Some c \<Rightarrow> map_option c_name_uz (find_row (\<lambda>r. c_id r = c) (categories s))),
      ao_customer_phone = phone_of (o_customer x) s,
      ao_master_phone = map_option (\<lambda>m. phone_of m s) (o_master x),
      ao_price_min = o_price_min x, ao_price_max = o_price_max x, ao_final = o_final x, ao_created = o_created x\<rparr>"

definition admin_list_orders ::
  "(point \<Rightarrow> point \<Rightarrow> rat) \<Rightarrow> order_filters \<Rightarrow> id option \<Rightarrow> db \<Rightarrow> admin_order list \<times> id option" where
  "admin_list_orders geo f cursor s =
     (let (rows, next) = page o_id 30 cursor (newest_first o_created (filter (order_matches geo f) (orders s)))
      in (map (admin_order_of s) rows, next))"

record payment_summary =
  ps_id :: id
  ps_order :: id
  ps_method :: payment_method
  ps_status :: payment_status
  ps_amount :: int
  ps_failure :: "string option"
  ps_note :: "string option"
  ps_resolved_at :: "time option"
  ps_created :: time

definition payment_summary_of :: "payment_row \<Rightarrow> payment_summary" where
  "payment_summary_of p = \<lparr>ps_id = p_id p, ps_order = p_order p, ps_method = p_method p, ps_status = p_status p,
     ps_amount = p_amount p, ps_failure = p_failure p, ps_note = p_note p, ps_resolved_at = p_resolved_at p,
     ps_created = p_created p\<rparr>"

record admin_order_detail =
  aod_order :: admin_order
  aod_description :: string
  aod_address :: "string option"
  aod_history :: "(order_status option \<times> order_status \<times> id option \<times> string option \<times> time) list"
  aod_dispatches :: "(id \<times> dispatch_status \<times> int \<times> time) list"
  aod_payments :: "payment_summary list"

definition oldest_first :: "('r \<Rightarrow> time) \<Rightarrow> 'r list \<Rightarrow> 'r list" where
  "oldest_first created rows = sort_key created rows"

definition admin_order_details :: "id \<Rightarrow> db \<Rightarrow> admin_order_detail result" where
  "admin_order_details i s =
     (case find_order i s of
        None \<Rightarrow> Inl NotFound
      | Some x \<Rightarrow>
          Inr \<lparr>aod_order = admin_order_of s x, aod_description = o_description x, aod_address = o_address x,
               aod_history = map (\<lambda>h. (h_from h, h_to h, h_actor h, h_note h, h_at h))
                               (oldest_first h_at (filter (\<lambda>h. h_order h = i) (history s))),
               aod_dispatches = map (\<lambda>d. (d_master d, d_status d, d_distance d, d_offered_at d))
                                  (oldest_first d_offered_at (filter (\<lambda>d. d_order d = i) (dispatches s))),
               aod_payments = map payment_summary_of
                                (newest_first p_created (filter (\<lambda>p. p_order p = i) (payments s)))\<rparr>)"

section \<open>Support\<close>

record support_dto =
  sp_user :: admin_user_detail
  sp_payments :: "payment_summary list"
  sp_penalties :: "((penalty_event \<times> penalty_severity \<times> int \<times> time) list \<times> int) option"
  sp_referrals :: "string \<times> nat \<times> nat \<times> int"

definition payment_belongs :: "user_row \<Rightarrow> db \<Rightarrow> payment_row \<Rightarrow> bool" where
  "payment_belongs r s p =
     (if u_role r = MASTER
      then \<exists>x \<in> set (orders s). o_id x = p_order p \<and> o_master x = Some (u_id r)
      else p_customer p = u_id r)"

definition lookup_by_phone :: "time \<Rightarrow> string \<Rightarrow> db \<Rightarrow> support_dto result" where
  "lookup_by_phone now phone s =
     (case user_by_phone phone s of
        None \<Rightarrow> Inl NotFound
      | Some r \<Rightarrow>
          (case (admin_user_details now (u_id r) s, get_summary (u_id r) s) of
             (Inl e, _) \<Rightarrow> Inl e
           | (_, Inl e) \<Rightarrow> Inl e
           | (Inr d, Inr sm) \<Rightarrow>
               Inr \<lparr>sp_user = d,
                    sp_payments = map payment_summary_of
                      (take 20 (newest_first p_created (filter (payment_belongs r s) (payments s)))),
                    sp_penalties = (if u_role r = MASTER
                      then (let (items, points) = penalty_history now (u_id r) s
                            in Some (map (\<lambda>p. (pn_event p, pn_severity p, pn_points p, pn_at p)) items, points))
                      else None),
                    sp_referrals = (rs_code sm, rs_referred sm, rs_rewarded sm, rs_earned sm)\<rparr>))"

end
