(* ===== verification/PlatformSystem.thy ===== *)
theory PlatformSystem
  imports PaymentSystem Admin
begin

text \<open>
  Referrals, verification requests and guarantee claims in every order of events.  As with payments a
  request that reads a row first and writes later is two steps: the row goes into the second component of
  the configuration and may be old when the guarded write comes.
\<close>

section \<open>Referrals\<close>

inductive referral_step :: "db \<times> referral_row list \<Rightarrow> db \<times> referral_row list \<Rightarrow> bool" where
  signup: "referral_step (s, rs) (record_signup now c k s, rs)"
| verified: "referral_step (s, rs) (activate_on_verify c s, rs)"
| look: "r \<in> set (referrals s) \<Longrightarrow> referral_step (s, rs) (s, r # rs)"
| paid: "r \<in> set rs \<Longrightarrow> rf_status r = R_ACTIVE \<Longrightarrow> reward_commit now r s = (res, t) \<Longrightarrow> referral_step (s, rs) (t, rs)"
| other: "referrals t = referrals s \<Longrightarrow> cashbacks t = cashbacks s \<Longrightarrow> next_id s \<le> next_id t \<Longrightarrow>
    referral_step (s, rs) (t, rs)"

definition referral_seen :: "referral_row \<Rightarrow> db \<Rightarrow> bool" where
  "referral_seen r s = (\<exists>x \<in> set (referrals s). rf_id x = rf_id r \<and> rf_referrer x = rf_referrer r)"

definition referral_inv :: "db \<times> referral_row list \<Rightarrow> bool" where
  "referral_inv c = (referral_keys (fst c) \<and> books_balance (fst c) \<and> (\<forall>r \<in> set (snd c). referral_seen r (fst c)))"

lemma seen_update:
  assumes "referral_seen r s" "referrals t = update_rows P f (referrals s)"
    "\<And>x. rf_id (f x) = rf_id x \<and> rf_referrer (f x) = rf_referrer x"
  shows "referral_seen r t"
proof -
  obtain x where x: "x \<in> set (referrals s)" "rf_id x = rf_id r" "rf_referrer x = rf_referrer r"
    using assms(1) by (auto simp: referral_seen_def)
  have "(if P x then f x else x) \<in> set (referrals t)" unfolding assms(2) set_update_rows using x(1) by (rule imageI)
  then show ?thesis unfolding referral_seen_def using x assms(3) by (intro bexI) auto
qed

lemma seen_signup: "referral_seen r s \<Longrightarrow> referral_seen r (record_signup now c k s)"
  by (auto simp: referral_seen_def record_signup_def split: option.splits)

lemma referral_step_inv:
  assumes "referral_step c c'" "referral_inv c"
  shows "referral_inv c'"
  using assms
proof (cases rule: referral_step.cases)
  case (signup s rs now c k)
  then show ?thesis using assms(2) by (auto simp: referral_inv_def intro: signup_keys signup_books seen_signup)
next
  case (verified s rs c)
  have "referral_seen r (activate_on_verify c s)" if "referral_seen r s" for r
    by (rule seen_update [OF that, where P = "\<lambda>r. rf_referee r = c \<and> rf_status r = R_PENDING"
          and f = "\<lambda>r. r\<lparr>rf_status := R_ACTIVE\<rparr>"]) (simp_all add: activate_on_verify_def)
  then show ?thesis using verified assms(2) by (auto simp: referral_inv_def intro: activate_keys activate_books)
next
  case (look r s rs)
  then show ?thesis using assms(2) by (auto simp: referral_inv_def referral_seen_def)
next
  case (paid r rs now s res t)
  have k: "referral_keys s" "books_balance s" "referral_seen r s" using paid assms(2) by (auto simp: referral_inv_def)
  obtain x where x: "x \<in> set (referrals s)" "rf_id x = rf_id r" "rf_referrer x = rf_referrer r"
    using k(3) by (auto simp: referral_seen_def)
  have "referral_seen q t" if "referral_seen q s" for q
    by (rule seen_update [OF that reward_commit_cases(2) [OF paid(5), unfolded cas_rows_def]]) simp
  then show ?thesis
    using paid assms(2) reward_keys [OF k(1) paid(5)] reward_books [OF k(1,2) paid(5) x] by (auto simp: referral_inv_def)
next
  case (other t s rs)
  then show ?thesis using assms(2)
    by (auto simp: referral_inv_def referral_keys_def books_balance_def cashback_of_def rewarded_of_def referral_seen_def
        intro: less_le_trans)
qed

lemma referral_steps_inv:
  assumes "referral_step\<^sup>*\<^sup>* c c'" "referral_inv c"
  shows "referral_inv c'"
  using assms by (induction rule: rtranclp_induct) (auto intro: referral_step_inv)

lemma no_referrals_inv: "referrals s = [] \<Longrightarrow> cashbacks s = [] \<Longrightarrow> referral_inv (s, [])"
  by (simp add: referral_inv_def referral_keys_def books_balance_def cashback_of_def rewarded_of_def)

section \<open>Verification requests\<close>

inductive verification_step :: "db \<times> verification_row list \<Rightarrow> db \<times> verification_row list \<Rightarrow> bool" where
  submitted: "submit_verification now m n s = (Inr v, t) \<Longrightarrow> verification_step (s, vs) (t, vs)"
| look: "v \<in> set (verifications s) \<Longrightarrow> verification_step (s, vs) (s, v # vs)"
| decided: "v \<in> set vs \<Longrightarrow> decide_check (Some v) a = None \<Longrightarrow> decide_commit v a s = (r, t) \<Longrightarrow>
    verification_step (s, vs) (t, vs)"
| joined: "find_master u s = None \<Longrightarrow> verification_step (s, vs) (ensure_profile u MASTER s, vs)"
| other: "verifications t = verifications s \<Longrightarrow>
    map (\<lambda>x. (m_user x, m_verification x)) (masters t) = map (\<lambda>x. (m_user x, m_verification x)) (masters s) \<Longrightarrow>
    next_id s \<le> next_id t \<Longrightarrow> verification_step (s, vs) (t, vs)"

definition verification_seen :: "verification_row \<Rightarrow> db \<Rightarrow> bool" where
  "verification_seen v s = (\<exists>w \<in> set (verifications s). v_id w = v_id v \<and> v_master w = v_master v)"

definition verification_inv :: "db \<times> verification_row list \<Rightarrow> bool" where
  "verification_inv c = (verifications_ok (fst c) \<and> (\<forall>v \<in> set (snd c). verification_seen v (fst c)))"

lemma submit_verifications:
  assumes "submit_verification now m n s = (Inr v, t)"
  shows "verifications t = verifications s @ [v]"
  using assms
  by (auto simp: submit_verification_def transaction_Inr submit_body_def Let_def split: option.splits if_splits)

lemma decide_commit_verifications:
  assumes "decide_commit v a s = (r, t)"
  shows "verifications t = verifications s \<or>
    verifications t = cas_rows v_id v_status (v_id v) V_PENDING (apply_verdict (a, v_note v)) (verifications s)"
proof (cases "transaction (decide_body v a) s")
  case (Pair b s1)
  show ?thesis
  proof (cases b)
    case (Inl e)
    have "s1 = s" by (rule transaction_Inl [OF Pair [unfolded Inl]])
    then show ?thesis using assms Pair Inl by (simp add: decide_commit_def)
  next
    case (Inr u)
    then have b: "decide_body v a s = (Inr u, s1)" using Pair by (simp add: transaction_Inr)
    show ?thesis using decide_body_cases(2) [OF b] assms Pair Inr by (auto simp: decide_commit_def)
  qed
qed

lemma seen_decided:
  assumes "verification_seen w s" "decide_commit v a s = (r, t)"
  shows "verification_seen w t"
proof -
  obtain x where x: "x \<in> set (verifications s)" "v_id x = v_id w" "v_master x = v_master w"
    using assms(1) by (auto simp: verification_seen_def)
  let ?f = "\<lambda>x. if v_id x = v_id v \<and> v_status x = V_PENDING then apply_verdict (a, v_note v) x else x"
  have "?f x \<in> ?f ` set (verifications s)" using x(1) by (rule imageI)
  then have "x \<in> set (verifications t) \<or> ?f x \<in> set (verifications t)"
    using decide_commit_verifications [OF assms(2)] x(1) by (auto simp: cas_rows_def set_update_rows)
  moreover have "v_id (?f x) = v_id w" "v_master (?f x) = v_master w" using x(2,3) by simp_all
  ultimately show ?thesis unfolding verification_seen_def using x(2,3) by blast
qed

lemma ensure_master_ok:
  assumes "verifications_ok s" "find_master u s = None"
  shows "verifications_ok (ensure_profile u MASTER s)"
proof -
  have fresh: "u \<notin> m_user ` set (masters s)" using assms(2) by (auto simp: find_master_def find_row_None)
  have "pending_of u s = 0"
    unfolding pending_of_def count_rows_def using assms(1) fresh
    by (auto simp: verifications_ok_def filter_empty_conv)
  then show ?thesis
    using assms fresh
    by (auto simp: verifications_ok_def ensure_profile_def bare_master_def pending_of_def)
qed

lemma pairs_ok:
  assumes "verifications t = verifications s"
    "map (\<lambda>x. (m_user x, m_verification x)) (masters t) = map (\<lambda>x. (m_user x, m_verification x)) (masters s)"
    "next_id s \<le> next_id t" "verifications_ok s"
  shows "verifications_ok t"
proof -
  have u: "map m_user (masters t) = map m_user (masters s)"
    using arg_cong [OF assms(2), of "map fst"] by (simp add: comp_def)
  then have us: "m_user ` set (masters t) = m_user ` set (masters s)" by (metis list.set_map)
  have "(m_user x, m_verification x) \<in> (\<lambda>x. (m_user x, m_verification x)) ` set (masters s)"
    if "x \<in> set (masters t)" for x
    using that arg_cong [OF assms(2), of set] by (metis (no_types, lifting) imageI list.set_map)
  moreover have "pending_of m t = pending_of m s" for m by (simp add: pending_of_def assms(1))
  ultimately show ?thesis
    using assms(3,4) unfolding verifications_ok_def u us assms(1) by (fastforce simp: less_le_trans)
qed

lemma verification_step_inv:
  assumes "verification_step c c'" "verification_inv c"
  shows "verification_inv c'"
  using assms(1)
proof (cases rule: verification_step.cases)
  case (submitted now m n s v t vs)
  have "verification_seen w t" if "verification_seen w s" for w
    using that submit_verifications [OF submitted(3)] by (auto simp: verification_seen_def)
  then show ?thesis
    using submitted assms(2) submit_verification_ok [OF _ submitted(3)] by (auto simp: verification_inv_def)
next
  case (look v s vs)
  then show ?thesis using assms(2) by (auto simp: verification_inv_def verification_seen_def)
next
  case (decided v vs a s r t)
  have ok: "verifications_ok s" "verification_seen v s" using decided assms(2) by (auto simp: verification_inv_def)
  obtain w where w: "w \<in> set (verifications s)" "v_id w = v_id v" "v_master w = v_master v"
    using ok(2) by (auto simp: verification_seen_def)
  have "verifications_ok t" by (rule decide_commit_keeps [OF ok(1) decided(5) w])
  then show ?thesis using decided assms(2) seen_decided [OF _ decided(5)] by (auto simp: verification_inv_def)
next
  case (joined u s vs)
  have "verifications (ensure_profile u MASTER s) = verifications s" by (simp add: ensure_profile_def)
  then show ?thesis using joined assms(2) ensure_master_ok by (auto simp: verification_inv_def verification_seen_def)
next
  case (other t s vs)
  then show ?thesis
    using assms(2) pairs_ok [OF other(3-5)] by (auto simp: verification_inv_def verification_seen_def)
qed

lemma verification_steps_inv:
  assumes "verification_step\<^sup>*\<^sup>* c c'" "verification_inv c"
  shows "verification_inv c'"
  using assms by (induction rule: rtranclp_induct) (auto intro: verification_step_inv)

lemma no_verifications_inv:
  "verifications s = [] \<Longrightarrow> masters s = [] \<Longrightarrow> verification_inv (s, [])"
  by (simp add: verification_inv_def verifications_ok_def)

section \<open>A stuck payment\<close>

text \<open>While a payment is in flight nothing but the answer of its own charge changes its row.\<close>

lemma resolve_keeps_processing:
  assumes "resolve now i admin False note s = (r, t)" "find_payment j s = Some p" "p_status p = P_PROCESSING"
  shows "\<exists>q. find_payment j t = Some q \<and> p_status q = P_PROCESSING \<and> p_order q = p_order p"
proof -
  consider "t = s"
    | a where "payments t = cas_rows p_id p_resolved_at (p_id (the (find_payment i s))) None (apply_resolution a) (payments s)"
        "\<not> rl_refund a"
    using assms(1) by (auto simp: resolve_def resolve_commit_def Let_def and_then_eq split: option.splits if_splits)
  then show ?thesis
  proof cases
    case 1
    then show ?thesis using assms by blast
  next
    case (2 a)
    have "find_payment j t = map_option (\<lambda>r. if p_id r = p_id (the (find_payment i s)) \<and> p_resolved_at r = None
        then apply_resolution a r else r) (find_payment j s)"
      unfolding find_payment_def 2(1) cas_rows_def by (rule find_row_update_rows) (simp add: apply_resolution_def)
    then show ?thesis using assms(2,3) 2(2) by (auto simp: apply_resolution_def)
  qed
qed

end
