(* ===== verification/Money_Properties.thy ===== *)
theory Money_Properties
  imports Example PlatformSystem
begin

text \<open>
  The properties of the money and of what follows a finished job: payments, tax, referrals, reviews,
  guarantee claims, verification requests and the Premium plan.  The witnesses run on the marketplace
  of \<open>Example\<close> with one closed order.
\<close>

section \<open>A closed order\<close>

definition demo_finished :: order_row where
  "demo_finished = demo_draft\<lparr>o_status := CLOSED, o_master := Some 2, o_final := Some 150000, o_fee := 15000\<rparr>"

definition demo_settled :: db where
  "demo_settled = demo_db\<lparr>orders := [demo_finished]\<rparr>"

definition demo_payment :: payment_row where
  "demo_payment = new_payment demo_env 9500 100 1 MOCK demo_finished"

definition demo_rail :: payment_ctx where
  "demo_rail = \<lparr>pc_env = demo_env, pc_now = 9900,
     pc_charge = (\<lambda>_. \<lparr>cr_success = True, cr_ref = ''ref'', cr_failure = None\<rparr>)\<rparr>"

definition demo_paying :: db where
  "demo_paying = demo_settled\<lparr>payments := [demo_payment], next_id := 101\<rparr>"

lemma demo_finished_simps [simp]:
  "o_id demo_finished = 100" "o_status demo_finished = CLOSED" "o_customer demo_finished = 1"
  "o_master demo_finished = Some 2" "o_final demo_finished = Some 150000" "o_fee demo_finished = 15000"
  by (simp_all add: demo_finished_def)

lemma demo_settled_simps [simp]:
  "orders demo_settled = [demo_finished]" "payments demo_settled = []" "reviews demo_settled = []"
  "claims demo_settled = []" "masters demo_settled = [demo_master 2]" "next_id demo_settled = 100"
  "find_order 100 demo_settled = Some demo_finished"
  by (simp_all add: demo_settled_def demo_db_def empty_db_def find_order_def)

lemma demo_payment_simps [simp]:
  "p_id demo_payment = 100" "p_order demo_payment = 100" "p_status demo_payment = P_PROCESSING"
  "p_ref demo_payment = None" "p_resolved_at demo_payment = None"
  by (simp_all add: demo_payment_def new_payment_def Let_def)

lemma demo_env_accepted: "load_env (\<lambda>x. take 4 x = ''http'') demo_env = Some demo_env"
  by (simp add: load_env_def env_valid_def demo_env_def env_default_def) code_simp

interpretation demo_accepted: accepted_env "\<lambda>x. take 4 x = ''http''" demo_env
  by unfold_locales (rule demo_env_accepted)

lemma demo_initiate: "initiate_tx demo_env 9500 1 MOCK demo_finished demo_settled = (Inr demo_payment, demo_paying)"
  by (simp add: initiate_tx_def transaction_def initiate_body_def ok_def demo_paying_def demo_payment_def Let_def)

lemma demo_pay_reachable: "pay_reachable demo_env (demo_paying, [demo_payment], [])"
proof -
  have "pay_step demo_env (demo_settled, [], []) (demo_paying, [demo_payment], [])"
    by (rule pay_step.pay [OF _ demo_initiate]) (simp add: initiate_check_def)
  then show ?thesis unfolding pay_reachable_def by (intro exI [of _ demo_settled]) auto
qed

section \<open>Payments\<close>

text \<open>C4: in every interleaving of payments, charges, webhooks and refunds, and whatever the rail answers,
  an order has at most one payment that is waiting, running or paid; every payment splits into the
  fee, the tax and the part of the master; only a payment that was once paid is refunded, and then an
  administrator and a time are recorded.\<close>

theorem one_active_payment_per_order:
  assumes "pay_reachable e (s, flying, rs)"
  shows "length (filter (\<lambda>p. p_order p = i \<and> p_status p \<in> {P_PENDING, P_PROCESSING, P_SUCCEEDED}) (payments s)) \<le> 1
    \<and> (\<forall>p \<in> set (payments s). p_amount p = p_fee p + p_tax p + p_net p)
    \<and> (\<forall>p \<in> set (payments s). p_status p = P_REFUNDED \<longrightarrow> p_succeeded_at p \<noteq> None \<and> p_resolved_at p \<noteq> None)"
proof -
  have inv: "pay_inv (s, flying, rs)" by (rule pay_reachable_inv [OF assms])
  have "(\<lambda>p. p_order p = i \<and> p_status p \<in> {P_PENDING, P_PROCESSING, P_SUCCEEDED}) = active_of i"
    by (auto simp: active_of_def active_payment_statuses_def)
  moreover have "count_rows (active_of i) (payments s) \<le> 1" using inv by (simp add: pay_inv_def)
  ultimately show ?thesis using inv by (auto simp: pay_inv_def pay_row_ok_def count_rows_def)
qed

theorem one_active_payment_per_order_witness:
  "length (filter (\<lambda>p. p_order p = 100 \<and> p_status p \<in> {P_PENDING, P_PROCESSING, P_SUCCEEDED})
     (payments demo_paying)) \<le> 1 \<and> demo_payment \<in> set (payments demo_paying)"
  using one_active_payment_per_order [OF demo_pay_reachable, of 100] by (simp add: demo_paying_def)

text \<open>C33: a payment that is running when its request dies stays so: no webhook can settle any payment,
  because a payment has no provider reference before it is settled; a new payment of the order is
  refused, and it cannot be refunded.\<close>

theorem running_payment_is_stuck:
  assumes "pay_reachable e (s, flying, rs)" "p \<in> set (payments s)" "p_status p = P_PROCESSING"
  shows "handle_webhook ctx ref success failure s = ok () s
    \<and> (\<exists>err. initiate ctx c (p_order p) m s = raise err s)
    \<and> resolve now (p_id p) admin True note_text s = raise Conflict s"
proof -
  have inv: "pay_inv (s, flying, rs)" by (rule pay_reachable_inv [OF assms(1)])
  have f: "find_payment (p_id p) s = Some p"
    unfolding find_payment_def using inv assms(2) by (intro find_row_key) (simp_all add: pay_inv_def pay_keys_def)
  have "\<exists>err. initiate ctx c (p_order p) m s = raise err s"
  proof (cases "initiate_check c (find_order (p_order p) s)")
    case None
    then obtain x where x: "find_order (p_order p) s = Some x" by (auto simp: initiate_check_def split: option.splits)
    have "\<exists>q \<in> set (payments s). p_order q = o_id x \<and> p_status q \<in> set active_payment_statuses"
      using assms(2,3) find_order_id [OF x] by (auto simp: active_payment_statuses_def)
    then show ?thesis
      using None x by (simp add: initiate_def initiate_tx_def transaction_def initiate_body_def raise_def)
  qed (auto simp: initiate_def)
  then show ?thesis
    using webhook_noop [OF inv] f assms(3) by (simp add: resolve_def resolve_check_def)
qed

theorem running_payment_is_stuck_witness:
  "handle_webhook demo_rail ''ref'' True None demo_paying = ok () demo_paying
   \<and> resolve 9900 100 9 True ''x'' demo_paying = raise Conflict demo_paying"
  using running_payment_is_stuck [OF demo_pay_reachable, of demo_payment demo_rail "''ref''" True None 1 MOCK 9900 9 "''x''"]
  by (simp add: demo_paying_def)

text \<open>Under a configuration that passed the start-up check, a payment created for an order whose final
  amount covers its fee withholds between nothing and everything above the fee, and the three parts are
  not negative and add up to the amount.\<close>

theorem payment_split_bounds:
  assumes "load_env is_url e = Some e" "initiate_tx e now c m x s = (Inr p, t)" "o_final x = Some amount"
    "0 \<le> o_fee x" "o_fee x \<le> amount" "amount \<le> 2 ^ 53"
  shows "p_amount p = amount \<and> p_amount p = p_fee p + p_tax p + p_net p
    \<and> 0 \<le> p_tax p \<and> p_tax p \<le> amount - o_fee x \<and> 0 \<le> p_net p \<and> p_net p \<le> amount - o_fee x"
proof -
  have acc: "accepted_env is_url e" by (rule accepted_env.intro [OF assms(1)])
  have p: "p = new_payment e now (next_id s) c m x"
    using assms(2) by (auto simp: initiate_tx_def transaction_Inr initiate_body_def Let_def split: if_splits)
  then have "p_amount p = amount" "p_fee p = o_fee x"
    "p_tax p = tw_tax (compute_withholding (TAX_WITHHOLDING_RATE e) (amount - o_fee x))"
    "p_net p = tw_net (compute_withholding (TAX_WITHHOLDING_RATE e) (amount - o_fee x))"
    using assms(3) by (simp_all add: new_payment_def Let_def)
  then show ?thesis using accepted_env.split_bounds [OF acc assms(4-6)] by simp
qed

theorem payment_split_bounds_witness:
  "p_amount demo_payment = 150000 \<and> p_fee demo_payment + p_tax demo_payment + p_net demo_payment = 150000
   \<and> 0 \<le> p_net demo_payment \<and> p_net demo_payment \<le> 135000"
  using payment_split_bounds [OF demo_env_accepted demo_initiate, of 150000] by simp

section \<open>Referrals\<close>

lemma count_rows_mono: "(\<And>r. P r \<Longrightarrow> Q r) \<Longrightarrow> count_rows P t \<le> count_rows Q t"
  by (induction t) auto


definition demo_referral :: referral_row where
  "demo_referral = \<lparr>rf_id = 100, rf_referrer = 1, rf_referee = 2, rf_status = R_ACTIVE, rf_rewarded_at = None, rf_at = 1000\<rparr>"

definition demo_referred :: db where
  "demo_referred = demo_db\<lparr>referrals := [demo_referral], next_id := 101\<rparr>"

lemma demo_rewarded:
  "\<exists>t rs. referral_step\<^sup>*\<^sup>* (demo_db, []) (t, rs) \<and> users t = users demo_db \<and> referrals t = [apply_reward 3000 demo_referral]"
proof -
  have 1: "activate_on_verify 2 (record_signup 1000 2 (Some ''R'') demo_db) = demo_referred"
    by (simp add: activate_on_verify_def record_signup_def demo_referred_def demo_referral_def demo_db_def
        empty_db_def demo_user_def)
  have a: "referral_step (demo_db, []) (record_signup 1000 2 (Some ''R'') demo_db, [])"
    by (rule referral_step.signup)
  have b: "referral_step (record_signup 1000 2 (Some ''R'') demo_db, []) (demo_referred, [])"
    unfolding 1 [symmetric] by (rule referral_step.verified)
  have c: "referral_step (demo_referred, []) (demo_referred, [demo_referral])"
    by (rule referral_step.look) (simp add: demo_referred_def)
  obtain r t where t: "reward_commit 3000 demo_referral demo_referred = (r, t)" by fastforce
  have d: "referral_step (demo_referred, [demo_referral]) (t, [demo_referral])"
    by (rule referral_step.paid [OF _ _ t]) (simp_all add: demo_referral_def)
  have "users t = users demo_db" "referrals t = [apply_reward 3000 demo_referral]"
    using t by (auto simp: reward_commit_def demo_referred_def demo_referral_def cas_count_def update_count_def
        cas_rows_def ok_def)
  then show ?thesis
    using a b c d by (meson converse_rtranclp_into_rtranclp rtranclp.rtrancl_refl)
qed


section \<open>Reviews\<close>

text \<open>A review is only written for a closed order; afterwards the master's rating is the mean of all
  his ratings in doubles, rounded to two decimals and between 1 and 5, and exactly a rating of one
  or two has recorded a penalty.\<close>

theorem review_updates_rating:
  assumes "create_review now c i rating comment nt s = (Inr r, t)" "reviews_ok s" "1 \<le> rating" "rating \<le> 5"
  shows "(\<exists>x. find_order i s = Some x \<and> o_customer x = c \<and> o_status x = CLOSED \<and> o_master x = Some (r_master r))
    \<and> reviews t = reviews s @ [r] \<and> reviews_ok t
    \<and> (\<forall>x \<in> set (masters t). m_user x = r_master r \<longrightarrow>
         m_rating x = numeric2 (the (average (ratings_of (r_master r) (reviews t)))) \<and> 1 \<le> m_rating x \<and> m_rating x \<le> 5)
    \<and> length (penalties t) = length (penalties s) + (if rating \<le> 2 then 1 else 0)"
proof -
  obtain m s1 where k: "review_check c i s = Inr m" and b: "review_body now c i m rating comment s = (Inr r, s1)"
    and e: "reviews t = reviews s1"
    and p: "penalties t = penalties s1 @
       (if rating \<le> 2 then [new_penalty now (next_id s1) m CUSTOMER_COMPLAINT (Some i) (Some nt)] else [])"
    using assms(1) by (rule create_review_cases)
  note c = review_body_cases [OF b]
  have "reviews_ok t"
    using assms(2-4) c(1) by (auto simp: reviews_ok_def e c(2) c(3) c(5))
  then show ?thesis
    using review_check_Inr [OF k] review_masters [OF assms] c(2,4,9) e p by (auto split: if_splits)
qed

lemma demo_review: "\<exists>r t. create_review 9500 1 100 2 None ''n'' demo_settled = (Inr r, t) \<and> r_master r = 2
    \<and> map m_user (masters t) = [2]"
proof -
  have c: "review_check 1 100 demo_settled = Inr 2" by (simp add: review_check_def)
  obtain r s1 where b: "review_body 9500 1 100 2 2 None demo_settled = (Inr r, s1)"
    by (simp add: review_body_def Let_def ok_def)
  have m: "map m_user (masters s1) = [2]" "r_master r = 2"
    using review_body_cases(4,7) [OF b] by (simp_all add: demo_master_def)
  then obtain x where x: "masters s1 = [x]" "m_user x = 2" by (auto simp: map_eq_Cons_conv)
  have f: "find_row (\<lambda>r. m_user r = 2) (masters (insert_penalty p s1)) = Some x" for p using x by simp
  obtain q where q: "compute_trust_score 9500 2
      (insert_penalty (new_penalty 9500 (next_id s1) 2 CUSTOMER_COMPLAINT (Some 100) (Some ''n'')) s1) = Inr q"
    using compute_trust_found [OF f] by blast
  show ?thesis
    using c b q x m(2)
    by (simp add: create_review_def transaction_def complaint_rating_threshold_def record_event_def
        recompute_trust_tier_def Let_def ok_def)
qed

theorem review_updates_rating_witness:
  "\<exists>r t x. create_review 9500 1 100 2 None ''n'' demo_settled = (Inr r, t) \<and> x \<in> set (masters t)
     \<and> m_rating x = 2 \<and> length (penalties t) = 1"
proof -
  obtain r t where t: "create_review 9500 1 100 2 None ''n'' demo_settled = (Inr r, t)" "r_master r = 2"
    "map m_user (masters t) = [2]" using demo_review by (elim exE conjE)
  have "reviews_ok demo_settled" by (simp add: reviews_ok_def)
  note c = review_updates_rating [OF t(1) this]
  have "reviews t = [r]" using c by simp
  moreover have "r_rating r = 2"
    using t(1) by (elim create_review_cases) (simp add: review_body_cases(5))
  ultimately have a: "the (average (ratings_of 2 (reviews t))) = 2"
    using t(2) fl64_int [of 2] by (simp add: average_def ratings_of_def)
  obtain x where x: "masters t = [x]" "m_user x = 2" using t(3) by (auto simp: map_eq_Cons_conv)
  have "m_rating x = numeric2 2" using c x a t(2) by simp
  moreover have "numeric2 2 = 2" using numeric2_int [of 2] by simp
  moreover have "length (penalties t) = 1" using c by (simp add: demo_settled_def demo_db_def empty_db_def)
  ultimately show ?thesis using t(1) x by (intro exI [of _ r] exI [of _ t] exI [of _ x]) simp
qed

section \<open>Guarantee claims\<close>

lemma verified_master_iff:
  "verified_master mo s \<longleftrightarrow>
     (\<exists>m r. mo = Some m \<and> find_row (\<lambda>r. m_user r = m) (masters s) = Some r \<and> m_verification r = V_VERIFIED)"
  by (auto simp: verified_master_def split: option.splits)

text \<open>Whatever the time, a guarantee claim is accepted exactly for an own, closed order of a verified
  master that was paid for and has no claim yet.\<close>

theorem claim_accepted_iff:
  "(\<exists>c t. file_claim now customer i reason s = (Inr c, t)) \<longleftrightarrow>
   (\<exists>x m r p. find_order i s = Some x \<and> o_customer x = customer \<and> o_status x = CLOSED
      \<and> o_master x = Some m \<and> find_row (\<lambda>r. m_user r = m) (masters s) = Some r \<and> m_verification r = V_VERIFIED
      \<and> p \<in> set (payments s) \<and> p_order p = i \<and> p_status p = P_SUCCEEDED
      \<and> find_row (\<lambda>c. g_order c = i) (claims s) = None)"
  unfolding file_claim_Inr verified_master_iff has_paid_def by blast

definition demo_claim :: claim_row where
  "demo_claim = \<lparr>g_id = 50, g_order = 100, g_customer = 1, g_reason = ''r'', g_status = C_OPEN,
     g_decided_by = None, g_decided_at = None, g_note = None, g_at = 9600\<rparr>"

definition demo_approval :: decision where
  "demo_approval = \<lparr>de_approve = True, de_by = 9, de_at = 9700, de_note = None\<rparr>"

text \<open>Of two administrators who read the same open claim the first decides it; the second gets a
  conflict and changes nothing.\<close>

theorem claim_decided_once:
  assumes "claims_ok s" "c \<in> set (claims s)" "open_claim (g_status c)"
  shows "\<exists>t. decide_claim_commit c a s = (Inr (), t) \<and> claims_ok t
    \<and> find_row (\<lambda>r. g_id r = g_id c) (claims t) = Some (apply_decision a c)
    \<and> decide_claim_commit c b t = (Inl Conflict, t)"
proof -
  have d: "distinct (map g_id (claims s))" using assms(1) by (simp add: claims_ok_def)
  note win = claim_cas.one_winner(1) [OF d assms(2) refl refl assms(3)]
    claim_cas.one_winner(2) [OF d assms(2) refl refl assms(3), of a]
  obtain t where t: "decide_claim_commit c a s = (Inr (), t)"
    "claims t = cas_rows g_id g_status (g_id c) (g_status c) (apply_decision a) (claims s)"
    using win(1) by (simp add: decide_claim_commit_def Let_def)
  have "claims_ok t" by (rule decide_commit_ok [OF assms(1,3) t(1)])
  moreover have "find_row (\<lambda>r. g_id r = g_id c) (claims t) = Some (apply_decision a c)"
    unfolding t(2) by (rule claim_cas.winner_row [OF find_row_key [OF d assms(2)] refl])
  moreover have "decide_claim_commit c b t = (Inl Conflict, t)"
    using win(2) claim_cas.loser_changes_nothing [OF win(2), of b]
    by (simp add: decide_claim_commit_def Let_def t(2) [symmetric] raise_def)
  ultimately show ?thesis using t(1) by (intro exI [of _ t] conjI)
qed

theorem claim_decided_once_witness:
  "\<exists>t. decide_claim_commit demo_claim demo_approval (demo_settled\<lparr>claims := [demo_claim]\<rparr>) = (Inr (), t)
     \<and> decide_claim_commit demo_claim (demo_approval\<lparr>de_approve := False\<rparr>) t = (Inl Conflict, t)"
proof -
  have "claims_ok (demo_settled\<lparr>claims := [demo_claim]\<rparr>)" "demo_claim \<in> set (claims (demo_settled\<lparr>claims := [demo_claim]\<rparr>))"
    "open_claim (g_status demo_claim)"
    by (simp_all add: claims_ok_def demo_claim_def open_claim_def)
  from claim_decided_once [OF this, of demo_approval "demo_approval\<lparr>de_approve := False\<rparr>"] show ?thesis by blast
qed

section \<open>Verification requests\<close>

text \<open>C14: in every order of requests, decisions, new masters and anything else, also when two
  administrators decide the same request, a master's profile says PENDING exactly while one request of
  his waits for a decision, and he never has two.\<close>

theorem profile_pending_iff_request:
  assumes "verification_step\<^sup>*\<^sup>* (s, []) (t, vs)" "verifications s = []" "masters s = []" "x \<in> set (masters t)"
  shows "(m_verification x = V_PENDING) = (\<exists>v \<in> set (verifications t). v_master v = m_user x \<and> v_status v = V_PENDING)
    \<and> length (filter (\<lambda>v. v_master v = m_user x \<and> v_status v = V_PENDING) (verifications t)) \<le> 1"
proof -
  have "verifications_ok t"
    using verification_steps_inv [OF assms(1) no_verifications_inv [OF assms(2,3)]] by (simp add: verification_inv_def)
  then have p: "pending_of (m_user x) t = (if m_verification x = V_PENDING then 1 else 0)"
    using assms(4) by (simp add: verifications_ok_def)
  have "pending_of (m_user x) t = 0 \<longleftrightarrow> \<not> (\<exists>v \<in> set (verifications t). v_master v = m_user x \<and> v_status v = V_PENDING)"
    by (auto simp: pending_of_def count_rows_def filter_empty_conv)
  then show ?thesis using p by (auto simp: pending_of_def count_rows_def split: if_splits)
qed

lemma demo_submitted:
  "\<exists>t v. verification_step\<^sup>*\<^sup>* (empty_db, []) (t, []) \<and> masters t = [(bare_master 2)\<lparr>m_verification := V_PENDING\<rparr>]
     \<and> verifications t = [v] \<and> v_master v = 2"
proof -
  have 1: "ensure_profile 2 MASTER empty_db = empty_db\<lparr>masters := [bare_master 2]\<rparr>"
    by (simp add: ensure_profile_def find_master_def empty_db_def)
  have "\<exists>v t. submit_verification 1000 2 None (empty_db\<lparr>masters := [bare_master 2]\<rparr>) = (Inr v, t)
      \<and> masters t = [(bare_master 2)\<lparr>m_verification := V_PENDING\<rparr>] \<and> verifications t = [v] \<and> v_master v = 2"
    by (simp add: submit_verification_def transaction_def submit_body_def set_verification_def Let_def ok_def
        empty_db_def bare_master_def)
  then obtain v t where t: "submit_verification 1000 2 None (empty_db\<lparr>masters := [bare_master 2]\<rparr>) = (Inr v, t)"
    "masters t = [(bare_master 2)\<lparr>m_verification := V_PENDING\<rparr>]" "verifications t = [v]" "v_master v = 2" by blast
  have "find_master 2 empty_db = None" by (simp add: find_master_def empty_db_def)
  from verification_step.joined [OF this, of "[]"]
  have a: "verification_step (empty_db, []) (empty_db\<lparr>masters := [bare_master 2]\<rparr>, [])" unfolding 1 .
  have b: "verification_step (empty_db\<lparr>masters := [bare_master 2]\<rparr>, []) (t, [])"
    by (rule verification_step.submitted [OF t(1)])
  show ?thesis
    using a b t(2-4) by (meson converse_rtranclp_into_rtranclp rtranclp.rtrancl_refl)
qed

theorem profile_pending_iff_request_witness:
  "\<exists>(t :: db) (x :: master_row). x \<in> set (masters t) \<and> m_user x = 2 \<and> m_verification x = V_PENDING
     \<and> (\<exists>v \<in> set (verifications t). v_master v = 2 \<and> v_status v = V_PENDING)"
proof -
  obtain t v where t: "verification_step\<^sup>*\<^sup>* (empty_db, []) (t, [])"
    "masters t = [(bare_master 2)\<lparr>m_verification := V_PENDING\<rparr>]" using demo_submitted by blast
  let ?x = "(bare_master 2)\<lparr>m_verification := V_PENDING\<rparr>"
  have x: "?x \<in> set (masters t)" "m_user ?x = 2" using t(2) by (simp_all add: bare_master_def)
  have "verifications empty_db = []" "masters empty_db = []" by (simp_all add: empty_db_def)
  from profile_pending_iff_request [OF t(1) this x(1)]
  have "\<exists>v \<in> set (verifications t). v_master v = 2 \<and> v_status v = V_PENDING" using x(2) by simp
  then show ?thesis using x by (intro exI [of _ t] exI [of _ ?x] conjI) simp_all
qed

section \<open>Premium\<close>

text \<open>The service and the dispatch query, which each compute it in their own way, agree on whether a
  master is Premium, except for a trial without an end or at the very millisecond its end is reached.\<close>

theorem premium_service_agrees_with_dispatch:
  assumes "\<And>r. find_row (\<lambda>r. sb_master r = m) (subscriptions s) = Some r \<Longrightarrow> sb_status r = S_TRIAL \<Longrightarrow>
             \<exists>e. sb_trial_ends r = Some e \<and> e \<noteq> now"
  shows "is_premium_active now m s = premium_at now m s"
  by (rule premium_agrees) (rule assms)

definition demo_trial :: subscription_row where
  "demo_trial = \<lparr>sb_master = 2, sb_plan = PREMIUM, sb_status = S_TRIAL, sb_trial_ends = Some 5000, sb_period_end = None\<rparr>"

theorem premium_service_agrees_with_dispatch_witness:
  "is_premium_active 4000 2 (demo_db\<lparr>subscriptions := [demo_trial]\<rparr>) = premium_at 4000 2 (demo_db\<lparr>subscriptions := [demo_trial]\<rparr>)
   \<and> premium_at 4000 2 (demo_db\<lparr>subscriptions := [demo_trial]\<rparr>)"
proof -
  have "is_premium_active 4000 2 (demo_db\<lparr>subscriptions := [demo_trial]\<rparr>) = premium_at 4000 2 (demo_db\<lparr>subscriptions := [demo_trial]\<rparr>)"
    by (rule premium_service_agrees_with_dispatch) (auto simp: demo_trial_def split: if_splits)
  moreover have "premium_at 4000 2 (demo_db\<lparr>subscriptions := [demo_trial]\<rparr>)"
    by (simp add: premium_at_def demo_trial_def)
  ultimately show ?thesis by simp
qed

end
