(* ===== verification/AuthSystem.thy ===== *)
theory AuthSystem
  imports Admin
begin

text \<open>
  Accounts and sessions in every order of events.  A step is one operation of \<open>AuthService\<close>, the
  two halves of a token refresh (so that refreshes of one token can race), a suspension or restoration
  by an administrator, or anything that leaves accounts and sessions alone.  The invariant says that
  ids, phones and referral codes are unique and that a session belongs to an account whose phone was
  verified; \<open>sessions_grow\<close> that a revoked session stays revoked.
\<close>

section \<open>What the operations do to accounts and sessions\<close>

lemma ensure_profile_frame [simp, frame_simps]:
  "users (ensure_profile u r s) = users s" "sessions (ensure_profile u r s) = sessions s"
  "next_id (ensure_profile u r s) = next_id s" "otps (ensure_profile u r s) = otps s"
  "redis (ensure_profile u r s) = redis s" "sms_sent (ensure_profile u r s) = sms_sent s"
  by (simp_all add: ensure_profile_def)

lemma record_signup_frame [simp, frame_simps]:
  "users (record_signup now c k s) = users s" "sessions (record_signup now c k s) = sessions s"
  "next_id s \<le> next_id (record_signup now c k s)"
  by (auto simp: record_signup_def split: option.splits)

lemma activate_frame [simp, frame_simps]:
  "users (activate_on_verify c s) = users s" "sessions (activate_on_verify c s) = sessions s"
  "next_id (activate_on_verify c s) = next_id s"
  by (simp_all add: activate_on_verify_def)

lemma enforce_next: "enforce_rate_limits ctx phone purpose s = (r, t) \<Longrightarrow> next_id t = next_id s"
  by (rule enforce_frame)

lemma issue_next: "issue_code ctx phone purpose s = (r, t) \<Longrightarrow> next_id s \<le> next_id t"
  by (auto simp: issue_code_def and_then_eq Let_def raise_def ok_def dest: enforce_next split: if_splits)

lemma ensure_next: "ensure_challenge ctx phone purpose s = (r, t) \<Longrightarrow> next_id s \<le> next_id t"
  by (auto simp: ensure_challenge_def Let_def ok_def dest: issue_next
      split: if_splits prod.splits sum.splits error.splits)

lemma challenge_state: "challenge_for phone x = (r, t) \<Longrightarrow> t = snd x"
  by (cases x rule: succeeded.cases) (auto simp: challenge_for_def ok_def)

section \<open>Steps\<close>

inductive auth_step :: "db \<Rightarrow> db \<Rightarrow> bool" where
  registered: "register ctx d s = (r, t) \<Longrightarrow> auth_step s t"
| verified: "verify_otp ctx phone code purpose s = (r, t) \<Longrightarrow> auth_step s t"
| logged_in: "login ctx phone password s = (r, t) \<Longrightarrow> auth_step s t"
| code_requested: "request_otp ctx phone purpose s = (r, t) \<Longrightarrow> auth_step s t"
| consumed: "consume_locked now i s = (r, t) \<Longrightarrow> auth_step s t"
| granted: "x \<in> set (sessions s) \<Longrightarrow> find_user (s_user x) s = Some u \<Longrightarrow> \<not> blocked (u_status u) \<Longrightarrow>
    log_in ctx u s = (r, t) \<Longrightarrow> auth_step s t"
| logged_out: "auth_step s (logout ctx raw s)"
| reset: "reset_password ctx phone code password s = (r, t) \<Longrightarrow> auth_step s t"
| suspended: "suspend_user now target admin reason s = (r, t) \<Longrightarrow> auth_step s t"
| restored: "restore_user now target admin s = (r, t) \<Longrightarrow> auth_step s t"
| other: "users t = users s \<Longrightarrow> sessions t = sessions s \<Longrightarrow> next_id s \<le> next_id t \<Longrightarrow> auth_step s t"

text \<open>A refresh is a consumption and a grant.\<close>

lemma refresh_steps:
  assumes "refresh ctx raw s = (r, t)"
  shows "auth_step\<^sup>*\<^sup>* s t"
proof (cases "find_row (\<lambda>x. s_hash x = ax_sha ctx raw) (sessions s)")
  case None
  then have "t = s" using assms by (simp add: refresh_def consume_session_def raise_def)
  then show ?thesis by simp
next
  case (Some y)
  obtain c s1 where c: "consume_locked (ax_now ctx) (s_id y) s = (c, s1)" by fastforce
  have 1: "auth_step s s1" using c by (rule auth_step.consumed)
  show ?thesis
  proof (cases c)
    case (Inl e)
    then have "t = s1" using assms Some c by (simp add: refresh_def consume_session_def)
    then show ?thesis using 1 by blast
  next
    case (Inr x)
    then have rest: "(case find_user (s_user x) s1 of
          None \<Rightarrow> raise Unauthorized s1
        | Some u \<Rightarrow> if blocked (u_status u) then raise Forbidden s1
                    else let (y, s2) = log_in ctx u s1 in ok y s2) = (r, t)"
      using assms Some c by (simp add: refresh_def consume_session_def)
    have x: "x \<in> set (sessions s)" "s_id x = s_id y"
      and s1: "s1 = s\<lparr>sessions := update_rows (\<lambda>r. s_id r = s_id y) (\<lambda>r. r\<lparr>s_revoked := Some (ax_now ctx)\<rparr>) (sessions s)\<rparr>"
      using c Inr by (auto simp: consume_locked_def dest: find_row_Some split: option.splits)
    have x1: "x\<lparr>s_revoked := Some (ax_now ctx)\<rparr> \<in> set (sessions s1)"
      using x unfolding s1 by (force simp: set_update_rows)
    show ?thesis
    proof (cases "find_user (s_user x) s1")
      case None
      then show ?thesis using rest 1 by (auto simp: raise_def)
    next
      case u: (Some u)
      show ?thesis
      proof (cases "blocked (u_status u)")
        case True
        then show ?thesis using rest u 1 by (auto simp: raise_def)
      next
        case False
        obtain z s2 where z: "log_in ctx u s1 = (z, s2)" by fastforce
        have "auth_step s1 s2" using x1 False z u by (intro auth_step.granted [OF x1]) simp_all
        moreover have "t = s2" using rest u False z by (simp add: ok_def)
        ultimately show ?thesis using 1 by (meson converse_rtranclp_into_rtranclp r_into_rtranclp)
      qed
    qed
  qed
qed

section \<open>The shape of a step\<close>

text \<open>
  Every step rewrites accounts in place, appends at most one account and one session, and revokes
  sessions in place.  \<open>row_change\<close> collects what the invariant needs about it.
\<close>

definition user_kept :: "user_row \<Rightarrow> user_row \<Rightarrow> bool" where
  "user_kept a b = (u_id b = u_id a \<and> u_phone b = u_phone a \<and> u_referral_code b = u_referral_code a
     \<and> (u_status b = U_PENDING \<longrightarrow> u_status a = U_PENDING))"

definition session_kept :: "session_row \<Rightarrow> session_row \<Rightarrow> bool" where
  "session_kept a b = (s_id b = s_id a \<and> s_user b = s_user a \<and> s_hash b = s_hash a \<and> s_expires b = s_expires a
     \<and> (s_revoked a \<noteq> None \<longrightarrow> s_revoked b \<noteq> None))"

definition change :: "db \<Rightarrow> db \<Rightarrow> user_row list \<Rightarrow> session_row list \<Rightarrow> bool" where
  "change s t us ss \<longleftrightarrow>
     (\<exists>us' ss'. users t = us' @ us \<and> list_all2 user_kept (users s) us' \<and>
        sessions t = ss' @ ss \<and> list_all2 session_kept (sessions s) ss' \<and> next_id s \<le> next_id t)"

lemma user_kept_refl [simp]: "user_kept a a"
  by (simp add: user_kept_def)

lemma session_kept_refl [simp]: "session_kept a a"
  by (simp add: session_kept_def)

lemma list_all2_update:
  "(\<And>r. R r r) \<Longrightarrow> (\<And>r. r \<in> set t \<Longrightarrow> P r \<Longrightarrow> R r (f r)) \<Longrightarrow> list_all2 R t (update_rows P f t)"
  by (induction t) auto

lemma change_frame: "users t = users s \<Longrightarrow> sessions t = sessions s \<Longrightarrow> next_id s \<le> next_id t \<Longrightarrow> change s t [] []"
  by (simp add: change_def list_all2_refl)

lemma change_users:
  assumes "users t = update_rows P f (users s)" "sessions t = sessions s" "next_id s \<le> next_id t"
    "\<And>r. P r \<Longrightarrow> user_kept r (f r)"
  shows "change s t [] []"
  using assms by (auto simp: change_def list_all2_refl intro: list_all2_update)

lemma change_sessions:
  assumes "sessions t = update_rows P f (sessions s)" "users t = users s" "next_id s \<le> next_id t"
    "\<And>r. P r \<Longrightarrow> session_kept r (f r)"
  shows "change s t [] []"
  using assms by (auto simp: change_def list_all2_refl intro: list_all2_update)

lemma change_trans:
  assumes "change r s [] []" "change s t us ss"
  shows "change r t us ss"
proof -
  obtain us1 ss1 where 1: "users s = us1" "list_all2 user_kept (users r) us1" "sessions s = ss1"
    "list_all2 session_kept (sessions r) ss1" "next_id r \<le> next_id s"
    using assms(1) by (auto simp: change_def)
  obtain us2 ss2 where 2: "users t = us2 @ us" "list_all2 user_kept us1 us2" "sessions t = ss2 @ ss"
    "list_all2 session_kept ss1 ss2" "next_id s \<le> next_id t"
    using assms(2) 1 by (auto simp: change_def)
  have "user_kept a c" if "user_kept a b" "user_kept b c" for a b c using that by (simp add: user_kept_def)
  then have "list_all2 user_kept (users r) us2" using list_all2_trans [OF _ 1(2) 2(2)] by blast
  moreover have "session_kept a c" if "session_kept a b" "session_kept b c" for a b c
    using that by (auto simp: session_kept_def)
  then have "list_all2 session_kept (sessions r) ss2" using list_all2_trans [OF _ 1(4) 2(4)] by blast
  ultimately show ?thesis using 1(5) 2(1,3,5) unfolding change_def by (meson le_trans)
qed

section \<open>The invariant\<close>

definition auth_inv :: "db \<Rightarrow> bool" where
  "auth_inv s =
     (distinct (map u_id (users s)) \<and> distinct (map u_phone (users s)) \<and> distinct (map u_referral_code (users s)) \<and>
      distinct (map s_id (sessions s)) \<and>
      (\<forall>r \<in> set (users s). u_id r < next_id s) \<and> (\<forall>x \<in> set (sessions s). s_id x < next_id s) \<and>
      (\<forall>x \<in> set (sessions s). \<exists>r \<in> set (users s). u_id r = s_user x \<and> u_status r \<noteq> U_PENDING))"

definition new_users :: "db \<Rightarrow> db \<Rightarrow> user_row list \<Rightarrow> bool" where
  "new_users s t us \<longleftrightarrow>
     us = [] \<or> (\<exists>r. us = [r] \<and> next_id s \<le> u_id r \<and> u_id r < next_id t \<and> u_phone r \<notin> u_phone ` set (users s)
                   \<and> u_referral_code r \<notin> u_referral_code ` set (users s))"

definition new_sessions :: "db \<Rightarrow> db \<Rightarrow> session_row list \<Rightarrow> bool" where
  "new_sessions s t ss \<longleftrightarrow>
     ss = [] \<or> (\<exists>x. ss = [x] \<and> next_id s \<le> s_id x \<and> s_id x < next_id t
                   \<and> (\<exists>r \<in> set (users t). u_id r = s_user x \<and> u_status r \<noteq> U_PENDING))"

lemma kept_maps:
  "list_all2 user_kept us us' \<Longrightarrow>
     map u_id us' = map u_id us \<and> map u_phone us' = map u_phone us \<and> map u_referral_code us' = map u_referral_code us"
  by (induction rule: list_all2_induct) (auto simp: user_kept_def)

lemma kept_ids: "list_all2 session_kept ss ss' \<Longrightarrow> map s_id ss' = map s_id ss"
  by (induction rule: list_all2_induct) (auto simp: session_kept_def)

lemma kept_user:
  "list_all2 user_kept us us' \<Longrightarrow> r \<in> set us \<Longrightarrow> \<exists>r' \<in> set us'. user_kept r r'"
  by (induction rule: list_all2_induct) auto

lemma kept_session:
  "list_all2 session_kept ss ss' \<Longrightarrow> x \<in> set ss' \<Longrightarrow> \<exists>y \<in> set ss. session_kept y x"
  by (induction rule: list_all2_induct) auto

lemma change_inv:
  assumes "auth_inv s" "change s t us ss" "new_users s t us" "new_sessions s t ss"
  shows "auth_inv t"
proof -
  obtain us' ss' where u: "users t = us' @ us" "list_all2 user_kept (users s) us'"
    and x: "sessions t = ss' @ ss" "list_all2 session_kept (sessions s) ss'" and n: "next_id s \<le> next_id t"
    using assms(2) unfolding change_def by blast
  note m = kept_maps [OF u(2)] kept_ids [OF x(2)]
  have sets: "u_id ` set us' = u_id ` set (users s)" "u_phone ` set us' = u_phone ` set (users s)"
    "u_referral_code ` set us' = u_referral_code ` set (users s)" "s_id ` set ss' = s_id ` set (sessions s)"
    using m by (metis list.set_map)+
  have lt: "\<forall>i \<in> u_id ` set us'. i < next_id s" "\<forall>i \<in> s_id ` set ss'. i < next_id s"
    unfolding sets using assms(1) by (auto simp: auth_inv_def)
  have old: "\<exists>r \<in> set (users t). u_id r = s_user y \<and> u_status r \<noteq> U_PENDING" if y: "y \<in> set ss'" for y
  proof -
    obtain z where z: "z \<in> set (sessions s)" "session_kept z y" using kept_session [OF x(2) y] by blast
    obtain r where r: "r \<in> set (users s)" "u_id r = s_user z" "u_status r \<noteq> U_PENDING"
      using assms(1) z(1) unfolding auth_inv_def by blast
    obtain r' where "r' \<in> set us'" "user_kept r r'" using kept_user [OF u(2) r(1)] by blast
    then show ?thesis using r z(2) u(1) by (auto simp: user_kept_def session_kept_def)
  qed
  have d: "distinct (map u_id us')" "distinct (map u_phone us')" "distinct (map u_referral_code us')"
    "distinct (map s_id ss')"
    using m assms(1) by (simp_all add: auth_inv_def)
  have "distinct (map u_id (users t))" "distinct (map u_phone (users t))" "distinct (map u_referral_code (users t))"
    using assms(3) d(1-3) lt(1) unfolding new_users_def u(1) sets(2,3) [symmetric] by fastforce+
  moreover have "distinct (map s_id (sessions t))"
    using assms(4) d(4) lt(2) unfolding new_sessions_def x(1) by fastforce
  moreover have "\<forall>r \<in> set (users t). u_id r < next_id t"
    using assms(3) lt(1) n unfolding new_users_def u(1) by fastforce
  moreover have "\<forall>y \<in> set (sessions t). s_id y < next_id t"
    using assms(4) lt(2) n unfolding new_sessions_def x(1) by fastforce
  moreover have "\<forall>y \<in> set (sessions t). \<exists>r \<in> set (users t). u_id r = s_user y \<and> u_status r \<noteq> U_PENDING"
    using assms(4) old unfolding new_sessions_def x(1) by fastforce
  ultimately show ?thesis unfolding auth_inv_def by blast
qed

section \<open>Every step is such a change\<close>

lemma set_status_change:
  assumes "set_status i P st s = (n, t)" "st \<noteq> U_PENDING"
  shows "change s t [] []"
  using assms by (auto simp: set_status_def user_kept_def intro!: change_users [where P = "\<lambda>r. u_id r = i \<and> P (u_status r)" and f = "\<lambda>r. r\<lparr>u_status := st\<rparr>"])

lemma with_details_state: "with_details now i s = (r, t) \<Longrightarrow> t = s"
  by (auto simp: with_details_def split: sum.splits)

lemma suspend_change: "suspend_user now target admin reason s = (r, t) \<Longrightarrow> change s t [] []"
proof -
  assume a: "suspend_user now target admin reason s = (r, t)"
  obtain n s1 where s1: "set_status target (\<lambda>st. st \<noteq> U_SUSPENDED) U_SUSPENDED s = (n, s1)" by fastforce
  have 1: "change s s1 [] []" by (rule set_status_change [OF s1]) simp
  have "t = s \<or> (users t = users s1 \<and> sessions t = sessions s1 \<and> next_id s1 \<le> next_id t)"
    using a s1 by (auto simp: suspend_user_def dest!: with_details_state split: option.splits if_splits)
  then show ?thesis using change_trans [OF 1 change_frame] change_frame [of s s] by auto
qed

lemma restore_change: "restore_user now target admin s = (r, t) \<Longrightarrow> change s t [] []"
proof -
  assume a: "restore_user now target admin s = (r, t)"
  obtain n s1 where s1: "set_status target (\<lambda>st. st = U_SUSPENDED) U_ACTIVE s = (n, s1)" by fastforce
  have 1: "change s s1 [] []" by (rule set_status_change [OF s1]) simp
  have "t = s \<or> (users t = users s1 \<and> sessions t = sessions s1 \<and> next_id s1 \<le> next_id t)"
    using a s1 by (auto simp: restore_user_def dest!: with_details_state split: option.splits if_splits)
  then show ?thesis using change_trans [OF 1 change_frame] change_frame [of s s] by auto
qed

lemma log_in_change:
  assumes "log_in ctx r s = (x, t)"
  shows "\<exists>y. change s t [] [y] \<and> s_id y = next_id s \<and> next_id t = next_id s + 1 \<and> s_user y = u_id r \<and> users t = users s"
  using assms
  by (auto simp: log_in_def issue_tokens_def Let_def claims_of_def change_def list_all2_refl split: prod.splits)

lemma revoke_change: "change s (revoke_sessions now P s) [] []"
  by (rule change_sessions [where P = "\<lambda>r. P r \<and> s_revoked r = None" and f = "\<lambda>r. r\<lparr>s_revoked := Some now\<rparr>"])
    (auto simp: revoke_sessions_def session_kept_def)

lemma consume_change: "consume_locked now i s = (r, t) \<Longrightarrow> change s t [] []"
  by (auto simp: consume_locked_def session_kept_def change_frame split: option.splits
      intro!: change_sessions [where P = "\<lambda>r. s_id r = i" and f = "\<lambda>r. r\<lparr>s_revoked := Some now\<rparr>"])

lemma reset_change:
  assumes "reset_password ctx phone code password s = (r, t)"
  shows "change s t [] []"
proof -
  obtain a s1 where s1: "verify_code ctx phone code RESET s = (a, s1)" by fastforce
  have 1: "change s s1 [] []" using verify_code_frame [OF s1] by (intro change_frame) simp_all
  show ?thesis
  proof (cases "\<exists>e. r = Inl e")
    case True
    then have "t = s1" using assms s1 by (auto simp: reset_password_def and_then_eq split: option.splits)
    then show ?thesis using 1 by simp
  next
    case False
    then have u: "\<exists>u. user_by_phone phone s1 = Some u \<and> t = revoke_all_for_user ctx (u_id u)
        (s1\<lparr>users := update_rows (\<lambda>x. u_id x = u_id u) (\<lambda>x. x\<lparr>u_password := ax_hash ctx password\<rparr>) (users s1)\<rparr>)"
      using assms s1 by (auto simp: reset_password_def and_then_eq split: option.splits)
    let ?s = "\<lambda>u. s1\<lparr>users := update_rows (\<lambda>x. u_id x = u_id u) (\<lambda>x. x\<lparr>u_password := ax_hash ctx password\<rparr>) (users s1)\<rparr>"
    from u obtain u :: user_row where "t = revoke_all_for_user ctx (u_id u) (?s u)" by (elim exE conjE) (rule that)
    note u = this
    have "change s1 (s1\<lparr>users := update_rows (\<lambda>x. u_id x = u_id u) (\<lambda>x. x\<lparr>u_password := ax_hash ctx password\<rparr>) (users s1)\<rparr>) [] []"
      by (rule change_users [where P = "\<lambda>x. u_id x = u_id u" and f = "\<lambda>x. x\<lparr>u_password := ax_hash ctx password\<rparr>"])
        (auto simp: user_kept_def)
    then show ?thesis
      unfolding u revoke_all_for_user_def using 1 revoke_change change_trans by blast
  qed
qed

lemma logout_change: "change s (logout ctx raw s) [] []"
  by (auto simp: logout_def revoke_by_token_def change_frame revoke_change split: option.splits)

lemma activate_change:
  assumes "activate r s = (r', t)"
  shows "change s t [] []" "u_id r' = u_id r" "u_status r' = (if u_status r = U_PENDING then U_ACTIVE else u_status r)"
    "r \<in> set (users s) \<Longrightarrow> \<exists>q \<in> set (users t). u_id q = u_id r \<and> u_status q \<noteq> U_PENDING"
proof -
  let ?us = "update_rows (\<lambda>x. u_id x = u_id r) (\<lambda>x. x\<lparr>u_status := U_ACTIVE\<rparr>) (users s)"
  show "u_id r' = u_id r" "u_status r' = (if u_status r = U_PENDING then U_ACTIVE else u_status r)"
    using assms by (auto simp: activate_def split: if_splits)
  have D: "(u_status r \<noteq> U_PENDING \<and> t = s) \<or> (users t = ?us \<and> sessions t = sessions s \<and> next_id t = next_id s)"
    using assms by (auto simp: activate_def split: if_splits)
  then show "change s t [] []"
  proof
    assume "users t = ?us \<and> sessions t = sessions s \<and> next_id t = next_id s"
    then show ?thesis
      by (intro change_users [where P = "\<lambda>x. u_id x = u_id r" and f = "\<lambda>x. x\<lparr>u_status := U_ACTIVE\<rparr>"])
        (auto simp: user_kept_def)
  qed (simp add: change_frame)
  show "\<exists>q \<in> set (users t). u_id q = u_id r \<and> u_status q \<noteq> U_PENDING" if r: "r \<in> set (users s)"
    using D
  proof
    assume "users t = ?us \<and> sessions t = sessions s \<and> next_id t = next_id s"
    then have "r\<lparr>u_status := U_ACTIVE\<rparr> \<in> set (users t)" using r by (force simp: set_update_rows)
    then show ?thesis by (intro bexI [of _ "r\<lparr>u_status := U_ACTIVE\<rparr>"]) simp_all
  qed (use r in auto)
qed

lemma register_change:
  assumes "auth_inv s" "register ctx d s = (r, t)"
  shows "\<exists>us. change s t us [] \<and> new_users s t us"
proof (cases "user_by_phone (ri_phone d) s")
  case (Some u)
  show ?thesis
  proof (cases "u_status u = U_PENDING")
    case False
    then show ?thesis using assms(2) Some by (auto simp: register_def new_users_def intro!: exI [of _ "[]"] change_frame)
  next
    case True
    let ?s = "reregister ctx d u s"
    have 1: "change s ?s [] []"
      by (rule change_users [where P = "\<lambda>x. u_id x = u_id u" and
            f = "\<lambda>x. x\<lparr>u_password := ax_hash ctx (ri_password d), u_role := ri_role d, u_locale := ri_locale d\<rparr>"])
        (auto simp: reregister_def user_kept_def)
    obtain q s1 where q: "issue_code ctx (ri_phone d) SIGNUP ?s = (q, s1)" by fastforce
    have "t = s1" using assms(2) Some True q by (auto simp: register_def dest!: challenge_state)
    moreover have "change ?s s1 [] []" using issue_frame [OF q] issue_next [OF q] by (intro change_frame) simp_all
    ultimately show ?thesis using change_trans [OF 1] by (auto simp: new_users_def)
  qed
next
  case None
  obtain q s1 where q: "create_account ctx d s = (q, s1)" by fastforce
  let ?k = "unique_referral_code ctx s"
  show ?thesis
  proof (cases "\<exists>e. q = Inl e")
    case True
    then have "t = s" using assms(2) None q by (auto simp: register_def create_account_def Let_def split: if_splits)
    then show ?thesis by (auto simp: new_users_def intro!: exI [of _ "[]"] change_frame)
  next
    case False
    then have free: "code_free ?k s" and s1: "users s1 = users s @ [\<lparr>u_id = next_id s, u_phone = ri_phone d, u_password = ax_hash ctx (ri_password d),
         u_role = ri_role d, u_status = U_PENDING, u_referral_code = ?k, u_locale = ri_locale d, u_created = ax_now ctx\<rparr>]"
      "sessions s1 = sessions s" "next_id s < next_id s1"
      using q None by (auto simp: create_account_def Let_def less_Suc_eq_le Suc_le_eq
          intro: less_le_trans [OF _ record_signup_frame(3)] split: if_splits)
    obtain a s2 where a: "issue_code ctx (ri_phone d) SIGNUP s1 = (a, s2)" by fastforce
    have t: "t = s2" using assms(2) None False q a by (cases q) (auto simp: register_def dest!: challenge_state)
    have n: "?k \<notin> u_referral_code ` set (users s)" "ri_phone d \<notin> u_phone ` set (users s)"
      using free None by (auto simp: code_free_def user_by_phone_def find_row_None)
    let ?u = "\<lparr>u_id = next_id s, u_phone = ri_phone d, u_password = ax_hash ctx (ri_password d),
         u_role = ri_role d, u_status = U_PENDING, u_referral_code = ?k, u_locale = ri_locale d, u_created = ax_now ctx\<rparr>"
    have "new_users s t [?u]"
      unfolding new_users_def t using n s1(3) issue_next [OF a] by simp
    moreover have "change s t [?u] []"
      unfolding change_def t using s1 issue_frame [OF a] issue_next [OF a] by (auto simp: list_all2_refl)
    ultimately show ?thesis by blast
  qed
qed

lemma request_change: "request_otp ctx phone purpose s = (r, t) \<Longrightarrow> change s t [] []"
proof -
  assume a: "request_otp ctx phone purpose s = (r, t)"
  obtain q s1 where q: "issue_code ctx phone purpose s = (q, s1)" by fastforce
  have "t = s \<or> t = s1" using a q by (auto simp: request_otp_def dest!: challenge_state split: option.splits)
  then show ?thesis using issue_frame [OF q] issue_next [OF q] by (auto intro: change_frame)
qed

text \<open>Both ways of getting tokens end with a session for an account that is not pending.\<close>

lemma log_in_new_session:
  assumes "log_in ctx r s = (x, t)" "q \<in> set (users s)" "u_id q = u_id r" "u_status q \<noteq> U_PENDING"
  shows "\<exists>ss. change s t [] ss \<and> new_sessions s t ss"
  using log_in_change [OF assms(1)] assms(2-4) by (fastforce simp: new_sessions_def)

lemma new_sessions_after: "next_id r \<le> next_id s \<Longrightarrow> new_sessions s t ss \<Longrightarrow> new_sessions r t ss"
  by (auto simp: new_sessions_def)

lemma login_attempt_frame [frame_simps]:
  "users (register_failed_login ctx phone s) = users s" "sessions (register_failed_login ctx phone s) = sessions s"
  "next_id (register_failed_login ctx phone s) = next_id s"
  "users (clear_failed_logins ctx phone s) = users s" "sessions (clear_failed_logins ctx phone s) = sessions s"
  "next_id (clear_failed_logins ctx phone s) = next_id s"
  by (auto simp: register_failed_login_def clear_failed_logins_def redis_incr_def split: option.splits)

lemma enforce_login_state: "enforce_login_limit ctx phone s = (r, t) \<Longrightarrow> t = s"
  by (auto simp: enforce_login_limit_def split: if_splits)

lemma user_by_phone_in: "user_by_phone phone s = Some r \<Longrightarrow> r \<in> set (users s)"
  unfolding user_by_phone_def by (auto dest: find_row_Some)

lemma verify_change:
  assumes "verify_otp ctx phone code purpose s = (r, t)"
  shows "\<exists>ss. change s t [] ss \<and> new_sessions s t ss"
proof -
  obtain a s1 where s1: "verify_code ctx phone code purpose s = (a, s1)" by fastforce
  have 1: "change s s1 [] []" using verify_code_frame [OF s1] by (intro change_frame) simp_all
  show ?thesis
  proof (cases "t = s1")
    case True
    then show ?thesis using 1 by (auto simp: new_sessions_def)
  next
    case False
    then obtain u where u: "user_by_phone phone s1 = Some u"
      and rest: "(let (u', s2) = activate u s1; (x, s3) = log_in ctx u' s2 in ok x s3) = (r, t)"
      using assms s1
      by (auto simp: verify_otp_def and_then_eq simp del: ok_eq_iff split: option.splits if_splits)
    obtain u' s2 where a: "activate u s1 = (u', s2)" by fastforce
    obtain x s3 where l: "log_in ctx u' s2 = (x, s3)" by fastforce
    have t: "t = s3" using rest by (simp add: a l)
    note ac = activate_change [OF a]
    obtain q where q: "q \<in> set (users s2)" "u_id q = u_id u" "u_status q \<noteq> U_PENDING"
      using ac(4) user_by_phone_in [OF u] by blast
    obtain ss where ss: "change s2 s3 [] ss" "new_sessions s2 s3 ss"
      using log_in_new_session [OF l q(1)] q ac(2) by auto
    have 2: "change s s2 [] []" using 1 ac(1) by (rule change_trans)
    then have "next_id s \<le> next_id s2" by (simp add: change_def)
    then show ?thesis unfolding t using change_trans [OF 2 ss(1)] new_sessions_after ss(2) by blast
  qed
qed

lemma login_change:
  assumes "login ctx phone password s = (r, t)"
  shows "\<exists>ss. change s t [] ss \<and> new_sessions s t ss"
proof -
  let ?s = "clear_failed_logins ctx phone s"
  have 1: "change s ?s [] []" by (intro change_frame) (simp_all add: login_attempt_frame)
  have idle: ?thesis if "change s t [] []" using that by (auto simp: new_sessions_def)
  consider "t = s" | "t = register_failed_login ctx phone s" | "t = ?s"
    | (bounce) q where "ensure_challenge ctx phone SIGNUP ?s = (q, t)"
    | (tokens) u x where "user_by_phone phone s = Some u" "\<not> blocked (u_status u)" "u_status u \<noteq> U_PENDING"
        "log_in ctx u ?s = (x, t)"
  proof (cases "fst (enforce_login_limit ctx phone s)")
    case (Inl e)
    then have "t = s"
      using assms enforce_login_state [of ctx phone s] by (cases "enforce_login_limit ctx phone s") (auto simp: login_def)
    then show thesis using that(1) by simp
  next
    case (Inr z)
    then have e: "enforce_login_limit ctx phone s = (Inr z, s)"
      using enforce_login_state [of ctx phone s] by (cases "enforce_login_limit ctx phone s") auto
    show thesis
    proof (cases "credentials_ok ctx password (user_by_phone phone s)")
      case False
      then show thesis using that(2) assms e by (simp add: login_def raise_def)
    next
      case True
      then obtain u where u: "user_by_phone phone s = Some u" by (auto simp: credentials_ok_def split: option.splits)
      consider "blocked (u_status u)" | "\<not> blocked (u_status u)" "u_status u = U_PENDING"
        | "\<not> blocked (u_status u)" "u_status u \<noteq> U_PENDING" by blast
      then show thesis
      proof cases
        case 1
        then show thesis using that(3) assms e True u by (simp add: login_def)
      next
        case 2
        obtain q s2 where q: "ensure_challenge ctx phone SIGNUP ?s = (q, s2)" by fastforce
        then have "t = s2"
          using assms e True u 2 by (cases q) (auto simp: login_def challenge_for_def ok_def)
        then show thesis using that(4) q by simp
      next
        case 3
        obtain x y s2 where l: "log_in ctx u ?s = ((x, y), s2)" by (metis prod.exhaust)
        then have "t = s2" using assms e True u 3 by (simp add: login_def)
        then show thesis using that(5) u 3 l by blast
      qed
    qed
  qed
  then show ?thesis
  proof cases
    case (bounce q)
    have "change ?s t [] []" using ensure_frame [OF bounce] ensure_next [OF bounce] by (intro change_frame) simp_all
    then show ?thesis using idle change_trans [OF 1] by blast
  next
    case (tokens u x)
    have "u \<in> set (users ?s)" using user_by_phone_in [OF tokens(1)] by (simp add: login_attempt_frame)
    then obtain ss where ss: "change ?s t [] ss" "new_sessions ?s t ss"
      using log_in_new_session [OF tokens(4)] tokens(3) by blast
    then show ?thesis using change_trans [OF 1 ss(1)] new_sessions_after [of s ?s] by (auto simp: login_attempt_frame)
  qed (use idle 1 in \<open>simp_all add: change_frame login_attempt_frame\<close>)
qed

section \<open>The invariant holds\<close>

lemma auth_step_change:
  assumes "auth_step s t" "auth_inv s"
  shows "\<exists>us ss. change s t us ss \<and> new_users s t us \<and> new_sessions s t ss"
proof -
  have quiet: ?thesis if "change s t [] []" using that by (auto simp: new_users_def new_sessions_def)
  have session: ?thesis if "\<exists>ss. change s t [] ss \<and> new_sessions s t ss" using that by (auto simp: new_users_def)
  show ?thesis
    using assms(1)
  proof cases
    case (registered ctx d r)
    have "new_sessions s t []" by (simp add: new_sessions_def)
    then show ?thesis using register_change [OF assms(2) registered] by blast
  next
    case (granted x u ctx r)
    obtain q where q: "q \<in> set (users s)" "u_id q = s_user x" "u_status q \<noteq> U_PENDING"
      using assms(2) granted(1) by (auto simp: auth_inv_def)
    have "u_id u = s_user x" using granted(2) by (auto simp: find_user_def dest: find_row_Some)
    then show ?thesis using session log_in_new_session [OF granted(4) q(1)] q by simp
  next
    case (verified ctx phone code purpose r)
    show ?thesis by (rule session) (rule verify_change [OF verified])
  next
    case (logged_in ctx phone password r)
    show ?thesis by (rule session) (rule login_change [OF logged_in])
  next
    case (code_requested ctx phone purpose r)
    show ?thesis by (rule quiet) (rule request_change [OF code_requested])
  next
    case (consumed now i r)
    show ?thesis by (rule quiet) (rule consume_change [OF consumed])
  next
    case (logged_out ctx raw)
    show ?thesis unfolding logged_out by (rule quiet [unfolded logged_out]) (rule logout_change)
  next
    case (reset ctx phone code password r)
    show ?thesis by (rule quiet) (rule reset_change [OF reset])
  next
    case (suspended now target admin reason r)
    show ?thesis by (rule quiet) (rule suspend_change [OF suspended])
  next
    case (restored now target admin r)
    show ?thesis by (rule quiet) (rule restore_change [OF restored])
  next
    case other
    show ?thesis by (rule quiet) (rule change_frame [OF other])
  qed
qed

lemma auth_step_inv: "auth_step s t \<Longrightarrow> auth_inv s \<Longrightarrow> auth_inv t"
  using auth_step_change change_inv by blast

lemma auth_steps_inv: "auth_step\<^sup>*\<^sup>* s t \<Longrightarrow> auth_inv s \<Longrightarrow> auth_inv t"
  by (induction rule: rtranclp_induct) (auto intro: auth_step_inv)

definition no_accounts :: "db \<Rightarrow> bool" where
  "no_accounts s = (users s = [] \<and> sessions s = [])"

lemma no_accounts_inv: "no_accounts s \<Longrightarrow> auth_inv s"
  by (simp add: no_accounts_def auth_inv_def)

text \<open>Whatever happens later, a revoked session stays revoked and keeps its place.\<close>

lemma auth_step_sessions:
  assumes "auth_step s t" "auth_inv s"
  shows "\<exists>ss ss'. sessions t = ss' @ ss \<and> list_all2 session_kept (sessions s) ss'"
  using auth_step_change [OF assms] unfolding change_def by blast

lemma session_kept_trans: "session_kept a b \<Longrightarrow> session_kept b c \<Longrightarrow> session_kept a c"
  by (auto simp: session_kept_def)

lemma auth_steps_sessions:
  assumes "auth_step\<^sup>*\<^sup>* s t" "auth_inv s"
  shows "\<exists>ss ss'. sessions t = ss' @ ss \<and> list_all2 session_kept (sessions s) ss'"
  using assms
proof (induction rule: rtranclp_induct)
  case base
  have "sessions s = sessions s @ [] \<and> list_all2 session_kept (sessions s) (sessions s)"
    by (simp add: list_all2_refl)
  then show ?case by (intro exI)
next
  case (step t u)
  obtain ss ss' where t: "sessions t = ss' @ ss" "list_all2 session_kept (sessions s) ss'" using step by auto
  obtain us us' where u: "sessions u = us' @ us" "list_all2 session_kept (sessions t) us'"
    using auth_step_sessions [OF step(2) auth_steps_inv [OF step(1) step.prems]] by auto
  let ?n = "length ss'"
  have k: "list_all2 session_kept ss' (take ?n us')"
    using u(2) t(1) by (auto simp: list_all2_append1)
  have "list_all2 session_kept (sessions s) (take ?n us')"
    by (rule list_all2_trans [OF _ t(2) k]) (rule session_kept_trans)
  moreover have "sessions u = take ?n us' @ (drop ?n us' @ us)" using u(1) by simp
  ultimately show ?case by (intro exI [of _ "drop ?n us' @ us"] exI [of _ "take ?n us'"] conjI)
qed

lemma revoked_stays:
  assumes "auth_step\<^sup>*\<^sup>* s t" "auth_inv s" "x \<in> set (sessions s)" "s_revoked x \<noteq> None" "y \<in> set (sessions t)"
    "s_id y = s_id x"
  shows "s_revoked y \<noteq> None"
proof -
  obtain ss ss' where t: "sessions t = ss' @ ss" "list_all2 session_kept (sessions s) ss'"
    using auth_steps_sessions [OF assms(1,2)] by blast
  have "\<exists>x' \<in> set ss'. session_kept x x'" using t(2) assms(3) by (induction rule: list_all2_induct) auto
  then obtain x' where x': "x' \<in> set (sessions t)" "session_kept x x'" using t(1) by auto
  have "distinct (map s_id (sessions t))" using auth_steps_inv [OF assms(1,2)] by (simp add: auth_inv_def)
  moreover have k: "s_id x' = s_id x" "s_revoked x' \<noteq> None" using x'(2) assms(4) by (simp_all add: session_kept_def)
  ultimately have "y = x'" using find_row_key_unique [of s_id "sessions t" y x'] assms(5,6) x'(1) by simp
  then show ?thesis using k by simp
qed

text \<open>A token is looked up by its hash: the row it finds stays the one it finds.\<close>

lemma find_hash_kept:
  assumes "find_row (\<lambda>r. s_hash r = h) rows = Some x" "list_all2 session_kept rows rows'"
  shows "\<exists>y. find_row (\<lambda>r. s_hash r = h) (rows' @ rest) = Some y \<and> s_id y = s_id x"
  using assms(2,1) by (induction rule: list_all2_induct) (auto simp: session_kept_def split: if_splits)

lemma consumed_forever:
  assumes "auth_inv s" "consume_session ctx raw s = (Inr x, t)" "auth_step\<^sup>*\<^sup>* t u" "ax_sha ctx' = ax_sha ctx"
  shows "consume_session ctx' raw u = raise Unauthorized u"
proof -
  obtain y where y: "find_row (\<lambda>r. s_hash r = ax_sha ctx raw) (sessions s) = Some y"
    "consume_locked (ax_now ctx) (s_id y) s = (Inr x, t)"
    using assms(2) by (auto simp: consume_session_def split: option.splits)
  have st: "auth_step s t" using y(2) by (rule auth_step.consumed)
  have it: "auth_inv t" using auth_step_inv [OF st assms(1)] .
  have t: "sessions t = update_rows (\<lambda>r. s_id r = s_id y) (\<lambda>r. r\<lparr>s_revoked := Some (ax_now ctx)\<rparr>) (sessions s)"
    using y(2) by (auto simp: consume_locked_def split: option.splits)
  have "list_all2 session_kept (sessions s) (sessions t)"
    unfolding t by (rule list_all2_update) (auto simp: session_kept_def)
  then obtain z where z: "find_row (\<lambda>r. s_hash r = ax_sha ctx raw) (sessions t) = Some z" "s_id z = s_id y"
    using find_hash_kept [OF y(1), of _ "[]"] by auto
  obtain ss ss' where u: "sessions u = ss' @ ss" "list_all2 session_kept (sessions t) ss'"
    using auth_steps_sessions [OF assms(3) it] by blast
  obtain w where w: "find_row (\<lambda>r. s_hash r = ax_sha ctx raw) (sessions u) = Some w" "s_id w = s_id y"
    using find_hash_kept [OF z(1) u(2), of ss] z(2) u(1) by auto
  have zt: "z \<in> set (sessions t)" using find_row_Some [OF z(1)] by simp
  then have "s_revoked z \<noteq> None" using z(2) unfolding t set_update_rows by auto
  then have "s_revoked v \<noteq> None" if "v \<in> set (sessions u)" "s_id v = s_id y" for v
    using revoked_stays [OF assms(3) it zt] that z(2) by simp
  then have "find_row (\<lambda>r. s_id r = s_id w \<and> live_session now r) (sessions u) = None" for now
    unfolding find_row_None using w(2) by (auto simp: live_session_def)
  then show ?thesis using w(1) assms(4) by (simp add: consume_session_def consume_locked_def)
qed

end
