(* ===== verification/Analytics.thy ===== *)
theory Analytics
  imports Admin
begin

text \<open>
  Reading across components: the catalogue (\<open>modules/catalog\<close>), the figures of a master
  (\<open>modules/analytics\<close>), the overview of the administrators (\<open>modules/admin/admin-analytics\<close>) and
  the relay of live positions (\<open>modules/realtime\<close>).  The averages of the overview are means of
  milliseconds in seconds, rounded to a double.
\<close>

section \<open>Catalogue\<close>

record category_dto =
  cg_id :: id
  cg_slug :: string
  cg_name_uz :: string
  cg_name_ru :: string
  cg_min :: int
  cg_max :: int
  cg_warranty :: bool
  cg_icon :: "string option"

definition list_categories :: "db \<Rightarrow> category_dto list" where
  "list_categories s =
     map (\<lambda>c. \<lparr>cg_id = c_id c, cg_slug = c_slug c, cg_name_uz = c_name_uz c, cg_name_ru = c_name_ru c,
               cg_min = c_base_min c, cg_max = c_base_max c, cg_warranty = c_warranty c, cg_icon = c_icon c\<rparr>)
       (sort_key c_sort (filter c_active (categories s)))"

section \<open>The figures of a master\<close>

definition recent_reviews_for_trend :: nat where
  "recent_reviews_for_trend = 10"

record master_analytics =
  ma_jobs :: int
  ma_rating :: rat
  ma_trend :: rat
  ma_response :: rat
  ma_score :: int
  ma_tier :: int
  ma_plan :: subscription_plan
  ma_total_net :: int
  ma_jobs_paid :: nat

definition rating_trend :: "rat \<Rightarrow> int list \<Rightarrow> rat" where
  "rating_trend rating recent =
     (let recent_avg = (if recent \<noteq> [] then fl64 (of_int (sum_list recent) / of_nat (length recent)) else rating)
      in fl64 (of_int (js_round (fl64 (fl64 (recent_avg - rating) * 100))) / 100))"

definition get_for_master :: "time \<Rightarrow> id \<Rightarrow> db \<Rightarrow> (master_analytics, db) outcome" where
  "get_for_master now m s =
     (case find_master m s of
        None \<Rightarrow> raise NotFound s
      | Some r \<Rightarrow>
          let recent = recent_reviews m recent_reviews_for_trend s;
              trust = compute_trust_score now m s;
              earnings = get_master_earnings m None s;
              (subscription, s1) = get_status now m s;
              rating = fl64 (m_rating r)
          in case trust of
               Inl e \<Rightarrow> raise e s1
             | Inr t \<Rightarrow>
                 ok \<lparr>ma_jobs = m_jobs r, ma_rating = rating, ma_trend = rating_trend rating (map r_rating recent),
                     ma_response = tf_response (tr_factors t), ma_score = tr_score t, ma_tier = tr_tier t,
                     ma_plan = sd_plan subscription, ma_total_net = ep_total_net earnings,
                     ma_jobs_paid = ep_jobs_paid earnings\<rparr> s1)"

section \<open>Overview\<close>

record overview =
  ov_created :: nat
  ov_completed :: nat
  ov_cancelled :: nat
  ov_expired :: nat
  ov_active_masters :: nat
  ov_active_customers :: nat
  ov_online :: nat
  ov_revenue :: int
  ov_response_seconds :: "rat option"
  ov_completion_seconds :: "rat option"
  ov_assignment_seconds :: "rat option"
  ov_match_rate :: "rat option"
  ov_satisfaction :: "rat option"
  ov_unverified :: nat
  ov_pending :: nat
  ov_verified :: nat
  ov_rejected :: nat
  ov_free :: int
  ov_premium :: nat
  ov_trial :: nat
  ov_cashback :: int
  ov_cashbacks :: nat
  ov_ref_pending :: nat
  ov_ref_active :: nat
  ov_ref_rewarded :: nat

definition mean_seconds :: "int list \<Rightarrow> rat option" where
  "mean_seconds ms = (if ms = [] then None else Some (fl64 (of_int (sum_list ms) / (1000 * of_nat (length ms)))))"

definition response_times :: "time option \<Rightarrow> time option \<Rightarrow> db \<Rightarrow> int list" where
  "response_times from to s =
     List.map_filter
       (\<lambda>d. case d_responded d of
              None \<Rightarrow> None
            | Some t \<Rightarrow> if in_range from to (d_offered_at d) then Some (t - d_offered_at d) else None)
       (dispatches s)"

definition reached :: "time option \<Rightarrow> time option \<Rightarrow> order_status \<Rightarrow> db \<Rightarrow> history_row list" where
  "reached from to st s = filter (\<lambda>h. h_to h = st \<and> in_range from to (h_at h)) (history s)"

definition times_to :: "time option \<Rightarrow> time option \<Rightarrow> order_status \<Rightarrow> db \<Rightarrow> int list" where
  "times_to from to st s =
     List.map_filter (\<lambda>h. map_option (\<lambda>x. h_at h - o_created x) (find_order (h_order h) s)) (reached from to st s)"

definition assigned_count :: "time option \<Rightarrow> time option \<Rightarrow> db \<Rightarrow> nat" where
  "assigned_count from to s = length (remdups (map h_order (reached from to ASSIGNED s)))"

definition count_verification :: "verification_status \<Rightarrow> db \<Rightarrow> nat" where
  "count_verification v s = count_rows (\<lambda>m. m_verification m = v) (masters s)"

definition count_referrals :: "referral_status \<Rightarrow> db \<Rightarrow> nat" where
  "count_referrals v s = count_rows (\<lambda>r. rf_status r = v) (referrals s)"

definition admin_overview :: "time option \<Rightarrow> time option \<Rightarrow> db \<Rightarrow> overview" where
  "admin_overview from to s =
     (let inside = (\<lambda>x. in_range from to (o_created x));
          made = filter inside (orders s);
          expired = count_rows (\<lambda>x. o_status x = EXPIRED) made;
          assigned = assigned_count from to s;
          denominator = assigned + expired;
          premium = length (subscriptions s)
      in \<lparr>ov_created = length made,
          ov_completed = count_rows (\<lambda>x. o_status x = CLOSED) made,
          ov_cancelled = count_rows (\<lambda>x. o_status x = CANCELLED_BY_CUSTOMER \<or> o_status x = CANCELLED_BY_MASTER) made,
          ov_expired = expired,
          ov_active_masters = length (remdups (List.map_filter o_master made)),
          ov_active_customers = length (remdups (map o_customer made)),
          ov_online = count_rows m_online (masters s),
          ov_revenue = sum_rows
            (\<lambda>p. p_status p = P_SUCCEEDED \<and>
                 (if from = None \<and> to = None then True
                  else case p_succeeded_at p of None \<Rightarrow> False | Some t \<Rightarrow> in_range from to t))
            p_amount (payments s),
          ov_response_seconds = mean_seconds (response_times from to s),
          ov_completion_seconds = mean_seconds (times_to from to COMPLETED s),
          ov_assignment_seconds = mean_seconds (times_to from to ASSIGNED s),
          ov_match_rate = (if denominator > 0 then Some (fl64 (of_nat assigned / of_nat denominator)) else None),
          ov_satisfaction = average (map r_rating (filter (\<lambda>r. in_range from to (r_at r)) (reviews s))),
          ov_unverified = count_verification V_UNVERIFIED s,
          ov_pending = count_verification V_PENDING s,
          ov_verified = count_verification V_VERIFIED s,
          ov_rejected = count_verification V_REJECTED s,
          ov_free = int (length (masters s)) - int premium,
          ov_premium = premium,
          ov_trial = count_rows (\<lambda>r. sb_status r = S_TRIAL) (subscriptions s),
          ov_cashback = sum_rows (\<lambda>c. in_range from to (cb_at c)) cb_amount (cashbacks s),
          ov_cashbacks = count_rows (\<lambda>c. in_range from to (cb_at c)) (cashbacks s),
          ov_ref_pending = count_referrals R_PENDING s,
          ov_ref_active = count_referrals R_ACTIVE s,
          ov_ref_rewarded = count_referrals R_REWARDED s\<rparr>)"

lemma match_rate_unit:
  assumes "ov_match_rate (admin_overview from to s) = Some q"
  shows "0 \<le> q \<and> q \<le> 1"
proof -
  let ?a = "assigned_count from to s"
  let ?e = "count_rows (\<lambda>x. o_status x = EXPIRED) (filter (\<lambda>x. in_range from to (o_created x)) (orders s))"
  have q: "q = fl64 (of_nat ?a / of_nat (?a + ?e))" "0 < ?a + ?e"
    using assms by (auto simp: admin_overview_def Let_def split: if_splits)
  have "(of_nat ?a / of_nat (?a + ?e) :: rat) \<le> of_int 1" using q(2) by (simp add: divide_le_eq)
  moreover have "0 \<le> (of_nat ?a / of_nat (?a + ?e) :: rat)" by simp
  ultimately show ?thesis
    unfolding q(1) using double.fl_le_int [of "of_nat ?a / of_nat (?a + ?e)" 1] double.fl_nonneg by simp
qed

section \<open>Live positions\<close>

record gateway_ctx =
  gc_read :: "string \<Rightarrow> claims option"

definition location_tracking_statuses :: "order_status list" where
  "location_tracking_statuses = [ASSIGNED, EN_ROUTE, IN_PROGRESS]"

text \<open>A connection without a token that verifies is closed; otherwise it joins the room of its user.\<close>

definition handle_connection :: "gateway_ctx \<Rightarrow> string option \<Rightarrow> id option" where
  "handle_connection ctx token =
     (case token of
        None \<Rightarrow> None
      | Some t \<Rightarrow> if t = [] then None else map_option cl_id (gc_read ctx t))"

definition location_valid :: "rat \<Rightarrow> rat \<Rightarrow> bool" where
  "location_valid lat lng = (- 90 \<le> lat \<and> lat \<le> 90 \<and> - 180 \<le> lng \<and> lng \<le> 180)"

definition tracked_order :: "id \<Rightarrow> db \<Rightarrow> order_row option" where
  "tracked_order u s =
     find_row (\<lambda>x. o_status x \<in> set location_tracking_statuses \<and> (o_customer x = u \<or> o_master x = Some u)) (orders s)"

definition handle_location_update :: "id option \<Rightarrow> rat \<Rightarrow> rat \<Rightarrow> db \<Rightarrow> db" where
  "handle_location_update user lat lng s =
     (if \<not> location_valid lat lng then s
      else case user of
        None \<Rightarrow> s
      | Some u \<Rightarrow>
          (case tracked_order u s of
             None \<Rightarrow> s
           | Some x \<Rightarrow>
               (case (if o_customer x = u then o_master x else Some (o_customer x)) of
                  None \<Rightarrow> s
                | Some other \<Rightarrow> emit_to_user other (Ev_Location (o_id x) lat lng) s)))"

lemma location_cases:
  assumes "handle_location_update user lat lng s \<noteq> s"
  obtains u x other where "user = Some u" "x \<in> set (orders s)" "o_status x \<in> set location_tracking_statuses"
    "o_customer x = u \<and> o_master x = Some other \<or> o_customer x = other \<and> o_master x = Some u"
    "location_valid lat lng"
    "handle_location_update user lat lng s = s\<lparr>emitted := emitted s @ [(other, Ev_Location (o_id x) lat lng)]\<rparr>"
proof -
  obtain u x where u: "user = Some u" "tracked_order u s = Some x" "location_valid lat lng"
    using assms by (auto simp: handle_location_update_def split: if_splits option.splits)
  have x: "x \<in> set (orders s)" "o_status x \<in> set location_tracking_statuses" "o_customer x = u \<or> o_master x = Some u"
    using u(2) find_row_Some unfolding tracked_order_def by fastforce+
  show thesis
  proof (cases "o_customer x = u")
    case True
    then obtain m where "o_master x = Some m"
      using assms u by (cases "o_master x") (auto simp: handle_location_update_def)
    then show thesis using that [of u x m] u x True by (simp add: handle_location_update_def emit_to_user_def)
  next
    case False
    then show thesis using that [of u x "o_customer x"] u x by (simp add: handle_location_update_def emit_to_user_def)
  qed
qed

end
