(* ===== verification/Account_Properties.thy ===== *)
theory Account_Properties
  imports Example AuthSystem Analytics
begin

text \<open>
  The properties of accounts: who gets a session and for how long, how often a code can be guessed,
  what a phone number is, the address book and the live positions.  The witnesses register one
  customer on an empty database and confirm his phone; hashing is the identity there.
\<close>

section \<open>A first account\<close>

definition demo_phone :: string where
  "demo_phone = ''+998901234567''"

definition demo_auth :: "time \<Rightarrow> auth_ctx" where
  "demo_auth now = \<lparr>ax_env = demo_env, ax_now = now, ax_redis_up = True, ax_hash = (\<lambda>x. x),
     ax_verify = (\<lambda>h x. h = x), ax_code = 123456, ax_sms_ok = True, ax_random8 = (\<lambda>n. replicate 8 (of_nat n)),
     ax_refresh = ''refresh'', ax_sha = (\<lambda>x. x), ax_sign = (\<lambda>c n. ''signed'')\<rparr>"

definition demo_input :: register_input where
  "demo_input = \<lparr>ri_phone = demo_phone, ri_password = ''password'', ri_role = CUSTOMER, ri_locale = UZ,
     ri_referred_by = None\<rparr>"

definition demo_account :: "user_status \<Rightarrow> user_row" where
  "demo_account st = \<lparr>u_id = 100, u_phone = demo_phone, u_password = ''password'', u_role = CUSTOMER,
     u_status = st, u_referral_code = referral_code_of (replicate 8 0), u_locale = UZ, u_created = 1000\<rparr>"

definition demo_otp :: "time option \<Rightarrow> otp_row" where
  "demo_otp used = \<lparr>otp_id = 101, otp_phone = demo_phone, otp_hash = code_text 123456, otp_purpose = SIGNUP,
     otp_attempts = 0, otp_expires = 181000, otp_used = used\<rparr>"

definition demo_session :: session_row where
  "demo_session = \<lparr>s_id = 102, s_user = 100, s_hash = ''refresh'', s_expires = 2592002000, s_revoked = None\<rparr>"

lemma demo_auth_simps [simp]:
  "ax_env (demo_auth now) = demo_env" "ax_now (demo_auth now) = now" "ax_redis_up (demo_auth now)"
  "ax_hash (demo_auth now) x = x" "ax_verify (demo_auth now) h x = (h = x)" "ax_code (demo_auth now) = 123456"
  "ax_sms_ok (demo_auth now)" "ax_sha (demo_auth now) x = x" "ax_refresh (demo_auth now) = ''refresh''"
  "ax_random8 (demo_auth now) n = replicate 8 (of_nat n)"
  by (simp_all add: demo_auth_def)

lemma demo_env_simps [simp]:
  "OTP_TTL_SECONDS demo_env = 180" "OTP_RESEND_COOLDOWN_SECONDS demo_env = 45" "OTP_MAX_ATTEMPTS demo_env = 5"
  "OTP_DAILY_CAP_PER_PHONE demo_env = 10" "LOGIN_MAX_ATTEMPTS demo_env = 10" "JWT_REFRESH_TTL_DAYS demo_env = 30"
  "LOGIN_LOCKOUT_SECONDS demo_env = 900"
  by (simp_all add: demo_env_def env_default_def)

lemma demo_account_simps [simp]:
  "u_id (demo_account st) = 100" "u_phone (demo_account st) = demo_phone" "u_status (demo_account st) = st"
  "u_password (demo_account st) = ''password''" "u_role (demo_account st) = CUSTOMER"
  by (simp_all add: demo_account_def)

lemma demo_otp_simps [simp]:
  "otp_id (demo_otp u) = 101" "otp_phone (demo_otp u) = demo_phone" "otp_purpose (demo_otp u) = SIGNUP"
  "otp_hash (demo_otp u) = code_text 123456" "otp_attempts (demo_otp u) = 0" "otp_expires (demo_otp u) = 181000"
  "otp_used (demo_otp u) = u"
  by (simp_all add: demo_otp_def)

lemma demo_registered:
  "\<exists>c t. register (demo_auth 1000) demo_input empty_db = (Inr c, t) \<and> users t = [demo_account U_PENDING]
     \<and> otps t = [demo_otp None] \<and> sessions t = [] \<and> next_id t = 102 \<and> masters t = []
     \<and> issue_code (demo_auth 1000) demo_phone SIGNUP (snd (create_account (demo_auth 1000) demo_input empty_db)) = (Inr 45, t)"
  by (simp add: register_def user_by_phone_def empty_db_def demo_input_def create_account_def Let_def
      unique_referral_code_def code_free_def ensure_profile_def find_customer_def record_signup_def
      challenge_for_def issue_code_def enforce_rate_limits_def redis_set_nx_def redis_incr_def live_entry_def
      put_entry_def delete_rows_def demo_account_def demo_otp_def ok_def)

lemma demo_verified:
  "\<exists>t. auth_step\<^sup>*\<^sup>* empty_db t \<and> users t = [demo_account U_ACTIVE] \<and> sessions t = [demo_session] \<and> next_id t = 103"
proof -
  obtain c s where s: "register (demo_auth 1000) demo_input empty_db = (Inr c, s)" "users s = [demo_account U_PENDING]"
    "otps s = [demo_otp None]" "sessions s = []" "next_id s = 102" "masters s = []"
    using demo_registered by blast
  have "\<exists>x t. verify_otp (demo_auth 2000) demo_phone (code_text 123456) SIGNUP s = (Inr x, t)
      \<and> users t = [demo_account U_ACTIVE] \<and> sessions t = [demo_session] \<and> next_id t = 103"
    using s(2-6)
    by (simp add: verify_otp_def verify_code_def find_code_def find_latest_def unused_code_def otp_attempt_def
        user_by_phone_def blocked_def activate_def activate_on_verify_def log_in_def issue_tokens_def Let_def
        claims_of_def demo_session_def demo_account_def ok_def)
  then obtain x t where t: "verify_otp (demo_auth 2000) demo_phone (code_text 123456) SIGNUP s = (Inr x, t)"
    "users t = [demo_account U_ACTIVE]" "sessions t = [demo_session]" "next_id t = 103" by blast
  have "auth_step empty_db s" by (rule auth_step.registered [OF s(1)])
  moreover have "auth_step s t" by (rule auth_step.verified [OF t(1)])
  ultimately show ?thesis using t(2-4) by (meson converse_rtranclp_into_rtranclp rtranclp.rtrancl_refl)
qed

lemma demo_no_accounts: "no_accounts empty_db"
  by (simp add: no_accounts_def empty_db_def)

section \<open>Sessions\<close>



text \<open>C11: a refresh token is worth one refresh: after it was consumed, no later refresh with it succeeds,
  whatever happened in between, and it changes nothing.\<close>

theorem refresh_token_used_once:
  assumes "auth_step\<^sup>*\<^sup>* s0 s" "no_accounts s0" "consume_session ctx raw s = (Inr x, t)" "auth_step\<^sup>*\<^sup>* t u"
    "ax_sha ctx' = ax_sha ctx"
  shows "refresh ctx' raw u = raise Unauthorized u"
  using consumed_forever [OF auth_steps_inv [OF assms(1) no_accounts_inv [OF assms(2)]] assms(3-5)]
  by (simp add: refresh_def)

theorem refresh_token_used_once_witness:
  "\<exists>s x t. consume_session (demo_auth 3000) ''refresh'' s = (Inr x, t) \<and> refresh (demo_auth 4000) ''refresh'' t = raise Unauthorized t"
proof -
  obtain s where s: "auth_step\<^sup>*\<^sup>* empty_db s" "sessions s = [demo_session]" using demo_verified by blast
  have "\<exists>x t. consume_session (demo_auth 3000) ''refresh'' s = (Inr x, t)"
    using s(2) by (simp add: consume_session_def consume_locked_def live_session_def demo_session_def ok_def)
  then obtain x t where t: "consume_session (demo_auth 3000) ''refresh'' s = (Inr x, t)" by blast
  have "ax_sha (demo_auth 4000) = ax_sha (demo_auth 3000)" by (simp add: demo_auth_def)
  from refresh_token_used_once [OF s(1) demo_no_accounts t _ this] show ?thesis using t by blast
qed

section \<open>Login\<close>

text \<open>C30: a login hands out tokens exactly when the phone has not reached the limit of failed attempts
  (while the counters can be read), the password is right, and the account is active; the counters
  of the store decide nothing else.\<close>

theorem login_grants_iff:
  "(\<exists>u tokens t. login ctx phone password s = (Inr (Logged_In u tokens), t)) \<longleftrightarrow>
   \<not> (ax_redis_up ctx \<and> LOGIN_MAX_ATTEMPTS (ax_env ctx) \<le> redis_get (ax_now ctx) (Login_Fail phone) s)
   \<and> (\<exists>r. user_by_phone phone s = Some r \<and> ax_verify ctx (u_password r) password \<and> u_status r = U_ACTIVE)"
proof (cases "ax_redis_up ctx \<and> LOGIN_MAX_ATTEMPTS (ax_env ctx) \<le> redis_get (ax_now ctx) (Login_Fail phone) s")
  case False
  then have e: "enforce_login_limit ctx phone s = ok () s" by (simp add: enforce_login_limit_def)
  show ?thesis
  proof (cases "user_by_phone phone s")
    case None
    then show ?thesis using False e by (simp add: login_def credentials_ok_def)
  next
    case (Some r)
    have nb: "and_then (challenge_for phone x) (\<lambda>c s2. ok (Needs_Verification c) s2) \<noteq> (Inr (Logged_In u tok), t)" for x u tok t
      by (auto simp: and_then_eq)
    show ?thesis
      using False e Some nb
      by (cases "u_status r") (auto simp: login_def credentials_ok_def blocked_def Let_def log_in_def split: prod.splits)
  qed
qed (auto simp: login_def enforce_login_limit_def)

section \<open>One-time codes\<close>

text \<open>C12: once a code was issued, at most \<open>OTP_MAX_ATTEMPTS\<close> guesses made one after the other are
  judged: after that many, right or wrong, every further guess is refused, the right code included,
  until a new code is issued.\<close>

theorem otp_guesses_are_bounded:
  assumes "issue_code ctx phone purpose s = (Inr n, t)"
    "\<forall>(c, code) \<in> set gs. ax_now c \<le> ax_now ctx' \<and> OTP_MAX_ATTEMPTS (ax_env c) = OTP_MAX_ATTEMPTS (ax_env ctx')"
    "OTP_MAX_ATTEMPTS (ax_env ctx') \<le> length gs"
  shows "verify_code ctx' phone code purpose (guess_all gs phone purpose t) = raise BadRequest (guess_all gs phone purpose t)"
proof -
  have "attempts_used phone purpose (ax_now ctx') (min (0 + length gs) (OTP_MAX_ATTEMPTS (ax_env ctx'))) (guess_all gs phone purpose t)"
    using guess_all_used [OF issue_code_single [OF assms(1)] assms(2)] by blast
  then show ?thesis using assms(3) by (intro exhausted_code_fails [of _ _ _ "OTP_MAX_ATTEMPTS (ax_env ctx')"]) simp_all
qed

theorem otp_guesses_are_bounded_witness:
  "\<exists>s t. issue_code (demo_auth 1000) demo_phone SIGNUP s = (Inr 45, t)
     \<and> succeeded (verify_code (demo_auth 2000) demo_phone (code_text 123456) SIGNUP t)
     \<and> (let u = guess_all (replicate 5 (demo_auth 1500, ''000000'')) demo_phone SIGNUP t
        in verify_code (demo_auth 2000) demo_phone (code_text 123456) SIGNUP u = raise BadRequest u)"
proof -
  obtain t where t: "otps t = [demo_otp None]"
    "issue_code (demo_auth 1000) demo_phone SIGNUP (snd (create_account (demo_auth 1000) demo_input empty_db)) = (Inr 45, t)"
    using demo_registered by blast
  have "succeeded (verify_code (demo_auth 2000) demo_phone (code_text 123456) SIGNUP t)"
    using t(1) by (simp add: verify_code_def find_code_def find_latest_def unused_code_def otp_attempt_def)
  then show ?thesis
    using t(2) otp_guesses_are_bounded [OF t(2), of "replicate 5 (demo_auth 1500, ''000000'')" "demo_auth 2000" "code_text 123456"]
    unfolding Let_def by (intro exI [of _ "snd (create_account (demo_auth 1000) demo_input empty_db)"] exI [of _ t] conjI) simp_all
qed

text \<open>Requests that run at the same time are judged on the attempts they read: a caller who sends all the
  codes at once is sure to hit the right one.\<close>

lemma simultaneous_guesses_escape_the_bound:
  assumes "otp_attempts c < OTP_MAX_ATTEMPTS (ax_env ctx)" "code \<in> set codes" "ax_verify ctx (otp_hash c) code"
  shows "Inr () \<in> set (fst (attempts_together ctx c codes s))"
  using assms(2,3) by (simp add: attempts_together_results [OF assms(1)] image_iff) blast

text \<open>At the daily cap \<open>login\<close> of an unconfirmed account still answers that a code is on its way; none
  exists and none was sent.\<close>

lemma challenge_at_cap_sends_nothing:
  assumes "ax_redis_up ctx" "0 < OTP_RESEND_COOLDOWN_SECONDS (ax_env ctx)"
    "live_entry (ax_now ctx) (Otp_Cooldown purpose phone) s = None"
    "live_entry (ax_now ctx) (Otp_Daily phone) s = Some e" "OTP_DAILY_CAP_PER_PHONE (ax_env ctx) \<le> re_count e"
  shows "\<exists>t. ensure_challenge ctx phone purpose s = (Inr (OTP_RESEND_COOLDOWN_SECONDS (ax_env ctx)), t)
    \<and> otps t = otps s \<and> sms_sent t = sms_sent s"
proof -
  obtain t where t: "issue_code ctx phone purpose s = (Inl BadRequest, t)" "otps t = otps s" "sms_sent t = sms_sent s"
    using issue_at_cap [OF assms] by blast
  have "redis_ttl (ax_now ctx) (Otp_Cooldown purpose phone) s = - 2" using assms(3) by (simp add: redis_ttl_def)
  then show ?thesis using t by (simp add: ensure_challenge_def Let_def ok_def)
qed

text \<open>The answer to a code request depends on whether the phone has an account.\<close>

lemma code_request_reveals_account:
  "user_by_phone phone s = None \<Longrightarrow> request_otp ctx phone purpose s = ok \<lparr>oc_phone = phone, oc_resend_in = 45\<rparr> s"
  "user_by_phone phone s = Some r \<Longrightarrow> ax_redis_up ctx \<Longrightarrow> 0 < OTP_RESEND_COOLDOWN_SECONDS (ax_env ctx) \<Longrightarrow>
   live_entry (ax_now ctx) (Otp_Cooldown purpose phone) s = Some e \<Longrightarrow> request_otp ctx phone purpose s = raise BadRequest s"
  by (simp_all add: request_otp_def challenge_for_def issue_code_def enforce_rate_limits_def redis_set_nx_def ok_def raise_def)

section \<open>Accounts\<close>

text \<open>Whoever registers a phone that is not confirmed yet sets its password, even when the call fails.\<close>

lemma registering_again_replaces_password:
  assumes "user_by_phone (ri_phone d) s = Some r" "u_status r = U_PENDING" "register ctx d s = (res, t)"
  shows "\<exists>q. user_by_phone (ri_phone d) t = Some q \<and> u_id q = u_id r \<and> u_password q = ax_hash ctx (ri_password d)"
proof -
  let ?f = "\<lambda>x. x\<lparr>u_password := ax_hash ctx (ri_password d), u_role := ri_role d, u_locale := ri_locale d\<rparr>"
  obtain c s2 where i: "issue_code ctx (ri_phone d) SIGNUP (reregister ctx d r s) = (c, s2)" by fastforce
  have "t = s2" using assms i challenge_state by (fastforce simp: register_def)
  then have u: "users t = update_rows (\<lambda>x. u_id x = u_id r) ?f (users s)"
    using issue_frame(1) [OF i] by (simp add: reregister_def)
  have "user_by_phone (ri_phone d) t = map_option (\<lambda>x. if u_id x = u_id r then ?f x else x) (user_by_phone (ri_phone d) s)"
    unfolding user_by_phone_def u by (rule find_row_update_rows) simp
  then show ?thesis using assms(1) by simp
qed

text \<open>Suspending and then restoring an account that is not an administrator's leaves it active and
  otherwise as it was (so it also activates an account that was unconfirmed or banned), and
  the trail has two more entries, by the administrators who did it.\<close>

theorem suspend_then_restore:
  assumes "find_user i s = Some r" "u_role r \<noteq> ADMIN" "admin \<noteq> i"
    "suspend_user now i admin reason s = (res, t)" "restore_user now' i admin' t = (res', u)"
  shows "find_user i t = Some (r\<lparr>u_status := U_SUSPENDED\<rparr>) \<and> find_user i u = Some (r\<lparr>u_status := U_ACTIVE\<rparr>)
    \<and> map al_actor (audit_logs u) = map al_actor (audit_logs s) @ [admin, admin']
    \<and> sessions u = sessions s"
proof -
  have f: "find_user i (snd (set_status i P st x)) =
      map_option (\<lambda>r. if u_id r = i \<and> P (u_status r) then r\<lparr>u_status := st\<rparr> else r) (find_user i x)" for P st x
    unfolding find_user_def set_status_def snd_conv db.simps
    by (simp add: find_row_update_rows)
  have id: "u_id r = i" using assms(1) find_row_Some unfolding find_user_def by fastforce
  have audit: "find_user k (record_audit a b c d e f' g x) = find_user k x" for k a b c d e f' g x
    by (simp add: find_user_def)
  have t: "find_user i t = Some (r\<lparr>u_status := U_SUSPENDED\<rparr>)" "map al_actor (audit_logs t) = map al_actor (audit_logs s) @ [admin]"
    "sessions t = sessions s"
    using assms(1-4) f [of "\<lambda>st. st \<noteq> U_SUSPENDED" U_SUSPENDED s] id audit
    by (auto simp: suspend_user_def Let_def dest!: with_details_state split: prod.splits)
      (auto simp: record_audit_def set_status_def)
  then have "find_user i u = Some (r\<lparr>u_status := U_ACTIVE\<rparr>)" "map al_actor (audit_logs u) = map al_actor (audit_logs t) @ [admin']"
    "sessions u = sessions t"
    using assms(5) f [of "\<lambda>st. st = U_SUSPENDED" U_ACTIVE t] id audit
    by (auto simp: restore_user_def Let_def dest!: with_details_state split: prod.splits)
      (auto simp: record_audit_def set_status_def)
  then show ?thesis using t by simp
qed

theorem suspend_then_restore_witness:
  "\<exists>res t res' u. suspend_user 5000 2 9 ''x'' demo_db = (res, t) \<and> restore_user 6000 2 9 t = (res', u)
     \<and> map al_actor (audit_logs u) = [9, 9] \<and> map_option u_status (find_user 2 u) = Some U_ACTIVE"
proof -
  have f: "find_user 2 demo_db = Some (demo_user 2 ''+998900000002'' MASTER)"
    by (simp add: find_user_def demo_db_def demo_user_def)
  obtain res t where t: "suspend_user 5000 2 9 ''x'' demo_db = (res, t)" by fastforce
  obtain res' u where u: "restore_user 6000 2 9 t = (res', u)" by fastforce
  from suspend_then_restore [OF f _ _ t u]
  have "find_user 2 u = Some ((demo_user 2 ''+998900000002'' MASTER)\<lparr>u_status := U_ACTIVE\<rparr>)"
    "map al_actor (audit_logs u) = [9, 9]"
    by (simp_all add: demo_user_def demo_db_def empty_db_def)
  then show ?thesis using t u by (intro exI [of _ res] exI [of _ t] exI [of _ res'] exI [of _ u]) simp
qed

section \<open>Phone numbers\<close>



section \<open>Addresses\<close>

text \<open>Creating, choosing and deleting addresses, also when the call is refused, leaves every user with
  at most one default address, and the list of a user who has one begins with it.\<close>

theorem at_most_one_default_address:
  assumes "one_default s"
    "t = snd (create_address now u d s) \<or> t = snd (set_default_address u i s) \<or> t = snd (delete_address u i s)"
  shows "one_default t \<and> length (filter (\<lambda>a. a_user a = v \<and> a_default a) (addresses t)) \<le> 1
    \<and> (\<forall>a \<in> set (addresses t). a_user a = v \<and> a_default a \<longrightarrow> a_default (hd (list_addresses v t)))"
proof -
  have "one_default t"
    using assms create_address_one_default set_default_one_default delete_address_one_default by (metis prod.collapse)
  then have "count_rows (default_of v) (addresses t) \<le> 1" by (simp add: one_default_def)
  then show ?thesis
    using \<open>one_default t\<close> list_addresses_default [of _ t v] by (simp add: count_rows_def default_of_def [abs_def])
qed

definition demo_address :: "bool \<Rightarrow> address_input" where
  "demo_address b = \<lparr>ad_label = ''Uy'', ad_text = ''Chilonzor'', ad_lat = 41, ad_lng = 69, ad_default = b\<rparr>"

theorem at_most_one_default_address_witness:
  "\<exists>s t. one_default s \<and> t = snd (create_address 2000 1 (demo_address True) s)
     \<and> length (addresses t) = 2 \<and> length (filter (\<lambda>a. a_user a = 1 \<and> a_default a) (addresses t)) \<le> 1"
proof -
  let ?s = "snd (create_address 1000 1 (demo_address True) demo_db)"
  have "one_default demo_db" by (simp add: one_default_def demo_db_def empty_db_def)
  then have s: "one_default ?s" using at_most_one_default_address by blast
  have "length (addresses (snd (create_address 2000 1 (demo_address True) ?s))) = 2"
    by (simp add: create_address_def insert_address_def clear_default_def Let_def demo_address_def demo_db_def empty_db_def)
  then show ?thesis using s at_most_one_default_address [OF s, of _ 2000 1 "demo_address True" 0 1] by blast
qed

text \<open>The transaction that creates an address runs read committed, so two requests can both clear the old
  default before either inserts; that leaves two.\<close>

lemma simultaneous_defaults_leave_two:
  assumes "ad_default d" "ad_default e"
  shows "count_rows (default_of u) (addresses (snd (insert_address now' u e
      (snd (insert_address now u d (clear_default u (clear_default u s))))))) = 2"
  using assms by (simp add: insert_address_def Let_def clear_default_count default_of_def)

section \<open>Live positions\<close>

text \<open>A position that is passed on comes from the customer or the master of an order on its way, lies on
  the globe, is passed to the other of the two and to nobody else, and changes nothing that is stored.\<close>

theorem position_goes_to_the_other_party:
  assumes "handle_location_update user lat lng s \<noteq> s"
  shows "\<exists>u x other. user = Some u \<and> x \<in> set (orders s) \<and> o_status x \<in> {ASSIGNED, EN_ROUTE, IN_PROGRESS}
    \<and> (o_customer x = u \<and> o_master x = Some other \<or> o_customer x = other \<and> o_master x = Some u)
    \<and> -90 \<le> lat \<and> lat \<le> 90 \<and> -180 \<le> lng \<and> lng \<le> 180
    \<and> handle_location_update user lat lng s = s\<lparr>emitted := emitted s @ [(other, Ev_Location (o_id x) lat lng)]\<rparr>"
  using assms
proof (rule location_cases)
  fix u x other
  assume "user = Some u" "x \<in> set (orders s)" "o_status x \<in> set location_tracking_statuses"
    "o_customer x = u \<and> o_master x = Some other \<or> o_customer x = other \<and> o_master x = Some u"
    "location_valid lat lng"
    "handle_location_update user lat lng s = s\<lparr>emitted := emitted s @ [(other, Ev_Location (o_id x) lat lng)]\<rparr>"
  then show ?thesis
    by (intro exI [of _ u] exI [of _ x] exI [of _ other]) (simp add: location_tracking_statuses_def location_valid_def)
qed

definition demo_travelling :: db where
  "demo_travelling = demo_db\<lparr>orders := [demo_draft\<lparr>o_status := EN_ROUTE, o_master := Some 2\<rparr>]\<rparr>"

theorem position_goes_to_the_other_party_witness:
  "\<exists>x other. x \<in> set (orders demo_travelling) \<and> (o_customer x = 2 \<and> o_master x = Some other \<or> o_customer x = other \<and> o_master x = Some 2)
     \<and> handle_location_update (Some 2) 41 69 demo_travelling =
         demo_travelling\<lparr>emitted := emitted demo_travelling @ [(other, Ev_Location (o_id x) 41 69)]\<rparr>"
proof -
  have "handle_location_update (Some 2) 41 69 demo_travelling \<noteq> demo_travelling"
    by (simp add: handle_location_update_def location_valid_def tracked_order_def location_tracking_statuses_def
        demo_travelling_def emit_to_user_def)
      (simp add: demo_db_def empty_db_def)
  from position_goes_to_the_other_party [OF this] show ?thesis by (elim exE conjE) (intro exI conjI; simp)
qed

end
