(* ===== verification/Views.thy ===== *)
theory Views
  imports Admin
begin

text \<open>
  The answers that are projections of one row: offers, notifications, reviews, claims, verification
  requests and penalties.  Titles and bodies of notifications are display texts and are left out.
\<close>

record offer_dto =
  fd_dispatch :: id
  fd_order :: id
  fd_no :: nat
  fd_category :: "string option"
  fd_description :: string
  fd_tier :: service_tier
  fd_complexity :: "complexity option"
  fd_address :: "string option"
  fd_distance :: int
  fd_price_min :: "int option"
  fd_price_max :: "int option"
  fd_fee :: int
  fd_offered_at :: time
  fd_expires :: time

definition to_offer_dto :: "id \<Rightarrow> db \<Rightarrow> offer_dto option" where
  "to_offer_dto i s =
     (case find_dispatch i s of
        None \<Rightarrow> None
      | Some d \<Rightarrow>
          map_option
            (\<lambda>x. \<lparr>fd_dispatch = d_id d, fd_order = o_id x, fd_no = o_no x,
                  fd_category = (case o_category x of None \<Rightarrow> None
                                 | Some c \<Rightarrow> map_option c_name_uz (find_row (\<lambda>r. c_id r = c) (categories s))),
                  fd_description = o_description x, fd_tier = o_tier x, fd_complexity = o_complexity x,
                  fd_address = o_address x, fd_distance = d_distance d, fd_price_min = o_price_min x,
                  fd_price_max = o_price_max x, fd_fee = o_fee x, fd_offered_at = d_offered_at d,
                  fd_expires = d_expires d\<rparr>)
            (find_order (d_order d) s))"

definition current_offer_dto :: "time \<Rightarrow> id \<Rightarrow> db \<Rightarrow> offer_dto option" where
  "current_offer_dto now m s = Option.bind (get_current_offer now m s) (\<lambda>d. to_offer_dto (d_id d) s)"

record notification_dto =
  nd_id :: id
  nd_type :: notification_type
  nd_data :: "(string \<times> json) list"
  nd_read :: "time option"
  nd_created :: time

definition notification_to_dto :: "notification_row \<Rightarrow> notification_dto" where
  "notification_to_dto n = \<lparr>nd_id = n_id n, nd_type = n_type n, nd_data = n_data n, nd_read = n_read n,
     nd_created = n_at n\<rparr>"

record review_dto =
  vw_id :: id
  vw_order :: id
  vw_master :: id
  vw_rating :: int
  vw_comment :: "string option"
  vw_created :: time

definition review_to_dto :: "review_row \<Rightarrow> review_dto" where
  "review_to_dto r = \<lparr>vw_id = r_id r, vw_order = r_order r, vw_master = r_master r, vw_rating = r_rating r,
     vw_comment = r_comment r, vw_created = r_at r\<rparr>"

record claim_dto =
  ld_id :: id
  ld_order :: id
  ld_reason :: string
  ld_status :: claim_status
  ld_note :: "string option"
  ld_decided :: "time option"
  ld_created :: time

definition claim_to_dto :: "claim_row \<Rightarrow> claim_dto" where
  "claim_to_dto c = \<lparr>ld_id = g_id c, ld_order = g_order c, ld_reason = g_reason c, ld_status = g_status c,
     ld_note = g_note c, ld_decided = g_decided_at c, ld_created = g_at c\<rparr>"

record verification_dto =
  ed_id :: id
  ed_status :: verification_status
  ed_provider :: verification_provider
  ed_note :: "string option"
  ed_decided :: "time option"
  ed_created :: time

definition verification_to_dto :: "verification_row \<Rightarrow> verification_dto" where
  "verification_to_dto v = \<lparr>ed_id = v_id v, ed_status = v_status v, ed_provider = v_provider v, ed_note = v_note v,
     ed_decided = v_decided_at v, ed_created = v_created v\<rparr>"

record penalty_dto =
  qd_id :: id
  qd_event :: penalty_event
  qd_severity :: penalty_severity
  qd_points :: int
  qd_order :: "id option"
  qd_note :: "string option"
  qd_created :: time

definition penalty_to_dto :: "penalty_row \<Rightarrow> penalty_dto" where
  "penalty_to_dto p = \<lparr>qd_id = pn_id p, qd_event = pn_event p, qd_severity = pn_severity p, qd_points = pn_points p,
     qd_order = pn_order p, qd_note = pn_note p, qd_created = pn_at p\<rparr>"

text \<open>An offer that is shown is the caller's own, open and unexpired, and shows the order it is for.\<close>

lemma current_offer_own:
  assumes "current_offer_dto now m s = Some f"
  obtains d x where "d \<in> set (dispatches s)" "d_master d = m" "d_status d = D_OFFERED" "now < d_expires d"
    "x \<in> set (orders s)" "fd_order f = o_id x"
proof -
  obtain d where d: "get_current_offer now m s = Some d" "to_offer_dto (d_id d) s = Some f"
    using assms by (auto simp: current_offer_dto_def bind_eq_Some_conv)
  then have "d \<in> set (dispatches s)" "d_master d = m" "d_status d = D_OFFERED" "now < d_expires d"
    unfolding get_current_offer_def by (auto dest!: find_row_Some)
  moreover obtain e x where "find_dispatch (d_id d) s = Some e" "find_order (d_order e) s = Some x" "fd_order f = o_id x"
    using d(2) by (auto simp: to_offer_dto_def split: option.splits)
  ultimately show thesis using that find_order_id by blast
qed

end
