(* ===== verification/AdminDesk.thy ===== *)
theory AdminDesk
  imports Views
begin

text \<open>
  The decision endpoints of the administrators, \<open>modules/admin/admin.controller.ts\<close> and
  \<open>admin-payments.controller.ts\<close>: the row is read, the service of the component decides, and the
  decision goes into the audit trail with the status before and after.  The lists read the tables of
  the other components directly.
\<close>

definition verification_status_text :: "verification_status \<Rightarrow> string" where
  "verification_status_text v = (case v of
     V_UNVERIFIED \<Rightarrow> ''UNVERIFIED'' | V_PENDING \<Rightarrow> ''PENDING'' | V_VERIFIED \<Rightarrow> ''VERIFIED'' | V_REJECTED \<Rightarrow> ''REJECTED'')"

definition claim_status_text :: "claim_status \<Rightarrow> string" where
  "claim_status_text v = (case v of
     C_OPEN \<Rightarrow> ''OPEN'' | C_UNDER_REVIEW \<Rightarrow> ''UNDER_REVIEW'' | C_APPROVED \<Rightarrow> ''APPROVED'' | C_REJECTED \<Rightarrow> ''REJECTED'')"

definition payment_status_text :: "payment_status \<Rightarrow> string" where
  "payment_status_text v = (case v of
     P_PENDING \<Rightarrow> ''PENDING'' | P_PROCESSING \<Rightarrow> ''PROCESSING'' | P_SUCCEEDED \<Rightarrow> ''SUCCEEDED''
   | P_FAILED \<Rightarrow> ''FAILED'' | P_CANCELLED \<Rightarrow> ''CANCELLED'' | P_REFUNDED \<Rightarrow> ''REFUNDED'')"

definition status_json :: "string \<Rightarrow> json" where
  "status_json t = JObj [(''status'', JStr t)]"

section \<open>Verification requests\<close>

record certificate_dto =
  ce_id :: id
  ce_caption :: "string option"

record admin_verification =
  av_id :: id
  av_master :: id
  av_phone :: string
  av_status :: verification_status
  av_note :: "string option"
  av_certificates :: "certificate_dto list"
  av_created :: time

definition admin_verification_of :: "db \<Rightarrow> verification_row \<Rightarrow> admin_verification" where
  "admin_verification_of s v =
     \<lparr>av_id = v_id v, av_master = v_master v, av_phone = phone_of (v_master v) s, av_status = v_status v,
      av_note = v_note v,
      av_certificates = map (\<lambda>m. \<lparr>ce_id = mm_id m, ce_caption = mm_caption m\<rparr>)
        (filter (\<lambda>m. mm_master m = v_master v \<and> mm_kind m = CERTIFICATION) (master_media s)),
      av_created = v_created v\<rparr>"

definition list_verifications :: "verification_status option \<Rightarrow> db \<Rightarrow> admin_verification list" where
  "list_verifications st s =
     map (admin_verification_of s)
       (take 50 (oldest_first v_created
         (filter (\<lambda>v. v_status v = (case st of None \<Rightarrow> V_PENDING | Some x \<Rightarrow> x)) (verifications s))))"

definition admin_decide_verification ::
  "time \<Rightarrow> id \<Rightarrow> id \<Rightarrow> bool \<Rightarrow> string option \<Rightarrow> db \<Rightarrow> (verification_dto, db) outcome" where
  "admin_decide_verification now admin i approve note_text s =
     (let before = find_row (\<lambda>v. v_id v = i) (verifications s)
      in and_then (decide_verification i \<lparr>vd_approve = approve, vd_by = admin, vd_at = now, vd_note = note_text\<rparr> s)
           (\<lambda>v s1. ok (verification_to_dto v)
              (record_audit now admin (if approve then ''VERIFICATION_APPROVE'' else ''VERIFICATION_REJECT'')
                 ''Verification'' (Some (id_text i))
                 (map_option (\<lambda>b. status_json (verification_status_text (v_status b))) before)
                 (Some (status_json (verification_status_text (v_status v)))) s1)))"

section \<open>Guarantee claims\<close>

record admin_claim =
  ac_id :: id
  ac_order :: id
  ac_phone :: string
  ac_reason :: string
  ac_status :: claim_status
  ac_created :: time

definition admin_claim_of :: "db \<Rightarrow> claim_row \<Rightarrow> admin_claim" where
  "admin_claim_of s c = \<lparr>ac_id = g_id c, ac_order = g_order c, ac_phone = phone_of (g_customer c) s,
     ac_reason = g_reason c, ac_status = g_status c, ac_created = g_at c\<rparr>"

definition list_claims :: "claim_status option \<Rightarrow> db \<Rightarrow> admin_claim list" where
  "list_claims st s =
     map (admin_claim_of s)
       (take 50 (oldest_first g_at
         (filter (\<lambda>c. g_status c = (case st of None \<Rightarrow> C_OPEN | Some x \<Rightarrow> x)) (claims s))))"

definition admin_decide_claim ::
  "time \<Rightarrow> id \<Rightarrow> id \<Rightarrow> bool \<Rightarrow> string option \<Rightarrow> db \<Rightarrow> (claim_dto, db) outcome" where
  "admin_decide_claim now admin i approve note_text s =
     (let before = find_row (\<lambda>c. g_id c = i) (claims s)
      in and_then (decide_claim i \<lparr>de_approve = approve, de_by = admin, de_at = now, de_note = note_text\<rparr> s)
           (\<lambda>c s1. ok (claim_to_dto c)
              (record_audit now admin (if approve then ''GUARANTEE_CLAIM_APPROVE'' else ''GUARANTEE_CLAIM_REJECT'')
                 ''GuaranteeClaim'' (Some (id_text i))
                 (map_option (\<lambda>b. status_json (claim_status_text (g_status b))) before)
                 (Some (status_json (claim_status_text (g_status c)))) s1)))"

section \<open>Payments\<close>

definition admin_resolve_payment ::
  "time \<Rightarrow> id \<Rightarrow> id \<Rightarrow> bool \<Rightarrow> string \<Rightarrow> db \<Rightarrow> (payment_dto, db) outcome" where
  "admin_resolve_payment now admin i refund note_text s =
     (let before = find_payment i s
      in and_then (resolve now i admin refund note_text s)
           (\<lambda>p s1. ok p
              (record_audit now admin (if refund then ''PAYMENT_REFUND'' else ''PAYMENT_RESOLVE'') ''Payment'' (Some (id_text i))
                 (map_option (\<lambda>b. status_json (payment_status_text (p_status b))) before)
                 (Some (status_json (payment_status_text (pd_status p)))) s1)))"

section \<open>Every decision leaves a trace\<close>

text \<open>\<open>audited s t admin e i\<close>: exactly one entry was added, by \<open>admin\<close>, about the row \<open>i\<close> of \<open>e\<close>.\<close>

definition audited :: "db \<Rightarrow> db \<Rightarrow> id \<Rightarrow> string \<Rightarrow> id \<Rightarrow> bool" where
  "audited s t admin e i =
     (\<exists>a. audit_logs t = audit_logs s @ [a] \<and> al_actor a = admin \<and> al_entity a = e \<and> al_entity_id a = Some (id_text i))"

lemma audited_record:
  "audit_logs u = audit_logs s \<Longrightarrow> audited s (record_audit now admin act e (Some (id_text i)) b a u) admin e i"
  by (simp add: audited_def record_audit_def)

lemma notify_audit [simp, frame_simps]: "audit_logs (notify n u ty d s) = audit_logs s"
  by (simp add: notify_def create_record_def deliver_def emit_to_user_def Let_def)

lemma decide_verification_audit: "decide_verification i a s = (r, t) \<Longrightarrow> audit_logs t = audit_logs s"
  by (auto simp: decide_verification_def decide_commit_def decide_body_def set_verification_def Let_def
      and_then_eq transaction_def raise_def ok_def split: option.splits sum.splits if_splits prod.splits)

lemma decide_claim_audit: "decide_claim i a s = (r, t) \<Longrightarrow> audit_logs t = audit_logs s"
  by (auto simp: decide_claim_def decide_claim_commit_def Let_def and_then_eq split: option.splits if_splits)

lemma resolve_audit: "resolve now i admin refund nt s = (r, t) \<Longrightarrow> audit_logs t = audit_logs s"
  by (auto simp: resolve_def resolve_commit_def Let_def and_then_eq split: option.splits if_splits)

lemma decisions_audited:
  "admin_decide_verification now admin i approve nt s = (Inr v, t) \<Longrightarrow> audited s t admin ''Verification'' i"
  "admin_decide_claim now admin i approve nt s = (Inr c, t) \<Longrightarrow> audited s t admin ''GuaranteeClaim'' i"
  "admin_resolve_payment now admin i refund note2 s = (Inr p, t) \<Longrightarrow> audited s t admin ''Payment'' i"
  by (auto simp: admin_decide_verification_def admin_decide_claim_def admin_resolve_payment_def Let_def and_then_Inr
      intro!: audited_record dest: decide_verification_audit decide_claim_audit resolve_audit)

lemma failed_decisions_untraced:
  "admin_decide_verification now admin i approve nt s = (Inl e, t) \<Longrightarrow> audit_logs t = audit_logs s"
  "admin_decide_claim now admin i approve nt s = (Inl e, t) \<Longrightarrow> audit_logs t = audit_logs s"
  "admin_resolve_payment now admin i refund note2 s = (Inl e, t) \<Longrightarrow> audit_logs t = audit_logs s"
  by (auto simp: admin_decide_verification_def admin_decide_claim_def admin_resolve_payment_def Let_def and_then_eq
      dest: decide_verification_audit decide_claim_audit resolve_audit)

end
