(* ===== verification/Contracts.thy ===== *)
theory Contracts
  imports Admin "HOL-Library.Monad_Syntax"
begin

text \<open>
  The request schemas of \<open>packages/contracts/src\<close>, as functions from the raw request to the value
  the handler gets, or \<open>None\<close> for a request the pipe refuses.  A raw request has the fields of the
  schema with their JSON types (a number is a rational); a field of the wrong type and the
  unknown fields a schema strips are outside the model.  Ids arrive as texts and are read by
  \<open>fm_uuid\<close>; \<open>fm_url\<close> is the test for a URL.  Dates are instants already.
\<close>

section \<open>Building blocks\<close>

record formats =
  fm_uuid :: "string \<Rightarrow> id option"
  fm_url :: "string \<Rightarrow> bool"

definition guarded :: "bool \<Rightarrow> 'a \<Rightarrow> 'a option" where
  "guarded b x = (if b then Some x else None)"

definition sized :: "nat \<Rightarrow> nat \<Rightarrow> string \<Rightarrow> string option" where
  "sized lo hi x = guarded (lo \<le> length x \<and> length x \<le> hi) x"

definition trimmed :: "nat \<Rightarrow> nat \<Rightarrow> string \<Rightarrow> string option" where
  "trimmed lo hi x = sized lo hi (trim x)"

fun optional :: "('a \<Rightarrow> 'b option) \<Rightarrow> 'a option \<Rightarrow> 'b option option" where
  "optional f None = Some None"
| "optional f (Some x) = map_option Some (f x)"

definition number_in :: "rat \<Rightarrow> rat \<Rightarrow> rat \<Rightarrow> rat option" where
  "number_in lo hi x = guarded (lo \<le> x \<and> x \<le> hi) x"

definition int_in :: "int \<Rightarrow> int \<Rightarrow> rat \<Rightarrow> int option" where
  "int_in lo hi x = guarded (x = of_int \<lfloor>x\<rfloor> \<and> lo \<le> \<lfloor>x\<rfloor> \<and> \<lfloor>x\<rfloor> \<le> hi) \<lfloor>x\<rfloor>"

definition digits_exactly :: "nat \<Rightarrow> string \<Rightarrow> string option" where
  "digits_exactly n x = guarded (length x = n \<and> list_all is_digit x) x"

fun all_parsed :: "('a \<Rightarrow> 'b option) \<Rightarrow> 'a list \<Rightarrow> 'b list option" where
  "all_parsed f [] = Some []"
| "all_parsed f (x # xs) = do { y \<leftarrow> f x; ys \<leftarrow> all_parsed f xs; Some (y # ys) }"

definition at_most :: "nat \<Rightarrow> 'a list \<Rightarrow> 'a list option" where
  "at_most n xs = guarded (length xs \<le> n) xs"

lemma guarded_Some [simp]: "guarded b x = Some y \<longleftrightarrow> b \<and> y = x"
  by (auto simp: guarded_def)

lemma sized_Some [simp]: "sized lo hi x = Some y \<longleftrightarrow> y = x \<and> lo \<le> length x \<and> length x \<le> hi"
  by (auto simp: sized_def)

lemma dropWhile_idem: "dropWhile P (dropWhile P xs) = dropWhile P xs"
  by (induction xs) auto

lemma dropWhile_rev_stable:
  assumes "dropWhile P xs = xs"
  shows "dropWhile P (rev (dropWhile P (rev xs))) = rev (dropWhile P (rev xs))"
proof (cases "rev (dropWhile P (rev xs))")
  case (Cons y ys)
  have "xs = rev (dropWhile P (rev xs)) @ rev (takeWhile P (rev xs))"
    by (metis rev_append rev_rev_ident takeWhile_dropWhile_id)
  then have "xs \<noteq> [] \<and> hd xs = y" using Cons by (metis append_Cons list.sel(1) list.simps(3))
  then have "\<not> P y" using assms by (metis dropWhile.simps(2) dropWhile_eq_self_iff list.collapse)
  then show ?thesis using Cons by simp
next
  case Nil
  then show ?thesis by (simp only: dropWhile.simps)
qed

text \<open>Trimming twice is trimming once.\<close>

lemma trim_trim [simp]: "trim (trim x) = trim x"
proof -
  let ?y = "dropWhile is_space x"
  have "dropWhile is_space (rev (dropWhile is_space (rev ?y))) = rev (dropWhile is_space (rev ?y))"
    by (rule dropWhile_rev_stable) (rule dropWhile_idem)
  then show ?thesis by (simp add: trim_def dropWhile_idem)
qed

lemma trimmed_Some: "trimmed lo hi x = Some y \<longleftrightarrow> y = trim x \<and> lo \<le> length y \<and> length y \<le> hi"
  by (auto simp: trimmed_def)

lemma trimmed_again: "trimmed lo hi x = Some y \<Longrightarrow> trimmed lo hi y = Some y"
  by (auto simp: trimmed_Some)

lemma optional_again: "(\<And>a b. f a = Some b \<Longrightarrow> f b = Some b) \<Longrightarrow> optional f x = Some y \<Longrightarrow> optional f y = Some y"
  by (cases x) auto

lemma number_in_Some [simp]: "number_in lo hi x = Some y \<longleftrightarrow> y = x \<and> lo \<le> x \<and> x \<le> hi"
  by (auto simp: number_in_def)

lemma int_in_Some: "int_in lo hi x = Some n \<longleftrightarrow> x = of_int n \<and> lo \<le> n \<and> n \<le> hi"
  by (auto simp: int_in_def)

lemma all_parsed_again:
  "(\<And>a b. f a = Some b \<Longrightarrow> g b = Some b) \<Longrightarrow> all_parsed f xs = Some ys \<Longrightarrow> all_parsed g ys = Some ys"
  by (induction xs arbitrary: ys) (auto split: bind_splits)

lemma all_parsed_length: "all_parsed f xs = Some ys \<Longrightarrow> length ys = length xs"
  by (induction xs arbitrary: ys) (auto split: bind_splits)

section \<open>Accounts\<close>

record register_raw =
  rr_phone :: string
  rr_password :: string
  rr_role :: "role option"
  rr_locale :: "locale_code option"
  rr_code :: "string option"

definition or_default :: "'a \<Rightarrow> 'a option \<Rightarrow> 'a" where
  "or_default d x = (case x of None \<Rightarrow> d | Some y \<Rightarrow> y)"

definition signup_role :: "role \<Rightarrow> role option" where
  "signup_role r = guarded (r = CUSTOMER \<or> r = MASTER) r"

definition parse_register :: "register_raw \<Rightarrow> register_input option" where
  "parse_register r =
     do { phone \<leftarrow> parse_uz_phone (rr_phone r);
          password \<leftarrow> sized 8 128 (rr_password r);
          role \<leftarrow> signup_role (or_default CUSTOMER (rr_role r));
          code \<leftarrow> optional (trimmed 1 20) (rr_code r);
          Some \<lparr>ri_phone = phone, ri_password = password, ri_role = role,
                ri_locale = or_default UZ (rr_locale r), ri_referred_by = code\<rparr> }"

definition parse_login :: "string \<Rightarrow> string \<Rightarrow> (string \<times> string) option" where
  "parse_login phone password =
     do { p \<leftarrow> parse_uz_phone phone; w \<leftarrow> guarded (1 \<le> length password) password; Some (p, w) }"

definition parse_otp_request :: "string \<Rightarrow> otp_purpose \<Rightarrow> (string \<times> otp_purpose) option" where
  "parse_otp_request phone purpose = do { p \<leftarrow> parse_uz_phone phone; Some (p, purpose) }"

definition parse_otp_verify :: "string \<Rightarrow> string \<Rightarrow> otp_purpose \<Rightarrow> (string \<times> string \<times> otp_purpose) option" where
  "parse_otp_verify phone code purpose =
     do { p \<leftarrow> parse_uz_phone phone; c \<leftarrow> digits_exactly 6 code; Some (p, c, purpose) }"

definition parse_password_reset :: "string \<Rightarrow> string \<Rightarrow> string \<Rightarrow> (string \<times> string \<times> string) option" where
  "parse_password_reset phone code new_password =
     do { p \<leftarrow> parse_uz_phone phone; c \<leftarrow> digits_exactly 6 code; w \<leftarrow> sized 8 128 new_password; Some (p, c, w) }"

section \<open>Profiles\<close>

definition url_of :: "formats \<Rightarrow> string \<Rightarrow> string option" where
  "url_of fm x = guarded (fm_url fm x) x"

definition parse_customer_profile :: "formats \<Rightarrow> string \<Rightarrow> string option \<Rightarrow> (string \<times> string option) option" where
  "parse_customer_profile fm name avatar =
     do { n \<leftarrow> trimmed 2 120 name; a \<leftarrow> optional (url_of fm) avatar; Some (n, a) }"

record address_raw =
  aw_label :: string
  aw_text :: string
  aw_lat :: rat
  aw_lng :: rat
  aw_default :: "bool option"

definition parse_address :: "address_raw \<Rightarrow> address_input option" where
  "parse_address r =
     do { label \<leftarrow> trimmed 1 60 (aw_label r);
          txt \<leftarrow> trimmed 3 300 (aw_text r);
          lat \<leftarrow> number_in (- 90) 90 (aw_lat r);
          lng \<leftarrow> number_in (- 180) 180 (aw_lng r);
          Some \<lparr>ad_label = label, ad_text = txt, ad_lat = lat, ad_lng = lng,
                ad_default = or_default False (aw_default r)\<rparr> }"

record area_raw =
  rw_label :: string
  rw_lat :: rat
  rw_lng :: rat
  rw_radius :: rat

definition parse_area :: "area_raw \<Rightarrow> area_input option" where
  "parse_area r =
     do { label \<leftarrow> trimmed 1 60 (rw_label r);
          lat \<leftarrow> number_in (- 90) 90 (rw_lat r);
          lng \<leftarrow> number_in (- 180) 180 (rw_lng r);
          radius \<leftarrow> int_in 500 50000 (rw_radius r);
          Some \<lparr>ar_label = label, ar_lat = lat, ar_lng = lng, ar_radius = radius\<rparr> }"

record master_profile_raw =
  mw_name :: string
  mw_avatar :: "string option"
  mw_years :: rat
  mw_bio :: "string option"
  mw_skills :: "string list option"
  mw_areas :: "area_raw list option"
  mw_pinfl :: "string option"
  mw_self_employed :: "bool option"

definition parse_master_profile :: "formats \<Rightarrow> master_profile_raw \<Rightarrow> master_profile_update option" where
  "parse_master_profile fm r =
     do { name \<leftarrow> trimmed 2 120 (mw_name r);
          avatar \<leftarrow> optional (url_of fm) (mw_avatar r);
          years \<leftarrow> int_in 0 70 (mw_years r);
          bio \<leftarrow> optional (trimmed 0 1000) (mw_bio r);
          skills0 \<leftarrow> at_most 20 (or_default [] (mw_skills r));
          skills1 \<leftarrow> all_parsed (fm_uuid fm) skills0;
          areas0 \<leftarrow> at_most 10 (or_default [] (mw_areas r));
          areas1 \<leftarrow> all_parsed parse_area areas0;
          pinfl \<leftarrow> optional (digits_exactly 14) (mw_pinfl r);
          Some \<lparr>mu_name = name, mu_avatar = avatar, mu_years = years, mu_bio = bio, mu_skills = skills1,
                mu_areas = areas1, mu_pinfl = pinfl, mu_self_employed = or_default False (mw_self_employed r)\<rparr> }"

section \<open>Orders\<close>

definition parse_order_create :: "formats \<Rightarrow> string option \<Rightarrow> string \<Rightarrow> (id option \<times> string) option" where
  "parse_order_create fm category description =
     do { c \<leftarrow> optional (fm_uuid fm) category; d \<leftarrow> trimmed 5 2000 description; Some (c, d) }"

record order_update_raw =
  ow_category :: "string option"
  ow_description :: "string option"
  ow_tier :: "service_tier option"
  ow_scheduled :: "time option option"
  ow_address :: "string option"
  ow_lat :: "rat option"
  ow_lng :: "rat option"

definition parse_order_update :: "formats \<Rightarrow> order_update_raw \<Rightarrow> order_update option" where
  "parse_order_update fm r =
     do { category \<leftarrow> optional (fm_uuid fm) (ow_category r);
          description \<leftarrow> optional (trimmed 5 2000) (ow_description r);
          address \<leftarrow> optional (trimmed 3 300) (ow_address r);
          lat \<leftarrow> optional (number_in (- 90) 90) (ow_lat r);
          lng \<leftarrow> optional (number_in (- 180) 180) (ow_lng r);
          Some \<lparr>ou_category = category, ou_description = description, ou_tier = ow_tier r,
                ou_scheduled = ow_scheduled r, ou_address = address, ou_lat = lat, ou_lng = lng\<rparr> }"

definition parse_order_submit :: "bool \<Rightarrow> unit option" where
  "parse_order_submit consent = guarded consent ()"

text \<open>\<open>int().positive()\<close> has no upper limit.\<close>

definition parse_final_amount :: "rat \<Rightarrow> int option" where
  "parse_final_amount x = guarded (x = of_int \<lfloor>x\<rfloor> \<and> 0 < \<lfloor>x\<rfloor>) \<lfloor>x\<rfloor>"

definition parse_cancel_reason :: "string option \<Rightarrow> string option option" where
  "parse_cancel_reason = optional (trimmed 0 500)"

definition parse_review :: "rat \<Rightarrow> string option \<Rightarrow> (int \<times> string option) option" where
  "parse_review rating comment =
     do { r \<leftarrow> int_in 1 5 rating; c \<leftarrow> optional (trimmed 0 1000) comment; Some (r, c) }"

definition parse_claim :: "string \<Rightarrow> string option" where
  "parse_claim = trimmed 10 1000"

definition parse_webhook :: "string \<Rightarrow> bool \<Rightarrow> string option \<Rightarrow> (string \<times> bool \<times> string option) option" where
  "parse_webhook ref success failure =
     do { r \<leftarrow> guarded (1 \<le> length ref) ref; f \<leftarrow> optional (sized 0 500) failure; Some (r, success, f) }"

definition parse_note :: "string option \<Rightarrow> string option option" where
  "parse_note = optional (trimmed 0 500)"

section \<open>Administration\<close>

definition parse_claim_decision :: "bool \<Rightarrow> string option \<Rightarrow> (bool \<times> string option) option" where
  "parse_claim_decision approve nt = do { n \<leftarrow> optional (trimmed 0 1000) nt; Some (approve, n) }"

definition parse_verification_decision :: "bool \<Rightarrow> string option \<Rightarrow> (bool \<times> string option) option" where
  "parse_verification_decision approve nt = do { n \<leftarrow> optional (trimmed 0 500) nt; Some (approve, n) }"

definition parse_resolution :: "bool \<Rightarrow> string \<Rightarrow> (bool \<times> string) option" where
  "parse_resolution refund nt = do { n \<leftarrow> trimmed 3 500 nt; Some (refund, n) }"

definition parse_suspension :: "string \<Rightarrow> string option" where
  "parse_suspension = trimmed 3 500"

definition flag_char :: "char \<Rightarrow> bool" where
  "flag_char c = (is_digit c \<or> 97 \<le> (of_char c :: nat) \<and> (of_char c :: nat) \<le> 122 \<or> c \<in> set ''_.-'')"

definition parse_flag :: "string \<Rightarrow> bool \<Rightarrow> string option \<Rightarrow> (string \<times> bool \<times> string option) option" where
  "parse_flag key enabled description =
     do { k \<leftarrow> trimmed 2 60 key;
          k1 \<leftarrow> guarded (list_all flag_char k) k;
          d \<leftarrow> optional (trimmed 0 300) description;
          Some (k1, enabled, d) }"

text \<open>The tier of a user query is a number in the query string; it is read before.\<close>

record user_query_raw =
  uq_phone :: "string option"
  uq_role :: "role option"
  uq_status :: "user_status option"
  uq_verification :: "verification_status option"
  uq_trust_tier :: "rat option"
  uq_plan :: "subscription_plan option"

definition parse_user_query :: "user_query_raw \<Rightarrow> user_filters option" where
  "parse_user_query r =
     do { phone \<leftarrow> optional (trimmed 0 20) (uq_phone r);
          tier \<leftarrow> optional (int_in 0 3) (uq_trust_tier r);
          Some \<lparr>uf_phone = phone, uf_role = uq_role r, uf_status = uq_status r,
                uf_verification = uq_verification r, uf_trust_tier = tier, uf_plan = uq_plan r\<rparr> }"

record order_query_raw =
  oq_status :: "order_status option"
  oq_category :: "string option"
  oq_tier :: "service_tier option"
  oq_customer :: "string option"
  oq_master :: "string option"
  oq_from :: "time option"
  oq_to :: "time option"
  oq_lat :: "rat option"
  oq_lng :: "rat option"
  oq_radius :: "rat option"

definition parse_order_query :: "formats \<Rightarrow> order_query_raw \<Rightarrow> order_filters option" where
  "parse_order_query fm r =
     do { category \<leftarrow> optional (fm_uuid fm) (oq_category r);
          customer \<leftarrow> optional (fm_uuid fm) (oq_customer r);
          master \<leftarrow> optional (fm_uuid fm) (oq_master r);
          lat \<leftarrow> optional (number_in (- 90) 90) (oq_lat r);
          lng \<leftarrow> optional (number_in (- 180) 180) (oq_lng r);
          radius \<leftarrow> optional (int_in 100 200000) (oq_radius r);
          Some \<lparr>of_status = oq_status r, of_category = category, of_tier = oq_tier r, of_customer = customer,
                of_master = master, of_from = oq_from r, of_to = oq_to r, of_lat = lat, of_lng = lng,
                of_radius = map_option of_int radius\<rparr> }"

definition parse_entity :: "string option \<Rightarrow> string option option" where
  "parse_entity = optional (trimmed 0 60)"

definition parse_lookup_phone :: "string \<Rightarrow> string option" where
  "parse_lookup_phone = trimmed 4 20"

section \<open>What the client accepts the server accepts\<close>

text \<open>
  The web client validates with the same schemas and sends the value it parsed.  \<open>contract\<close> is what
  makes that work: \<open>encode\<close> writes a parsed value as a request, and the server reads the same value
  back.
\<close>

locale contract =
  fixes parse :: "'raw \<Rightarrow> 'a option"
    and encode :: "'a \<Rightarrow> 'raw"
  assumes accepted_again: "parse r = Some x \<Longrightarrow> parse (encode x) = Some x"
begin

definition resend :: "'raw \<Rightarrow> 'raw" where
  "resend r = (case parse r of None \<Rightarrow> r | Some x \<Rightarrow> encode x)"

lemma same_value: "parse (resend r) = parse r"
  by (auto simp: resend_def accepted_again split: option.splits)

lemma resend_once: "resend (resend r) = resend r"
  using same_value [of r] by (auto simp: resend_def accepted_again split: option.splits)

lemma encode_inject: "parse r = Some x \<Longrightarrow> parse q = Some y \<Longrightarrow> encode x = encode y \<Longrightarrow> x = y"
  by (metis accepted_again option.inject)

end

definition encode_register :: "register_input \<Rightarrow> register_raw" where
  "encode_register x = \<lparr>rr_phone = ri_phone x, rr_password = ri_password x, rr_role = Some (ri_role x),
     rr_locale = Some (ri_locale x), rr_code = ri_referred_by x\<rparr>"

definition encode_address :: "address_input \<Rightarrow> address_raw" where
  "encode_address x = \<lparr>aw_label = ad_label x, aw_text = ad_text x, aw_lat = ad_lat x, aw_lng = ad_lng x,
     aw_default = Some (ad_default x)\<rparr>"

definition encode_area :: "area_input \<Rightarrow> area_raw" where
  "encode_area x = \<lparr>rw_label = ar_label x, rw_lat = ar_lat x, rw_lng = ar_lng x, rw_radius = of_int (ar_radius x)\<rparr>"

definition encode_master_profile :: "(id \<Rightarrow> string) \<Rightarrow> master_profile_update \<Rightarrow> master_profile_raw" where
  "encode_master_profile txt x = \<lparr>mw_name = mu_name x, mw_avatar = mu_avatar x, mw_years = of_int (mu_years x),
     mw_bio = mu_bio x, mw_skills = Some (map txt (mu_skills x)), mw_areas = Some (map encode_area (mu_areas x)),
     mw_pinfl = mu_pinfl x, mw_self_employed = Some (mu_self_employed x)\<rparr>"

definition encode_order_update :: "(id \<Rightarrow> string) \<Rightarrow> order_update \<Rightarrow> order_update_raw" where
  "encode_order_update txt x = \<lparr>ow_category = map_option txt (ou_category x), ow_description = ou_description x,
     ow_tier = ou_tier x, ow_scheduled = ou_scheduled x, ow_address = ou_address x, ow_lat = ou_lat x,
     ow_lng = ou_lng x\<rparr>"

lemma trim_phone: "uz_phone p \<Longrightarrow> trim p = p"
proof -
  assume "uz_phone p"
  then obtain d where d: "p = ''+998'' @ d" "length d = 9" "list_all is_digit d" by (auto simp: uz_phone_shape)
  have nd: "is_digit c \<Longrightarrow> \<not> is_space c" for c by (auto simp: is_digit_def is_space_def)
  have "d \<noteq> []" using d(2) by auto
  then have "\<not> is_space (last d)" using d(3) nd by (simp add: list_all_iff)
  moreover have "rev p = last d # rev (''+998'' @ butlast d)"
    using \<open>d \<noteq> []\<close> d(1) by (metis append_butlast_last_id append_assoc rev_eq_Cons_iff rev_rev_ident)
  ultimately have "dropWhile is_space (rev p) = rev p" by simp
  moreover have "dropWhile is_space p = p" using d(1) by (simp add: is_space_def)
  ultimately show ?thesis by (simp add: trim_def)
qed

lemma phone_again: "parse_uz_phone x = Some p \<Longrightarrow> parse_uz_phone p = Some p"
  unfolding parse_uz_phone_def using normalize_uz normalize_idempotent trim_phone by metis

lemma trimmed_optional_again: "optional (trimmed lo hi) x = Some y \<Longrightarrow> optional (trimmed lo hi) y = Some y"
  by (rule optional_again) (rule trimmed_again)

lemma number_optional_again: "optional (number_in lo hi) x = Some y \<Longrightarrow> optional (number_in lo hi) y = Some y"
  by (rule optional_again) auto

lemma url_again: "optional (url_of fm) x = Some y \<Longrightarrow> optional (url_of fm) y = Some y"
  by (rule optional_again) (auto simp: url_of_def)

lemma digits_again: "optional (digits_exactly n) x = Some y \<Longrightarrow> optional (digits_exactly n) y = Some y"
  by (rule optional_again) (auto simp: digits_exactly_def)

lemmas again = phone_again trimmed_optional_again number_optional_again url_again digits_again

lemma area_again: "parse_area r = Some x \<Longrightarrow> parse_area (encode_area x) = Some x"
  by (auto simp: parse_area_def encode_area_def bind_eq_Some_conv trimmed_Some int_in_Some)

interpretation register_contract: contract parse_register encode_register
  by unfold_locales
    (auto simp: parse_register_def encode_register_def signup_role_def or_default_def bind_eq_Some_conv, (erule again)+)

interpretation address_contract: contract parse_address encode_address
  by unfold_locales (auto simp: parse_address_def encode_address_def or_default_def bind_eq_Some_conv trimmed_Some)

interpretation area_contract: contract parse_area encode_area
  by unfold_locales (rule area_again)

text \<open>Schemas with ids need that an id is read back from its text.\<close>

locale id_texts =
  fixes fm :: formats
    and id_string :: "id \<Rightarrow> string"
  assumes read_back: "fm_uuid fm (id_string i) = Some i"
begin

lemma ids_read_back: "all_parsed (fm_uuid fm) (map id_string ks) = Some ks"
  by (induction ks) (simp_all add: read_back)

lemma optional_read_back: "optional (fm_uuid fm) (map_option id_string i) = Some i"
  by (cases i) (simp_all add: read_back)

end

sublocale id_texts \<subseteq> order_update: contract "parse_order_update fm" "encode_order_update id_string"
  by unfold_locales
    (auto simp: parse_order_update_def encode_order_update_def bind_eq_Some_conv optional_read_back, (erule again)+)

lemma areas_again: "all_parsed parse_area rs = Some xs \<Longrightarrow> all_parsed parse_area (map encode_area xs) = Some xs"
  by (induction rs arbitrary: xs) (auto simp: bind_eq_Some_conv area_again)

sublocale id_texts \<subseteq> master_profile: contract "parse_master_profile fm" "encode_master_profile id_string"
  by unfold_locales
    (auto simp: parse_master_profile_def encode_master_profile_def or_default_def bind_eq_Some_conv trimmed_Some
      int_in_Some at_most_def ids_read_back, (erule again areas_again | drule all_parsed_length, simp)+)

text \<open>The texts of ids the development itself uses are such texts.\<close>

definition base36_digit_value :: "char \<Rightarrow> nat" where
  "base36_digit_value c = (if is_digit c then of_char c - 48 else of_char c - 55)"

fun base36_value :: "nat \<Rightarrow> string \<Rightarrow> nat" where
  "base36_value acc [] = acc"
| "base36_value acc (c # cs) = base36_value (36 * acc + base36_digit_value c) cs"

definition id_formats :: formats where
  "id_formats = \<lparr>fm_uuid = (\<lambda>x. Some (base36_value 0 x)), fm_url = (\<lambda>x. starts_with x ''https://'')\<rparr>"

lemma base36_value_append: "base36_value acc (xs @ ys) = base36_value (base36_value acc xs) ys"
  by (induction xs arbitrary: acc) simp_all

lemma base36_digit_back: "d < 36 \<Longrightarrow> base36_digit_value (base36_digit d) = d"
  by (simp add: base36_digit_value_def base36_digit_def is_digit_def)

lemma base36_back: "base36_value 0 (base36 n) = n"
proof (induction n rule: base36.induct)
  case (1 n)
  show ?case
  proof (cases "n < 36")
    case True
    then show ?thesis by (subst base36.simps) (simp add: base36_digit_back)
  next
    case False
    then have "base36_value 0 (base36 (n div 36)) = n div 36" using 1 by simp
    then show ?thesis using False by (subst base36.simps) (simp add: base36_value_append base36_digit_back)
  qed
qed

interpretation own_ids: id_texts id_formats id_text
  by unfold_locales (simp add: id_formats_def id_text_def base36_back)

end
