(* ===== verification/Http.thy ===== *)
theory Http
  imports AdminDesk Contracts Analytics
begin

text \<open>
  What the controllers of \<open>apps/api/src\<close> share: the replies, the pipes, the two global guards and the
  filter that turns an exception into a problem document.  A request is a
  constructor per route with the raw values of its path, query and body.  A command of the order and
  dispatch services that answers with the order it changed answers \<open>R_Done\<close> here; the view of an
  order is \<open>R_Order\<close> of the reading routes.  Headers, the attributes of cookies and streams are left
  out; cursors are ids already.
\<close>

section \<open>Context, replies and pipes\<close>

record api_ctx =
  ap_formats :: formats
  ap_read :: "string \<Rightarrow> claims option"
  ap_geo :: "point \<Rightarrow> point \<Rightarrow> rat"
  ap_order :: order_ctx
  ap_auth :: auth_ctx
  ap_users :: users_ctx
  ap_pay :: payment_ctx

abbreviation api_now :: "api_ctx \<Rightarrow> time" where
  "api_now ctx \<equiv> ox_now (ap_order ctx)"

abbreviation api_env :: "api_ctx \<Rightarrow> env" where
  "api_env ctx \<equiv> ox_env (ap_order ctx)"

datatype reply =
    R_Done
  | R_Id id
  | R_Order order_dto
  | R_Job "order_dto option"
  | R_Orders "order_dto list \<times> id option"
  | R_Payment payment_dto
  | R_Payments "payment_dto list"
  | R_Earnings earnings_page
  | R_Review "review_dto option"
  | R_Claim "claim_dto option"
  | R_Verification "verification_dto option"
  | R_Penalties "penalty_dto list \<times> int"
  | R_Subscription subscription_dto
  | R_Trust trust_result
  | R_Figures master_analytics
  | R_Me me_dto
  | R_Profile master_profile_dto
  | R_Online "bool \<times> time option"
  | R_Customer "string option \<times> string option"
  | R_Addresses "address_row list"
  | R_Address address_row
  | R_Referrals referral_summary
  | R_Offer "offer_dto option"
  | R_Notifications "notification_dto list \<times> id option"
  | R_Notification notification_dto
  | R_Count nat
  | R_Challenge otp_challenge
  | R_Session session_user auth_tokens
  | R_Login login_outcome
  | R_Categories "category_dto list"
  | R_File object_key string
  | R_Users "admin_user list \<times> id option"
  | R_User admin_user_detail
  | R_Admin_Orders "admin_order list \<times> id option"
  | R_Admin_Order admin_order_detail
  | R_Support support_dto
  | R_Overview overview
  | R_Audit "audit_row list \<times> id option"
  | R_Flags "flag_row list"
  | R_Flag flag_row
  | R_Verifications "admin_verification list"
  | R_Claims "admin_claim list"

type_synonym handler = "db \<Rightarrow> (reply, db) outcome"

definition reading :: "reply \<Rightarrow> handler" where
  "reading x = ok x"

definition answering :: "('a \<Rightarrow> reply) \<Rightarrow> (db \<Rightarrow> ('a, db) outcome) \<Rightarrow> handler" where
  "answering w f s = and_then (f s) (\<lambda>x. ok (w x))"

definition pure_answer :: "('a \<Rightarrow> reply) \<Rightarrow> (db \<Rightarrow> 'a \<times> db) \<Rightarrow> handler" where
  "pure_answer w f s = (case f s of (x, t) \<Rightarrow> ok (w x) t)"

definition looking_up :: "('a \<Rightarrow> reply) \<Rightarrow> (db \<Rightarrow> 'a result) \<Rightarrow> handler" where
  "looking_up w f s = (case f s of Inl e \<Rightarrow> raise e s | Inr x \<Rightarrow> ok (w x) s)"

definition piped :: "'a option \<Rightarrow> ('a \<Rightarrow> handler) \<Rightarrow> handler" where
  "piped p f = (case p of None \<Rightarrow> raise BadRequest | Some x \<Rightarrow> f x)"

abbreviation with_id :: "api_ctx \<Rightarrow> string \<Rightarrow> (id \<Rightarrow> handler) \<Rightarrow> handler" where
  "with_id ctx raw \<equiv> piped (fm_uuid (ap_formats ctx) raw)"

datatype file_part = File_Part "byte list" string

section \<open>Guards\<close>

text \<open>\<open>JwtAuthGuard\<close> runs before \<open>RolesGuard\<close>, as \<open>AuthModule\<close> provides them; a request that fails either
  never reaches its handler.\<close>

definition guarded_by ::
  "api_ctx \<Rightarrow> bool \<Rightarrow> role list \<Rightarrow> string option \<Rightarrow> (claims option \<Rightarrow> handler) \<Rightarrow> handler" where
  "guarded_by ctx public required header f s =
     (case jwt_auth_guard (ap_read ctx) public header of
        Inl e \<Rightarrow> raise e s
      | Inr user \<Rightarrow> (case roles_guard required user of Inl e \<Rightarrow> raise e s | Inr _ \<Rightarrow> f user s))"

text \<open>\<open>CurrentUser('id')\<close>: behind the bearer guard there is a user.\<close>

definition for_user :: "claims option \<Rightarrow> (id \<Rightarrow> handler) \<Rightarrow> handler" where
  "for_user user f = (case user of None \<Rightarrow> raise InternalError | Some c \<Rightarrow> f (cl_id c))"

section \<open>Problem documents\<close>

text \<open>
  \<open>ProblemExceptionFilter\<close>.  \<open>Http_Exception\<close> is an exception of the framework with its status and the
  error and message of its body, \<open>Unique_Violation\<close> the database error P2002, \<open>Plain_Error\<close> any other
  error with its message and the \<open>statusCode\<close> some plugins set, \<open>Not_An_Error\<close> a thrown value that is
  none.  The list of validation errors is left out.
\<close>

datatype exception =
    Http_Exception int "string option" "string option"
  | Http_Text int string
  | Unique_Violation
  | Plain_Error string "int option"
  | Not_An_Error

record problem =
  pb_title :: string
  pb_status :: int
  pb_detail :: "string option"

definition internal_title :: string where
  "internal_title = ''Internal Server Error''"

text \<open>\<open>httpTitle\<close> turns the key of the status in the enumeration into words; the table is the framework's.\<close>

definition http_title :: "(int \<Rightarrow> string option) \<Rightarrow> int \<Rightarrow> string" where
  "http_title keys status =
     (case keys status of None \<Rightarrow> ''Error'' | Some k \<Rightarrow> map (\<lambda>c. if c = CHR ''_'' then CHR '' '' else c) k)"

definition classify :: "(int \<Rightarrow> string option) \<Rightarrow> exception \<Rightarrow> problem" where
  "classify keys x =
     (case x of
        Http_Exception st err msg \<Rightarrow>
          \<lparr>pb_title = (case err of None \<Rightarrow> http_title keys st | Some t \<Rightarrow> t), pb_status = st, pb_detail = msg\<rparr>
      | Http_Text st t \<Rightarrow> \<lparr>pb_title = t, pb_status = st, pb_detail = None\<rparr>
      | Unique_Violation \<Rightarrow>
          \<lparr>pb_title = ''Conflict'', pb_status = 409, pb_detail = Some ''Bu amal allaqachon bajarilgan''\<rparr>
      | Plain_Error msg code \<Rightarrow>
          (case code of
             Some c \<Rightarrow>
               if 400 \<le> c \<and> c < 600 then \<lparr>pb_title = http_title keys c, pb_status = c, pb_detail = Some msg\<rparr>
               else \<lparr>pb_title = internal_title, pb_status = 500, pb_detail = Some msg\<rparr>
           | None \<Rightarrow> \<lparr>pb_title = internal_title, pb_status = 500, pb_detail = Some msg\<rparr>)
      | Not_An_Error \<Rightarrow> \<lparr>pb_title = internal_title, pb_status = 500, pb_detail = None\<rparr>)"

definition problem_of :: "(int \<Rightarrow> string option) \<Rightarrow> exception \<Rightarrow> problem" where
  "problem_of keys x =
     (let p = classify keys x
      in if 500 \<le> pb_status p then p\<lparr>pb_title := internal_title, pb_detail := None\<rparr>
         else if pb_detail p = Some [] then p\<lparr>pb_detail := None\<rparr> else p)"

text \<open>The status of the errors the services raise.\<close>

fun error_status :: "error \<Rightarrow> int" where
  "error_status BadRequest = 400"
| "error_status Unauthorized = 401"
| "error_status Forbidden = 403"
| "error_status NotFound = 404"
| "error_status Conflict = 409"
| "error_status UniqueViolation = 409"
| "error_status PayloadTooLarge = 413"
| "error_status UnsupportedMediaType = 415"
| "error_status InternalError = 500"

section \<open>Lemmas on replies and guards\<close>

lemma answering_state: "snd (answering w f s) = snd (f s)"
  by (cases "f s" rule: prod.exhaust; cases "fst (f s)") (auto simp: answering_def)

lemma looking_up_state [simp]: "snd (looking_up w f s) = s"
  by (simp add: looking_up_def raise_def ok_def split: sum.splits)

lemma reading_state [simp]: "snd (reading x s) = s"
  by (simp add: reading_def ok_def)

lemma pure_answer_state: "snd (pure_answer w f s) = snd (f s)"
  by (simp add: pure_answer_def ok_def split: prod.splits)

lemma piped_state: "snd (piped p f s) = (case p of None \<Rightarrow> s | Some x \<Rightarrow> snd (f x s))"
  by (simp add: piped_def raise_def split: option.splits)

text \<open>A request that reaches its handler passed both guards; every other leaves the state as it was.\<close>

lemma guarded_cases:
  obtains (refused) e where "guarded_by ctx public roles header f s = raise e s" "e = Unauthorized \<or> e = Forbidden"
  | (passed) user where "guarded_by ctx public roles header f s = f user s"
      "jwt_auth_guard (ap_read ctx) public header = Inr user" "roles_guard roles user = Inr True"
proof (cases "jwt_auth_guard (ap_read ctx) public header")
  case (Inl e)
  then have "e = Unauthorized" by (auto simp: jwt_auth_guard_def split: if_splits option.splits)
  with Inl show thesis by (intro refused [of e]) (simp_all add: guarded_by_def)
next
  case (Inr user)
  show thesis
  proof (cases "roles_guard roles user")
    case (Inl e)
    then have "e = Forbidden" by (auto simp: roles_guard_def split: if_splits option.splits)
    with Inl Inr show thesis by (intro refused [of e]) (simp_all add: guarded_by_def)
  next
    case (Inr b)
    then have "b = True" by (auto simp: roles_guard_def split: if_splits option.splits)
    with Inr \<open>jwt_auth_guard (ap_read ctx) public header = Inr user\<close> show thesis
      by (intro passed [of user]) (simp_all add: guarded_by_def)
  qed
qed

lemma passed_jwt:
  assumes "jwt_auth_guard rd public header = Inr user" "\<not> public"
  obtains h c where "header = Some h" "rd (drop (length bearer_prefix) h) = Some c" "\<not> blocked (cl_status c)" "user = Some c"
  using assms by (auto simp: jwt_auth_guard_def split: if_splits option.splits)

lemma passed_roles:
  assumes "roles_guard roles user = Inr True" "roles \<noteq> []"
  obtains c where "user = Some c" "cl_role c \<in> set roles"
  using assms by (auto simp: roles_guard_def split: if_splits option.splits)

text \<open>What goes wrong inside never shows: above 499 every document is the same.\<close>

lemma problem_hides:
  "500 \<le> pb_status (problem_of keys x) \<Longrightarrow> pb_title (problem_of keys x) = internal_title \<and> pb_detail (problem_of keys x) = None"
  by (auto simp: problem_of_def Let_def split: if_splits)

end
