(* ===== verification/Api.thy ===== *)
theory Api
  imports Http
begin

text \<open>
  The routes: one datatype of requests and one handler per controller, in the order of the source, and
  \<open>serve_api\<close>, which puts the guards of a route in front of its handler.
\<close>

section \<open>Orders of a customer\<close>

datatype orders_request =
    O_Create "string option" string
  | O_List "id option" "string option"
  | O_Get string
  | O_Update string order_update_raw
  | O_Add_Media string "file_part option"
  | O_Delete_Media string string
  | O_Diagnose string
  | O_Submit string bool
  | O_Cancel string
  | O_Confirm string
  | O_Pay string payment_method
  | O_Payments string
  | O_Review string rat "string option" string
  | O_Get_Review string
  | O_Claim string string
  | O_Get_Claim string

definition order_status_names :: "(string \<times> order_status) list" where
  "order_status_names =
     [(''DRAFT'', DRAFT), (''PRICED'', PRICED), (''SEARCHING'', SEARCHING), (''ASSIGNED'', ASSIGNED),
      (''EN_ROUTE'', EN_ROUTE), (''IN_PROGRESS'', IN_PROGRESS), (''COMPLETED'', COMPLETED), (''CLOSED'', CLOSED),
      (''CANCELLED_BY_CUSTOMER'', CANCELLED_BY_CUSTOMER), (''CANCELLED_BY_MASTER'', CANCELLED_BY_MASTER),
      (''EXPIRED'', EXPIRED), (''DISPUTED'', DISPUTED)]"

text \<open>\<open>status in OrderStatus\<close> also holds for the keys every object inherits; the query then fails in the
  database client.\<close>

definition status_filter :: "string option \<Rightarrow> order_status option result" where
  "status_filter st =
     (case st of
        None \<Rightarrow> Inr None
      | Some t \<Rightarrow>
          (case map_of order_status_names t of
             Some v \<Rightarrow> Inr (Some v)
           | None \<Rightarrow> if t \<in> set inherited_keys then Inl InternalError else Inr None))"

fun orders_controller :: "api_ctx \<Rightarrow> id \<Rightarrow> orders_request \<Rightarrow> handler" where
  "orders_controller ctx u (O_Create category description) =
     piped (parse_order_create (ap_formats ctx) category description)
       (\<lambda>(c, d). answering R_Id (create_draft (api_now ctx) u c d))"
| "orders_controller ctx u (O_List cursor st) =
     (\<lambda>s. case status_filter st of
            Inl e \<Rightarrow> raise e s
          | Inr v \<Rightarrow> reading (R_Orders (list_orders u cursor v s)) s)"
| "orders_controller ctx u (O_Get i) = with_id ctx i (\<lambda>k. looking_up R_Order (get_one u k))"
| "orders_controller ctx u (O_Update i r) =
     with_id ctx i (\<lambda>k. piped (parse_order_update (ap_formats ctx) r)
       (\<lambda>d. answering (\<lambda>_. R_Done) (update_draft (api_now ctx) u k d)))"
| "orders_controller ctx u (O_Add_Media i part) =
     with_id ctx i (\<lambda>k. piped part
       (\<lambda>p. case p of File_Part buffer mime \<Rightarrow>
          answering (\<lambda>_. R_Done) (add_media (api_env ctx) u k buffer mime)))"
| "orders_controller ctx u (O_Delete_Media i m) =
     with_id ctx i (\<lambda>k. with_id ctx m (\<lambda>j. answering (\<lambda>_. R_Done) (delete_media u k j)))"
| "orders_controller ctx u (O_Diagnose i) =
     with_id ctx i (\<lambda>k. answering (\<lambda>_. R_Done) (diagnose (ap_order ctx) u k))"
| "orders_controller ctx u (O_Submit i consent) =
     with_id ctx i (\<lambda>k. piped (parse_order_submit consent)
       (\<lambda>_. answering (\<lambda>_. R_Done) (submit (ap_order ctx) u k)))"
| "orders_controller ctx u (O_Cancel i) =
     with_id ctx i (\<lambda>k. answering (\<lambda>_. R_Done) (cancel (api_now ctx) u k))"
| "orders_controller ctx u (O_Confirm i) =
     with_id ctx i (\<lambda>k. answering (\<lambda>_. R_Done) (confirm_completion (api_now ctx) u k))"
| "orders_controller ctx u (O_Pay i method) =
     with_id ctx i (\<lambda>k. answering R_Payment (initiate (ap_pay ctx) u k method))"
| "orders_controller ctx u (O_Payments i) = with_id ctx i (\<lambda>k. looking_up R_Payments (list_payments u k))"
| "orders_controller ctx u (O_Review i rating comment complaint) =
     with_id ctx i (\<lambda>k. piped (parse_review rating comment)
       (\<lambda>(n, c). answering (\<lambda>r. R_Review (Some (review_to_dto r))) (create_review (api_now ctx) u k n c complaint)))"
| "orders_controller ctx u (O_Get_Review i) =
     with_id ctx i (\<lambda>k s. case get_one u k s of
       Inl e \<Rightarrow> raise e s | Inr _ \<Rightarrow> reading (R_Review (map_option review_to_dto (review_for_order k s))) s)"
| "orders_controller ctx u (O_Claim i reason) =
     with_id ctx i (\<lambda>k. piped (parse_claim reason)
       (\<lambda>r. answering (\<lambda>c. R_Claim (Some (claim_to_dto c))) (file_claim (api_now ctx) u k r)))"
| "orders_controller ctx u (O_Get_Claim i) =
     with_id ctx i (\<lambda>k. looking_up (\<lambda>c. R_Claim (map_option claim_to_dto c)) (claim_for_order u k))"

section \<open>The caller's account\<close>

datatype me_request =
    M_Get
  | M_Customer string "string option"
  | M_Addresses
  | M_Add_Address address_raw
  | M_Set_Default string
  | M_Delete_Address string
  | M_Referrals

fun me_controller :: "api_ctx \<Rightarrow> id \<Rightarrow> me_request \<Rightarrow> handler" where
  "me_controller ctx u M_Get = looking_up R_Me (get_me u)"
| "me_controller ctx u (M_Customer name avatar) =
     piped (parse_customer_profile (ap_formats ctx) name avatar)
       (\<lambda>(n, a). pure_answer R_Customer (update_customer_profile u n a))"
| "me_controller ctx u M_Addresses = (\<lambda>s. reading (R_Addresses (list_addresses u s)) s)"
| "me_controller ctx u (M_Add_Address r) =
     piped (parse_address r) (\<lambda>d. pure_answer R_Address (create_address (api_now ctx) u d))"
| "me_controller ctx u (M_Set_Default i) =
     with_id ctx i (\<lambda>k. answering (\<lambda>_. R_Done) (set_default_address u k))"
| "me_controller ctx u (M_Delete_Address i) =
     with_id ctx i (\<lambda>k. answering (\<lambda>_. R_Done) (delete_address u k))"
| "me_controller ctx u M_Referrals = looking_up R_Referrals (get_summary u)"

section \<open>The master's desk\<close>

datatype master_request =
    W_Get
  | W_Update master_profile_raw
  | W_Add_Media master_media_kind "string option" "file_part option"
  | W_Delete_Media string
  | W_Availability bool
  | W_Current_Offer
  | W_Accept string
  | W_Decline string
  | W_Current_Job
  | W_En_Route string
  | W_Start string
  | W_Complete string rat

datatype master_more =
    W_Job_Media string "file_part option"
  | W_Cancel string "string option"
  | W_Jobs "id option"
  | W_Earnings "id option"
  | W_Trust
  | W_Submit "string option"
  | W_Verification
  | W_Penalties
  | W_Subscription
  | W_Upgrade
  | W_Analytics

fun master_controller :: "api_ctx \<Rightarrow> id \<Rightarrow> master_request \<Rightarrow> handler" where
  "master_controller ctx u W_Get = looking_up R_Profile (get_master_profile u)"
| "master_controller ctx u (W_Update r) =
     piped (parse_master_profile (ap_formats ctx) r) (\<lambda>d. answering R_Profile (update_master_profile (ap_users ctx) u d))"
| "master_controller ctx u (W_Add_Media kind caption part) =
     piped (optional (sized 0 200) caption) (\<lambda>c. piped part (\<lambda>p. case p of File_Part buffer mime \<Rightarrow>
       answering (\<lambda>m. R_Id (mm_id m)) (add_master_media u kind buffer mime c)))"
| "master_controller ctx u (W_Delete_Media i) =
     with_id ctx i (\<lambda>k. answering (\<lambda>_. R_Done) (delete_master_media u k))"
| "master_controller ctx u (W_Availability online) =
     answering R_Online (set_master_availability (api_now ctx) u online)"
| "master_controller ctx u W_Current_Offer = (\<lambda>s. reading (R_Offer (current_offer_dto (api_now ctx) u s)) s)"
| "master_controller ctx u (W_Accept i) =
     with_id ctx i (\<lambda>k. answering (\<lambda>_. R_Done) (accept_offer (api_now ctx) k u))"
| "master_controller ctx u (W_Decline i) =
     with_id ctx i (\<lambda>k. answering (\<lambda>_. R_Done) (decline_offer (ox_dispatch (ap_order ctx)) k u))"
| "master_controller ctx u W_Current_Job = (\<lambda>s. reading (R_Job (get_current_job u s)) s)"
| "master_controller ctx u (W_En_Route i) =
     with_id ctx i (\<lambda>k. answering (\<lambda>_. R_Done) (start_en_route (api_now ctx) u k))"
| "master_controller ctx u (W_Start i) =
     with_id ctx i (\<lambda>k. answering (\<lambda>_. R_Done) (start_service (api_now ctx) u k))"
| "master_controller ctx u (W_Complete i amount) =
     with_id ctx i (\<lambda>k. piped (parse_final_amount amount)
       (\<lambda>n. answering (\<lambda>_. R_Done) (complete_service (api_now ctx) u k n)))"

text \<open>Reading the trust score or the plan also writes: the tier is stored, an expired trial is closed.\<close>

fun master_more_controller :: "api_ctx \<Rightarrow> id \<Rightarrow> master_more \<Rightarrow> handler" where
  "master_more_controller ctx u (W_Job_Media i part) =
     with_id ctx i (\<lambda>k. piped part (\<lambda>p. case p of File_Part buffer mime \<Rightarrow>
       answering (\<lambda>_. R_Done) (add_job_media (api_env ctx) u k buffer mime)))"
| "master_more_controller ctx u (W_Cancel i reason) =
     with_id ctx i (\<lambda>k. piped (parse_cancel_reason reason)
       (\<lambda>r. answering (\<lambda>_. R_Done) (cancel_by_master (api_now ctx) u k r)))"
| "master_more_controller ctx u (W_Jobs cursor) = (\<lambda>s. reading (R_Orders (get_job_history u cursor s)) s)"
| "master_more_controller ctx u (W_Earnings cursor) = (\<lambda>s. reading (R_Earnings (get_master_earnings u cursor s)) s)"
| "master_more_controller ctx u W_Trust = answering R_Trust (recompute_trust_tier (api_now ctx) u)"
| "master_more_controller ctx u (W_Submit nt) =
     piped (parse_note nt)
       (\<lambda>n. answering (\<lambda>v. R_Verification (Some (verification_to_dto v))) (submit_verification (api_now ctx) u n))"
| "master_more_controller ctx u W_Verification =
     (\<lambda>s. reading (R_Verification (map_option verification_to_dto (my_latest u s))) s)"
| "master_more_controller ctx u W_Penalties =
     (\<lambda>s. reading (R_Penalties (case penalty_history (api_now ctx) u s of (rows, points) \<Rightarrow>
        (map penalty_to_dto rows, points))) s)"
| "master_more_controller ctx u W_Subscription = pure_answer R_Subscription (get_status (api_now ctx) u)"
| "master_more_controller ctx u W_Upgrade = answering R_Subscription (upgrade_to_premium (api_now ctx) u)"
| "master_more_controller ctx u W_Analytics = answering R_Figures (get_for_master (api_now ctx) u)"

section \<open>Notifications\<close>

datatype inbox_request =
    N_List "id option"
  | N_Unread
  | N_Read string

fun notifications_controller :: "api_ctx \<Rightarrow> id \<Rightarrow> inbox_request \<Rightarrow> handler" where
  "notifications_controller ctx u (N_List cursor) =
     (\<lambda>s. reading (R_Notifications (case list_notifications u cursor s of (rows, next) \<Rightarrow>
        (map notification_to_dto rows, next))) s)"
| "notifications_controller ctx u N_Unread = (\<lambda>s. reading (R_Count (unread_count u s)) s)"
| "notifications_controller ctx u (N_Read i) =
     with_id ctx i (\<lambda>k. answering (\<lambda>n. R_Notification (notification_to_dto n)) (mark_read (api_now ctx) u k))"

section \<open>Public routes\<close>

datatype auth_request =
    U_Register register_raw
  | U_Verify string string otp_purpose
  | U_Login string string
  | U_Request_Otp string otp_purpose
  | U_Refresh "string option" "string option"
  | U_Logout "string option"
  | U_Request_Reset string
  | U_Reset string string string

text \<open>\<open>refresh\<close> takes the token of the cookie, and the one of the body when there is no cookie.\<close>

fun auth_controller :: "api_ctx \<Rightarrow> auth_request \<Rightarrow> handler" where
  "auth_controller ctx (U_Register r) = piped (parse_register r) (\<lambda>d. answering R_Challenge (register (ap_auth ctx) d))"
| "auth_controller ctx (U_Verify phone code purpose) =
     piped (parse_otp_verify phone code purpose)
       (\<lambda>(p, c, q). answering (\<lambda>(su, t). R_Session su t) (verify_otp (ap_auth ctx) p c q))"
| "auth_controller ctx (U_Login phone password) =
     piped (parse_login phone password) (\<lambda>(p, w). answering R_Login (login (ap_auth ctx) p w))"
| "auth_controller ctx (U_Request_Otp phone purpose) =
     piped (parse_otp_request phone purpose) (\<lambda>(p, q). answering R_Challenge (request_otp (ap_auth ctx) p q))"
| "auth_controller ctx (U_Refresh cookie field) =
     (case (case cookie of None \<Rightarrow> field | Some c \<Rightarrow> Some c) of
        None \<Rightarrow> raise Unauthorized
      | Some raw \<Rightarrow>
          if raw = [] then raise Unauthorized
          else answering (\<lambda>(su, t). R_Session su t) (refresh (ap_auth ctx) raw))"
| "auth_controller ctx (U_Logout cookie) = (\<lambda>s. ok R_Done (logout (ap_auth ctx) cookie s))"
| "auth_controller ctx (U_Request_Reset phone) =
     piped (parse_uz_phone phone) (\<lambda>p. answering R_Challenge (request_password_reset (ap_auth ctx) p))"
| "auth_controller ctx (U_Reset phone code password) =
     piped (parse_password_reset phone code password)
       (\<lambda>(p, c, w). answering (\<lambda>_. R_Done) (reset_password (ap_auth ctx) p c w))"

datatype public_request =
    B_Categories
  | B_Media string
  | B_Master_Media string
  | B_Webhook string bool "string option"

fun public_controller :: "api_ctx \<Rightarrow> public_request \<Rightarrow> handler" where
  "public_controller ctx B_Categories = (\<lambda>s. reading (R_Categories (list_categories s)) s)"
| "public_controller ctx (B_Media i) = with_id ctx i (\<lambda>k. looking_up (\<lambda>(key, mime). R_File key mime) (get_media_file k))"
| "public_controller ctx (B_Master_Media i) =
     with_id ctx i (\<lambda>k. looking_up (\<lambda>(key, mime). R_File key mime) (get_master_media_file k))"
| "public_controller ctx (B_Webhook ref success failure) =
     piped (parse_webhook ref success failure)
       (\<lambda>(r, b, f). answering (\<lambda>_. R_Done) (handle_webhook (ap_pay ctx) r b f))"

section \<open>Administration\<close>

datatype admin_request =
    Z_Users "string option" user_query_raw
  | Z_User string
  | Z_Suspend string string
  | Z_Restore string
  | Z_Orders "string option" order_query_raw
  | Z_Order string
  | Z_Overview "time option" "time option"
  | Z_Audit "string option" "string option" "string option"
  | Z_Support string
  | Z_Flags
  | Z_Set_Flag string bool "string option"
  | Z_Resolve string bool string
  | Z_Verifications "verification_status option"
  | Z_Decide_Verification string bool "string option"
  | Z_Claims "claim_status option"
  | Z_Decide_Claim string bool "string option"

definition users_controller_list :: "api_ctx \<Rightarrow> string option \<Rightarrow> user_query_raw \<Rightarrow> handler" where
  "users_controller_list ctx cursor r =
     piped (optional (fm_uuid (ap_formats ctx)) cursor) (\<lambda>c. piped (parse_user_query r)
       (\<lambda>f s. reading (R_Users (admin_list_users f c s)) s))"

definition orders_controller_list :: "api_ctx \<Rightarrow> string option \<Rightarrow> order_query_raw \<Rightarrow> handler" where
  "orders_controller_list ctx cursor r =
     piped (optional (fm_uuid (ap_formats ctx)) cursor) (\<lambda>c. piped (parse_order_query (ap_formats ctx) r)
       (\<lambda>f s. reading (R_Admin_Orders (admin_list_orders (ap_geo ctx) f c s)) s))"

definition audit_controller_list :: "api_ctx \<Rightarrow> string option \<Rightarrow> string option \<Rightarrow> string option \<Rightarrow> handler" where
  "audit_controller_list ctx cursor actor entity =
     piped (optional (fm_uuid (ap_formats ctx)) cursor) (\<lambda>c. piped (optional (fm_uuid (ap_formats ctx)) actor)
       (\<lambda>a. piped (parse_entity entity) (\<lambda>e s. reading (R_Audit (list_audit c a e s)) s)))"

fun admin_controller :: "api_ctx \<Rightarrow> id \<Rightarrow> admin_request \<Rightarrow> handler" where
  "admin_controller ctx u (Z_Users cursor r) = users_controller_list ctx cursor r"
| "admin_controller ctx u (Z_User i) = with_id ctx i (\<lambda>k. looking_up R_User (admin_user_details (api_now ctx) k))"
| "admin_controller ctx u (Z_Suspend i reason) =
     with_id ctx i (\<lambda>k. piped (parse_suspension reason) (\<lambda>r. answering R_User (suspend_user (api_now ctx) k u r)))"
| "admin_controller ctx u (Z_Restore i) = with_id ctx i (\<lambda>k. answering R_User (restore_user (api_now ctx) k u))"
| "admin_controller ctx u (Z_Orders cursor r) = orders_controller_list ctx cursor r"
| "admin_controller ctx u (Z_Order i) = with_id ctx i (\<lambda>k. looking_up R_Admin_Order (admin_order_details k))"
| "admin_controller ctx u (Z_Overview from to) = (\<lambda>s. reading (R_Overview (admin_overview from to s)) s)"
| "admin_controller ctx u (Z_Audit cursor actor entity) = audit_controller_list ctx cursor actor entity"
| "admin_controller ctx u (Z_Support phone) =
     piped (parse_lookup_phone phone) (\<lambda>p. looking_up R_Support (lookup_by_phone (api_now ctx) p))"
| "admin_controller ctx u Z_Flags = (\<lambda>s. reading (R_Flags (list_flags s)) s)"
| "admin_controller ctx u (Z_Set_Flag key enabled description) =
     piped (parse_flag key enabled description)
       (\<lambda>(k, b, d). pure_answer R_Flag (upsert_flag (api_now ctx) u k b d))"
| "admin_controller ctx u (Z_Resolve i refund nt) =
     with_id ctx i (\<lambda>k. piped (parse_resolution refund nt)
       (\<lambda>(b, n). answering R_Payment (admin_resolve_payment (api_now ctx) u k b n)))"
| "admin_controller ctx u (Z_Verifications st) = (\<lambda>s. reading (R_Verifications (list_verifications st s)) s)"
| "admin_controller ctx u (Z_Decide_Verification i approve nt) =
     with_id ctx i (\<lambda>k. piped (parse_verification_decision approve nt)
       (\<lambda>(b, n). answering (\<lambda>v. R_Verification (Some v)) (admin_decide_verification (api_now ctx) u k b n)))"
| "admin_controller ctx u (Z_Claims st) = (\<lambda>s. reading (R_Claims (list_claims st s)) s)"
| "admin_controller ctx u (Z_Decide_Claim i approve nt) =
     with_id ctx i (\<lambda>k. piped (parse_claim_decision approve nt)
       (\<lambda>(b, n). answering (\<lambda>c. R_Claim (Some c)) (admin_decide_claim (api_now ctx) u k b n)))"

section \<open>The whole interface\<close>

datatype api_request =
    A_Auth auth_request
  | A_Public public_request
  | A_Orders orders_request
  | A_Me me_request
  | A_Master master_request
  | A_Master_More master_more
  | A_Inbox inbox_request
  | A_Admin admin_request

fun is_public :: "api_request \<Rightarrow> bool" where
  "is_public (A_Auth q) = True"
| "is_public (A_Public q) = True"
| "is_public _ = False"

fun route_roles :: "api_request \<Rightarrow> role list" where
  "route_roles (A_Orders q) = [CUSTOMER]"
| "route_roles (A_Master q) = [MASTER]"
| "route_roles (A_Master_More q) = [MASTER]"
| "route_roles (A_Admin q) = [ADMIN]"
| "route_roles (A_Me (M_Customer n a)) = [CUSTOMER]"
| "route_roles _ = []"

fun route_handler :: "api_ctx \<Rightarrow> api_request \<Rightarrow> claims option \<Rightarrow> handler" where
  "route_handler ctx (A_Auth q) user = auth_controller ctx q"
| "route_handler ctx (A_Public q) user = public_controller ctx q"
| "route_handler ctx (A_Orders q) user = for_user user (\<lambda>u. orders_controller ctx u q)"
| "route_handler ctx (A_Me q) user = for_user user (\<lambda>u. me_controller ctx u q)"
| "route_handler ctx (A_Master q) user = for_user user (\<lambda>u. master_controller ctx u q)"
| "route_handler ctx (A_Master_More q) user = for_user user (\<lambda>u. master_more_controller ctx u q)"
| "route_handler ctx (A_Inbox q) user = for_user user (\<lambda>u. notifications_controller ctx u q)"
| "route_handler ctx (A_Admin q) user = for_user user (\<lambda>u. admin_controller ctx u q)"

definition serve_api :: "api_ctx \<Rightarrow> string option \<Rightarrow> api_request \<Rightarrow> handler" where
  "serve_api ctx header q = guarded_by ctx (is_public q) (route_roles q) header (route_handler ctx q)"

end
