(* ===== verification/ApiService.thy ===== *)
theory ApiService
  imports Api OrderService
begin

text \<open>
  Every request of the interface is a run of the order system: the routes of the orders and of the
  master's job are the handlers of \<open>OrderService\<close>, and every other route leaves orders, histories and
  dispatches alone.
\<close>

section \<open>Operations beside the orders\<close>

definition admins :: "user_row list \<Rightarrow> id set" where
  "admins us = u_id ` {r \<in> set us. u_role r = ADMIN}"

lemma admins_simps [simp]:
  "admins [] = {}" "admins (r # us) = (if u_role r = ADMIN then insert (u_id r) (admins us) else admins us)"
  "admins (us @ vs) = admins us \<union> admins vs"
  by (auto simp: admins_def)

lemma admins_update:
  assumes "admins us \<subseteq> A" "\<And>r. u_role (f r) = ADMIN \<Longrightarrow> u_role r = ADMIN \<and> u_id (f r) = u_id r"
  shows "admins (update_rows P f us) \<subseteq> A"
proof -
  have "admins (update_rows P f us) \<subseteq> admins us"
    using assms(2) by (induction us) (auto simp: update_rows_def)
  with assms(1) show ?thesis by blast
qed

text \<open>Besides, none of these operations makes anybody an administrator.\<close>

definition aside :: "db \<Rightarrow> db \<Rightarrow> bool" where
  "aside s t = (orders t = orders s \<and> history t = history s \<and> dispatches t = dispatches s
     \<and> next_id s \<le> next_id t \<and> admins (users t) \<subseteq> admins (users s))"

lemma aside_refl [simp]: "aside s s"
  by (simp add: aside_def)

lemma aside_runs: "aside s t \<Longrightarrow> runs s t"
  by (rule runs_other) (simp_all add: aside_def)

lemma aside_trans: "aside s t \<Longrightarrow> aside t u \<Longrightarrow> aside s u"
  by (auto simp: aside_def)

lemma aside_then:
  "aside s (snd r) \<Longrightarrow> (\<And>x u. aside s u \<Longrightarrow> aside s (snd (f x u))) \<Longrightarrow> aside s (snd (and_then r f))"
  by (cases r rule: succeeded.cases) simp_all

lemma aside_transaction: "aside s u \<Longrightarrow> aside s (snd (body u)) \<Longrightarrow> aside s (snd (transaction body u))"
  by (cases "body u"; cases "fst (body u)") (auto simp: transaction_def)

lemma aside_users:
  "aside s u \<Longrightarrow> (\<And>r. u_role (f r) = ADMIN \<Longrightarrow> u_role r = ADMIN \<and> u_id (f r) = u_id r) \<Longrightarrow>
   aside s (u\<lparr>users := update_rows P f (users u)\<rparr>)"
  by (simp add: aside_def admins_update)

lemma aside_tables:
  "aside s u \<Longrightarrow> aside s (u\<lparr>sessions := x\<rparr>)" "aside s u \<Longrightarrow> aside s (u\<lparr>referrals := y\<rparr>)"
  by (simp_all add: aside_def)

lemma aside_notify [intro]: "aside s u \<Longrightarrow> aside s (notify now c ty d u)"
  by (simp add: aside_def)

lemma aside_audit [intro]: "aside s u \<Longrightarrow> aside s (record_audit now a b c d e f u)"
  by (simp add: aside_def record_audit_def)

text \<open>Trust, penalties, reviews, claims and verification.\<close>

lemma aside_recompute [intro]: "aside s u \<Longrightarrow> aside s (snd (recompute_trust_tier now m u))"
  by (simp add: aside_def recompute_trust_tier_def split: sum.splits)

lemma aside_record_event: "aside s u \<Longrightarrow> aside s (snd (record_event now m ev ord nt u))"
  unfolding record_event_def Let_def
  by (rule aside_then [OF aside_recompute]) (auto simp: aside_def insert_penalty_def)

lemma aside_review:
  assumes "aside s u"
  shows "aside s (snd (create_review now c i n txt nt u))"
proof (cases "review_check c i u")
  case (Inr m)
  have "aside s (snd (transaction (review_body now c i m n txt) u))"
    using assms by (intro aside_transaction) (simp_all add: aside_def review_body_def store_rating_def Let_def)
  then show ?thesis unfolding create_review_def Inr sum.case
    by (rule aside_then) (auto intro!: aside_then aside_record_event aside_recompute)
qed (use assms in \<open>simp add: create_review_def\<close>)

lemma aside_claim: "aside s u \<Longrightarrow> aside s (snd (file_claim now c i r u))"
  by (simp add: aside_def file_claim_def Let_def split: option.splits)

lemma aside_submit_verification: "aside s u \<Longrightarrow> aside s (snd (submit_verification now m nt u))"
  unfolding submit_verification_def
  by (rule aside_transaction)
    (simp_all add: aside_def submit_body_def set_verification_def Let_def split: option.splits)

lemma aside_decide_body: "aside s u \<Longrightarrow> aside s (snd (decide_body v a u))"
  by (simp add: aside_def decide_body_def set_verification_def Let_def)

lemma aside_decide_verification: "aside s u \<Longrightarrow> aside s (snd (decide_verification i a u))"
  unfolding decide_verification_def decide_commit_def Let_def
  by (auto split: option.splits intro!: aside_then aside_transaction aside_decide_body aside_notify)

lemma aside_decide_claim_commit: "aside s u \<Longrightarrow> aside s (snd (decide_claim_commit c a u))"
  by (simp add: aside_def decide_claim_commit_def Let_def)

lemma aside_decide_claim: "aside s u \<Longrightarrow> aside s (snd (decide_claim i a u))"
  unfolding decide_claim_def
  by (auto split: option.splits intro!: aside_then aside_decide_claim_commit)

section \<open>Payments\<close>

lemma aside_reward: "aside s u \<Longrightarrow> aside s (snd (reward_on_first_payment now c u))"
  by (simp add: aside_def reward_on_first_payment_def reward_commit_def Let_def split: option.splits)

lemma aside_withholding: "aside s u \<Longrightarrow> aside s (snd (record_withholding w u))"
  by (cases w) simp_all

lemma aside_settle: "aside s u \<Longrightarrow> aside s (snd (settle e now p r u))"
  unfolding settle_def settle_tail_def settle_success_def Let_def
  by (rule aside_then, simp add: aside_def settle_write_def)
    (auto intro!: aside_then aside_withholding aside_reward aside_notify split: option.splits)

lemma aside_initiate_body: "aside s u \<Longrightarrow> aside s (snd (initiate_body e now c m x u))"
  by (simp add: aside_def initiate_body_def Let_def)

lemma aside_initiate: "aside s u \<Longrightarrow> aside s (snd (initiate ctx c i m u))"
  unfolding initiate_def initiate_tx_def
  by (auto split: option.splits intro!: aside_then aside_transaction aside_initiate_body aside_settle)

lemma aside_webhook: "aside s u \<Longrightarrow> aside s (snd (handle_webhook ctx ref b f u))"
  unfolding handle_webhook_def by (auto split: option.splits intro!: aside_then aside_settle)

lemma aside_resolve_commit: "aside s u \<Longrightarrow> aside s (snd (resolve_commit p a u))"
  unfolding resolve_commit_def by (simp add: aside_def Let_def)

lemma aside_resolve: "aside s u \<Longrightarrow> aside s (snd (resolve now i a b nt u))"
  unfolding resolve_def
  by (auto simp: Let_def split: option.splits intro!: aside_then aside_resolve_commit)

section \<open>Profiles, addresses and plans\<close>

lemma aside_customer_profile: "aside s u \<Longrightarrow> aside s (snd (update_customer_profile c n a u))"
  by (simp add: aside_def update_customer_profile_def split: option.splits)

lemma aside_create_address: "aside s u \<Longrightarrow> aside s (snd (create_address now c d u))"
  by (simp add: aside_def create_address_def insert_address_def clear_default_def Let_def)

lemma aside_set_default: "aside s u \<Longrightarrow> aside s (snd (set_default_address c i u))"
  by (simp add: aside_def set_default_address_def clear_default_def Let_def)

lemma aside_delete_address: "aside s u \<Longrightarrow> aside s (snd (delete_address c i u))"
  by (simp add: aside_def delete_address_def)

lemma aside_master_profile: "aside s u \<Longrightarrow> aside s (snd (update_master_profile ctx c d u))"
  unfolding update_master_profile_def Let_def
  by (simp add: aside_def replace_areas_def replace_skills_def upsert_master_def split: sum.splits option.splits)

lemma aside_add_master_media: "aside s u \<Longrightarrow> aside s (snd (add_master_media m k b mime cap u))"
  by (simp add: aside_def add_master_media_def Let_def split: option.splits sum.splits)

lemma aside_delete_master_media: "aside s u \<Longrightarrow> aside s (snd (delete_master_media m i u))"
  by (simp add: aside_def delete_master_media_def split: option.splits)

lemma aside_availability: "aside s u \<Longrightarrow> aside s (snd (set_master_availability now m b u))"
  by (simp add: aside_def set_master_availability_def Let_def split: option.splits)

lemma aside_plan: "aside s u \<Longrightarrow> aside s (snd (get_status now m u))"
  by (simp add: aside_def get_status_def split: option.splits)

lemma aside_upgrade: "aside s u \<Longrightarrow> aside s (snd (upgrade_to_premium now m u))"
  using aside_plan [of s u now m]
  by (cases "get_status now m u") (auto simp: aside_def upgrade_to_premium_def Let_def split: option.splits)

lemma aside_figures: "aside s u \<Longrightarrow> aside s (snd (get_for_master now m u))"
  using aside_plan [of s u now m]
  by (cases "get_status now m u") (auto simp: get_for_master_def Let_def split: option.splits sum.splits)

lemma aside_mark_read: "aside s u \<Longrightarrow> aside s (snd (mark_read now m i u))"
  by (simp add: aside_def mark_read_def split: option.splits)

section \<open>Accounts\<close>

lemma aside_put_entry: "aside s u \<Longrightarrow> aside s (put_entry k e u)"
  by (simp add: aside_def put_entry_def)

lemma aside_redis_del: "aside s u \<Longrightarrow> aside s (redis_del k u)"
  by (simp add: aside_def redis_del_def)

lemma aside_incr: "aside s u \<Longrightarrow> aside s (snd (redis_incr now k ttl u))"
  by (auto simp: redis_incr_def Let_def intro!: aside_put_entry split: option.splits)

lemma aside_incr_pair: "redis_incr now k ttl u = (n, t) \<Longrightarrow> aside s u \<Longrightarrow> aside s t"
  using aside_incr [of s u now k ttl] by simp

lemma aside_set_nx: "aside s u \<Longrightarrow> aside s (snd (redis_set_nx now k ttl u))"
  by (auto simp: redis_set_nx_def intro!: aside_put_entry split: option.splits)

lemma aside_rate_limits: "aside s u \<Longrightarrow> aside s (snd (enforce_rate_limits ctx phone q u))"
  using aside_set_nx [of s u "ax_now ctx" "Otp_Cooldown q phone" "OTP_RESEND_COOLDOWN_SECONDS (ax_env ctx)"]
  by (auto simp: enforce_rate_limits_def Let_def split: prod.splits sum.splits dest: aside_incr_pair)

lemma aside_issue: "aside s u \<Longrightarrow> aside s (snd (issue_code ctx phone q u))"
  unfolding issue_code_def Let_def
  by (rule aside_then [OF aside_rate_limits]) (simp_all add: aside_def)

lemma aside_ensure: "aside s u \<Longrightarrow> aside s (snd (ensure_challenge ctx phone q u))"
  using aside_issue [of s u ctx phone q]
  by (auto simp: ensure_challenge_def Let_def split: prod.splits sum.splits error.splits)

lemma aside_verify_code: "aside s u \<Longrightarrow> aside s (snd (verify_code ctx phone code q u))"
  by (simp add: aside_def verify_code_def otp_attempt_def split: option.splits)

lemma aside_challenge: "aside s (snd r) \<Longrightarrow> aside s (snd (challenge_for phone r))"
  unfolding challenge_for_def by (rule aside_then) simp_all

lemma aside_ensure_profile: "aside s u \<Longrightarrow> aside s (ensure_profile c r u)"
  by (simp add: aside_def ensure_profile_def)

lemma aside_signup: "aside s u \<Longrightarrow> aside s (record_signup now c k u)"
  by (simp add: aside_def record_signup_def split: option.splits)

lemma aside_create_account: "aside s u \<Longrightarrow> ri_role d \<noteq> ADMIN \<Longrightarrow> aside s (snd (create_account ctx d u))"
  unfolding create_account_def Let_def
  by (auto intro!: aside_signup aside_ensure_profile) (simp add: aside_def)

lemma aside_reregister: "aside s u \<Longrightarrow> ri_role d \<noteq> ADMIN \<Longrightarrow> aside s (reregister ctx d r u)"
  unfolding reregister_def by (intro aside_ensure_profile aside_users) simp_all

lemma aside_register: "aside s u \<Longrightarrow> ri_role d \<noteq> ADMIN \<Longrightarrow> aside s (snd (register ctx d u))"
  unfolding register_def
  by (auto split: option.splits intro!: aside_then aside_challenge aside_issue aside_create_account aside_reregister)

lemma aside_log_in: "aside s u \<Longrightarrow> aside s (snd (log_in ctx r u))"
  by (simp add: aside_def log_in_def issue_tokens_def Let_def)

lemma aside_activate: "aside s u \<Longrightarrow> aside s (snd (activate r u))"
  unfolding activate_def activate_on_verify_def by (auto intro!: aside_tables aside_users)

lemma aside_pair: "aside s (snd p) \<Longrightarrow> (\<And>x t. p = (x, t) \<Longrightarrow> aside s t \<Longrightarrow> aside s (snd (f x t))) \<Longrightarrow>
  aside s (snd (case p of (x, t) \<Rightarrow> f x t))"
  by (cases p) simp

lemma aside_verify_otp: "aside s u \<Longrightarrow> aside s (snd (verify_otp ctx phone code q u))"
  unfolding verify_otp_def
  by (rule aside_then [OF aside_verify_code])
    (auto intro!: aside_pair aside_activate aside_log_in split: option.splits)

lemma aside_login: "aside s u \<Longrightarrow> aside s (snd (login ctx phone password u))"
  unfolding login_def enforce_login_limit_def register_failed_login_def clear_failed_logins_def Let_def
  by (rule aside_then)
    (auto intro!: aside_pair aside_then aside_challenge aside_ensure aside_log_in aside_incr aside_redis_del)

lemma aside_request_otp: "aside s u \<Longrightarrow> aside s (snd (request_otp ctx phone q u))"
  unfolding request_otp_def by (auto intro!: aside_challenge aside_issue split: option.splits)

lemma aside_consume: "aside s u \<Longrightarrow> aside s (snd (consume_session ctx raw u))"
  by (simp add: aside_def consume_session_def consume_locked_def split: option.splits)

lemma aside_refresh: "aside s u \<Longrightarrow> aside s (snd (refresh ctx raw u))"
  unfolding refresh_def
  by (rule aside_then [OF aside_consume]) (auto intro!: aside_pair aside_log_in split: option.splits)

lemma aside_logout: "aside s u \<Longrightarrow> aside s (logout ctx raw u)"
  by (simp add: aside_def logout_def revoke_by_token_def revoke_sessions_def split: option.splits)

lemma aside_reset: "aside s u \<Longrightarrow> aside s (snd (reset_password ctx phone code w u))"
  unfolding reset_password_def
  by (rule aside_then [OF aside_verify_code])
    (auto simp: revoke_all_for_user_def revoke_sessions_def intro!: aside_tables aside_users split: option.splits)

section \<open>Administration\<close>

lemma aside_with_details: "aside s u \<Longrightarrow> aside s (snd (with_details now i u))"
  by (simp add: with_details_def split: sum.splits)

lemma aside_suspend: "aside s u \<Longrightarrow> aside s (snd (suspend_user now i a r u))"
  unfolding suspend_user_def set_status_def Let_def
  by (auto intro!: aside_with_details aside_audit aside_users split: option.splits)

lemma aside_restore: "aside s u \<Longrightarrow> aside s (snd (restore_user now i a u))"
  unfolding restore_user_def set_status_def Let_def
  by (auto intro!: aside_with_details aside_audit aside_users split: option.splits)

lemma aside_flag: "aside s u \<Longrightarrow> aside s (snd (upsert_flag now a k b d u))"
  unfolding upsert_flag_def Let_def by (auto intro!: aside_audit split: option.splits) (simp_all add: aside_def)

lemma aside_decisions:
  assumes "aside s u"
  shows "aside s (snd (admin_resolve_payment now a i b n u))"
    "aside s (snd (admin_decide_verification now a i b nt u))"
    "aside s (snd (admin_decide_claim now a i b nt u))"
  unfolding admin_resolve_payment_def admin_decide_verification_def admin_decide_claim_def Let_def
  using assms
  by (auto intro!: aside_then aside_resolve aside_decide_verification aside_decide_claim aside_audit)

lemmas aside_ops =
  aside_recompute aside_review aside_claim aside_submit_verification aside_initiate aside_webhook
  aside_customer_profile aside_create_address aside_set_default aside_delete_address aside_master_profile
  aside_add_master_media aside_delete_master_media aside_availability aside_plan aside_upgrade aside_figures
  aside_mark_read aside_verify_otp aside_login aside_request_otp aside_refresh aside_logout
  aside_reset aside_suspend aside_restore aside_flag aside_decisions

section \<open>Every route is a run\<close>

lemmas aside_ops_run = aside_ops [OF aside_refl, THEN aside_runs]

lemmas handler_states = answering_state pure_answer_state piped_state

lemma orders_route_runs:
  assumes "order_inv s"
  shows "runs s (snd (orders_controller ctx u q s))"
  by (cases q) (auto simp: handler_states aside_ops_run handler_runs cascading_runs [OF assms] status_filter_def
      split: option.splits prod.splits file_part.splits sum.splits)

lemma master_route_runs:
  assumes "order_inv s"
  shows "runs s (snd (master_controller ctx u q s))"
  by (cases q) (auto simp: handler_states aside_ops_run handler_runs cascading_runs [OF assms]
      split: option.splits prod.splits file_part.splits)

lemma master_more_route_runs: "runs s (snd (master_more_controller ctx u q s))"
  by (cases q) (auto simp: handler_states aside_ops_run handler_runs
      split: option.splits prod.splits file_part.splits)

lemma register_role: "parse_register r = Some d \<Longrightarrow> ri_role d \<noteq> ADMIN"
  by (auto simp: parse_register_def bind_eq_Some_conv signup_role_def)

lemma other_routes_aside:
  "aside s (snd (auth_controller ctx a s))" "aside s (snd (public_controller ctx b s))"
  "aside s (snd (me_controller ctx u c s))" "aside s (snd (notifications_controller ctx u d s))"
  "aside s (snd (admin_controller ctx u z s))"
  subgoal by (cases a) (auto simp: handler_states request_password_reset_def
      split: option.splits prod.splits intro: aside_ops aside_register dest: register_role)
  subgoal by (cases b) (auto simp: handler_states split: option.splits prod.splits intro: aside_ops)
  subgoal by (cases c) (auto simp: handler_states split: option.splits prod.splits intro: aside_ops)
  subgoal by (cases d) (auto simp: handler_states split: option.splits prod.splits intro: aside_ops)
  subgoal by (cases z) (auto simp: handler_states users_controller_list_def orders_controller_list_def
      audit_controller_list_def split: option.splits prod.splits intro: aside_ops)
  done

lemma for_user_state: "snd (for_user user f s) = (case user of None \<Rightarrow> s | Some c \<Rightarrow> snd (f (cl_id c) s))"
  by (simp add: for_user_def split: option.splits)

lemma serve_api_runs:
  assumes "order_inv s"
  shows "runs s (snd (serve_api ctx header q s))"
proof (cases rule: guarded_cases [of ctx "is_public q" "route_roles q" header "route_handler ctx q" s])
  case (passed user)
  then show ?thesis
    by (cases q) (auto simp: serve_api_def for_user_state orders_route_runs [OF assms] master_route_runs [OF assms]
        master_more_route_runs split: option.splits intro: aside_runs other_routes_aside)
qed (simp add: serve_api_def)

end
