(* ===== verification/ApiOwnership.thy ===== *)
theory ApiOwnership
  imports ApiService
begin

text \<open>
  Who can change an order through the interface: its customer, its master, and a master with an open
  offer of it.  Each handler is first shown to change at most the order it names.
\<close>

section \<open>At most one order changes\<close>

definition kept :: "id \<Rightarrow> db \<Rightarrow> db \<Rightarrow> bool" where
  "kept i s t = ((\<forall>x \<in> set (orders s). o_id x \<noteq> i \<longrightarrow> x \<in> set (orders t)) \<and> admins (users t) \<subseteq> admins (users s))"

lemma add_history_users [simp]: "users (add_history now i from to a n s) = users s"
  by (simp add: add_history_def)

lemma kept_refl [simp]: "kept i s s"
  by (simp add: kept_def)

lemma kept_same: "kept i s u \<Longrightarrow> orders v = orders u \<Longrightarrow> users v = users u \<Longrightarrow> kept i s v"
  by (simp add: kept_def)

lemma kept_aside: "kept i s u \<Longrightarrow> aside u v \<Longrightarrow> kept i s v"
  by (auto simp: kept_def aside_def)

lemma kept_update:
  assumes "kept i s u" "orders v = update_rows P f (orders u)" "users v = users u" "\<And>x. P x \<Longrightarrow> o_id x = i"
  shows "kept i s v"
proof -
  have "x \<in> set (orders v)" if "x \<in> set (orders u)" "o_id x \<noteq> i" for x
  proof -
    have "\<not> P x" using that(2) assms(4) by blast
    then show ?thesis using that(1) by (force simp: assms(2) update_rows_def)
  qed
  then show ?thesis using assms(1,3) by (auto simp: kept_def)
qed

lemma kept_cas:
  "kept i s u \<Longrightarrow> orders v = cas_rows o_id o_status i old f (orders u) \<Longrightarrow> users v = users u \<Longrightarrow> kept i s v"
  by (rule kept_update [where u = u and P = "\<lambda>x. o_id x = i \<and> o_status x = old" and f = f])
    (simp_all add: cas_rows_def)

lemma kept_then:
  "kept i s (snd r) \<Longrightarrow> (\<And>x u. kept i s u \<Longrightarrow> kept i s (snd (f x u))) \<Longrightarrow> kept i s (snd (and_then r f))"
  by (cases r rule: succeeded.cases) simp_all

lemma kept_transaction: "kept i s u \<Longrightarrow> kept i s (snd (body u)) \<Longrightarrow> kept i s (snd (transaction body u))"
  by (cases "body u"; cases "fst (body u)") (auto simp: transaction_def)

lemma kept_frames:
  "kept i s u \<Longrightarrow> kept i s (notify now c ty d u)" "kept i s u \<Longrightarrow> kept i s (emit_to_user c e u)"
  "kept i s u \<Longrightarrow> kept i s (add_history now j a b c' n u)" "kept i s u \<Longrightarrow> kept i s (count_job m u)"
  "kept i s u \<Longrightarrow> kept i s (deliver nt u)"
  by (simp_all add: kept_def count_job_def add_history_def)

lemma kept_transition_body: "kept i s u \<Longrightarrow> kept i s (snd (transition_body now i old c a n u))"
  by (rule kept_cas [where u = u and old = old and f = "apply_commit c"])
    (simp_all add: transition_body_def cas_order_def Let_def)

lemma kept_transition: "kept i s u \<Longrightarrow> kept i s (snd (transition now i old c a n u))"
  unfolding transition_def by (intro kept_transaction kept_transition_body)

lemma kept_recompute: "kept i s u \<Longrightarrow> kept i s (snd (recompute_trust_tier now m u))"
  by (erule kept_aside) (simp add: aside_recompute)

lemma kept_record_event: "kept i s u \<Longrightarrow> kept i s (snd (record_event now m ev ord n u))"
  by (erule kept_aside) (simp add: aside_record_event)

section \<open>The cascade\<close>

lemma kept_fail_search: "kept i s u \<Longrightarrow> kept i s (snd (fail_search now i reason u))"
proof -
  assume k: "kept i s u"
  have "kept i s (snd (cas_order i old (commit_to EXPIRED) u))" for old
    by (rule kept_cas [OF k, where old = old and f = "apply_commit (commit_to EXPIRED)"]) (simp_all add: cas_order_def)
  then show ?thesis using k
    by (auto simp: fail_search_def Let_def split: option.splits prod.splits intro!: kept_frames)
      (metis snd_conv)+
qed

lemma kept_cascade:
  "cascade_next n ctx i attempt u = Some r \<Longrightarrow> kept i s u \<Longrightarrow> kept i s (snd r)"
proof (induction n ctx i attempt u arbitrary: r rule: cascade_next.induct)
  case (2 n ctx i attempt u)
  have ins: "kept i s t" if "insert_offer d u = (res, t)" for d res t
    using that "2.prems"(2) by (auto simp: insert_offer_def kept_def split: if_splits)
  have ann: "kept i s (announce_offer ctx ttl d t)" if "kept i s t" for ttl d t
    using that by (simp add: announce_offer_def kept_def Let_def)
  show ?case
    using 2 ins ann
    by (auto simp: Let_def kept_fail_search split: cascade_decision.splits option.splits prod.splits sum.splits)
qed simp

lemma kept_run_cascade: "kept i s u \<Longrightarrow> kept i s (snd (run_cascade ctx i u))"
  using kept_cascade [of 2 ctx i 1 u _ s] by (simp add: run_cascade_def split: option.splits)

section \<open>Handlers of a customer\<close>

text \<open>
  \<open>spares P s t\<close>: nobody became an administrator, and no order with \<open>P\<close> changed.  What changes only the
  order that was found spares the orders of everybody else.
\<close>

definition spares :: "(order_row \<Rightarrow> bool) \<Rightarrow> db \<Rightarrow> db \<Rightarrow> bool" where
  "spares P s t = (admins (users t) \<subseteq> admins (users s)
     \<and> (order_inv s \<longrightarrow> (\<forall>x \<in> set (orders s). P x \<longrightarrow> x \<in> set (orders t))))"

lemma spares_refl [simp]: "spares P s s"
  by (simp add: spares_def)

lemma aside_spares: "aside s t \<Longrightarrow> spares P s t"
  by (simp add: aside_def spares_def)

lemma spares_mono: "spares P s t \<Longrightarrow> (\<And>x. Q x \<Longrightarrow> P x) \<Longrightarrow> spares Q s t"
  by (auto simp: spares_def)

lemma kept_spares:
  assumes "kept i s t" "\<And>x. order_inv s \<Longrightarrow> x \<in> set (orders s) \<Longrightarrow> P x \<Longrightarrow> o_id x \<noteq> i"
  shows "spares P s t"
  using assms by (auto simp: kept_def spares_def)

lemma order_with_id: "order_inv s \<Longrightarrow> x \<in> set (orders s) \<Longrightarrow> find_order i s = Some y \<Longrightarrow> o_id x = i \<Longrightarrow> x = y"
  using find_row_key_unique [OF inv_keys] find_order_id by metis

lemma spared_owned:
  assumes "\<And>y. find_order i s = Some y \<Longrightarrow> o_id y = i \<Longrightarrow> kept i s (snd (f y s))"
  shows "spares (\<lambda>x. o_customer x \<noteq> c) s (snd (with_order (get_owned c i s) f s))"
proof (cases "get_owned c i s")
  case (Inr y)
  then have y: "find_order i s = Some y" "o_customer y = c" by (auto simp: get_owned_Inr)
  then have "kept i s (snd (f y s))" using assms find_order_id by blast
  then show ?thesis using Inr y order_with_id by (auto simp: with_order_def intro!: kept_spares)
qed (simp add: with_order_def)

lemma spared_by_master:
  assumes "\<And>y. find_order i s = Some y \<Longrightarrow> o_id y = i \<Longrightarrow> kept i s (snd (f y s))"
  shows "spares (\<lambda>x. o_master x \<noteq> Some m) s (snd (with_order (get_owned_by_master m i s) f s))"
proof (cases "get_owned_by_master m i s")
  case (Inr y)
  then have y: "find_order i s = Some y" "o_master y = Some m" by (auto simp: get_owned_by_master_Inr)
  then have "kept i s (snd (f y s))" using assms find_order_id by blast
  then show ?thesis using Inr y order_with_id by (auto simp: with_order_def intro!: kept_spares)
qed (simp add: with_order_def)

lemma kept_check: "kept i s u \<Longrightarrow> kept i s (snd (f u)) \<Longrightarrow> kept i s (snd (check e f u))"
  by (simp add: check_def split: option.splits)

lemma kept_edit: "kept i s u \<Longrightarrow> o_id y = i \<Longrightarrow> kept i s (edit_commit now c y d u)"
  by (auto simp: edit_commit_def intro!: kept_frames elim: kept_update)

lemma kept_diagnose_commit: "kept i s u \<Longrightarrow> o_id y = i \<Longrightarrow> kept i s (diagnose_commit now c y cat d q u)"
  by (auto simp: diagnose_commit_def intro!: kept_frames elim: kept_update)

lemma kept_submit_commit: "kept i s u \<Longrightarrow> o_id y = i \<Longrightarrow> kept i s (submit_commit now c y u)"
  by (auto simp: submit_commit_def intro!: kept_frames elim: kept_update)

lemma kept_save_media: "kept i s u \<Longrightarrow> kept i s (snd (save_media_file e y n b mime who u))"
  by (simp add: kept_def save_media_file_def Let_def split: sum.splits)

lemma spared_update: "spares (\<lambda>x. o_customer x \<noteq> c) s (snd (update_draft now c i d s))"
  unfolding update_draft_def by (rule spared_owned) (simp add: kept_check kept_edit)

lemma spared_add_media: "spares (\<lambda>x. o_customer x \<noteq> c) s (snd (add_media e c i b mime s))"
  unfolding add_media_def by (rule spared_owned) (simp add: kept_save_media)

lemma spared_delete_media: "spares (\<lambda>x. o_customer x \<noteq> c) s (snd (delete_media c i m s))"
  unfolding delete_media_def by (rule spared_owned) (simp add: kept_def split: option.splits)

lemma spared_diagnose: "spares (\<lambda>x. o_customer x \<noteq> c) s (snd (diagnose ctx c i s))"
  unfolding diagnose_def
  by (rule spared_owned) (simp add: Let_def kept_diagnose_commit split: option.splits)

lemma spared_submit: "spares (\<lambda>x. o_customer x \<noteq> c) s (snd (submit ctx c i s))"
  unfolding submit_def start_dispatch_def
  by (rule spared_owned) (simp add: Let_def kept_check kept_run_cascade kept_submit_commit)

lemma spared_cancel: "spares (\<lambda>x. o_customer x \<noteq> c) s (snd (cancel now c i s))"
  unfolding cancel_def cancel_commit_def by (rule spared_owned) (auto intro: kept_transition)

lemma spared_confirm: "spares (\<lambda>x. o_customer x \<noteq> c) s (snd (confirm_completion now c i s))"
  unfolding confirm_completion_def confirm_tx_def Let_def
  by (rule spared_owned)
    (auto split: option.splits intro!: kept_then kept_transaction kept_transition_body kept_recompute kept_frames)

lemma spared_create: "spares (\<lambda>x. o_customer x \<noteq> c) s (snd (create_draft now c' cat d s))"
  by (simp add: spares_def create_draft_def check_def add_history_def Let_def split: option.splits)

lemmas spared_customer =
  spared_update spared_add_media spared_delete_media spared_diagnose spared_submit spared_cancel spared_confirm

lemmas aside_ops_spare = aside_ops [OF aside_refl, THEN aside_spares]

lemma orders_route_spares: "spares (\<lambda>x. o_customer x \<noteq> u) s (snd (orders_controller ctx u q s))"
  by (cases q) (auto simp: handler_states spared_customer spared_create status_filter_def aside_ops_spare
      split: option.splits prod.splits file_part.splits sum.splits)

section \<open>Handlers of a master\<close>

lemma spared_job_media: "spares (\<lambda>x. o_master x \<noteq> Some m) s (snd (add_job_media e m i b mime s))"
  unfolding add_job_media_def by (rule spared_by_master) (simp add: kept_save_media)

lemma kept_by_master: "o_id y = i \<Longrightarrow> kept i s u \<Longrightarrow> kept i s (snd (transition_by_master now y st m u))"
  unfolding transition_by_master_def by (auto intro!: kept_then kept_transition kept_frames)

lemma spared_en_route: "spares (\<lambda>x. o_master x \<noteq> Some m) s (snd (start_en_route now m i s))"
  unfolding start_en_route_def by (rule spared_by_master) (simp add: kept_by_master)

lemma spared_start: "spares (\<lambda>x. o_master x \<noteq> Some m) s (snd (start_service now m i s))"
  unfolding start_service_def by (rule spared_by_master) (simp add: kept_by_master)

lemma spared_complete: "spares (\<lambda>x. o_master x \<noteq> Some m) s (snd (complete_service now m i a s))"
  unfolding complete_service_def complete_commit_def
  by (rule spared_by_master) (auto intro!: kept_check kept_then kept_transition kept_frames)

lemma spared_cancel_by_master: "spares (\<lambda>x. o_master x \<noteq> Some m) s (snd (cancel_by_master now m i r s))"
  unfolding cancel_by_master_def Let_def
  by (rule spared_by_master) (auto intro!: kept_then kept_transition kept_record_event kept_frames)

text \<open>Answers to an offer change only the order the open offer is for.\<close>

definition offered_to :: "id \<Rightarrow> id \<Rightarrow> db \<Rightarrow> bool" where
  "offered_to m i s = (\<exists>d \<in> set (dispatches s). d_order d = i \<and> d_master d = m \<and> d_status d = D_OFFERED)"

lemma kept_accept: "kept i s u \<Longrightarrow> kept i s (snd (accept_tx now did m i u))"
  by (auto simp: accept_tx_def create_record_def Let_def split: option.splits
      intro!: kept_frames elim!: kept_update)

lemma kept_answer: "kept i s u \<Longrightarrow> kept i s (snd (answer_offer now did st u))"
  by (simp add: answer_offer_def kept_def)

lemma spared_accept: "spares (\<lambda>x. \<not> offered_to m (o_id x) s) s (snd (accept_offer now did m s))"
proof (cases "find_dispatch did s")
  case (Some d)
  have d: "d \<in> set (dispatches s)" using find_dispatch_id [OF Some] by simp
  show ?thesis
  proof (cases "d_master d = m \<and> d_status d = D_OFFERED")
    case True
    have "kept (d_order d) s (snd (transaction (accept_tx now did m (d_order d)) s))"
      by (intro kept_transaction kept_accept) simp_all
    then have "kept (d_order d) s (snd (accept_offer now did m s))"
      using Some by (auto simp: accept_offer_def intro!: kept_then kept_frames)
    then show ?thesis using True d by (auto simp: offered_to_def intro!: kept_spares)
  next
    case False
    have "\<exists>e. accept_tx now did m (d_order d) s = raise e s" if "d_status d \<noteq> D_OFFERED"
      using Some that by (auto simp: accept_tx_def split: option.splits)
    with False have "snd (accept_offer now did m s) = s"
      using Some by (cases "d_master d = m") (auto simp: accept_offer_def)
    then show ?thesis by simp
  qed
qed (simp add: accept_offer_def)

lemma open_answer:
  assumes "order_inv s" "find_dispatch did s = Some d" "d_status d \<noteq> D_OFFERED"
  shows "cas_count d_id d_status did D_OFFERED (dispatches s) = 0"
proof -
  have "distinct (map d_id (dispatches s))" using assms(1) by (simp add: order_inv_def keys_ok_def)
  then have "\<not> (d_id e = did \<and> d_status e = D_OFFERED)" if "e \<in> set (dispatches s)" for e
    using find_row_key_unique [of d_id "dispatches s" e d] find_dispatch_id [OF assms(2)] assms(3) that by metis
  then show ?thesis by (simp add: cas_count_def update_count_def filter_empty_conv)
qed

lemma spared_decline: "spares (\<lambda>x. \<not> offered_to m (o_id x) s) s (snd (decline_offer ctx did m s))"
proof (cases "find_dispatch did s")
  case (Some d)
  have d: "d \<in> set (dispatches s)" using find_dispatch_id [OF Some] by simp
  have k: "kept (d_order d) s (snd (decline_offer ctx did m s))"
    using Some kept_run_cascade [OF kept_answer [OF kept_refl]]
    by (simp add: decline_offer_def split: prod.splits) (metis snd_conv)
  show ?thesis
  proof (cases "d_master d = m \<and> d_status d = D_OFFERED")
    case True
    then show ?thesis using k d by (auto simp: offered_to_def intro!: kept_spares)
  next
    case False
    then have "snd (decline_offer ctx did m s) = s" if "order_inv s"
      using Some open_answer [OF that Some] by (auto simp: decline_offer_def answer_offer_def)
    with k show ?thesis by (auto simp: spares_def kept_def)
  qed
qed (simp add: decline_offer_def)

lemma kept_expiry: "kept (d_order d) s (snd (run_cascade ctx (d_order d) u))" if "aside s u"
  by (rule kept_run_cascade) (rule kept_aside [OF kept_refl that])

section \<open>The whole interface\<close>

text \<open>Whoever changes an order is its customer, its master, or holds an open offer of it.\<close>

definition entitled :: "id \<Rightarrow> order_row \<Rightarrow> db \<Rightarrow> bool" where
  "entitled u x s = (o_customer x = u \<or> o_master x = Some u \<or> offered_to u (o_id x) s)"

lemma spares_entitled:
  "spares (\<lambda>x. o_customer x \<noteq> u) s t \<Longrightarrow> spares (\<lambda>x. \<not> entitled u x s) s t"
  "spares (\<lambda>x. o_master x \<noteq> Some u) s t \<Longrightarrow> spares (\<lambda>x. \<not> entitled u x s) s t"
  "spares (\<lambda>x. \<not> offered_to u (o_id x) s) s t \<Longrightarrow> spares (\<lambda>x. \<not> entitled u x s) s t"
  by (erule spares_mono, simp add: entitled_def)+

lemmas spared_master =
  spared_job_media [THEN spares_entitled(2)] spared_en_route [THEN spares_entitled(2)]
  spared_start [THEN spares_entitled(2)] spared_complete [THEN spares_entitled(2)]
  spared_cancel_by_master [THEN spares_entitled(2)]
  spared_accept [THEN spares_entitled(3)] spared_decline [THEN spares_entitled(3)]

lemma master_routes_spare:
  "spares (\<lambda>x. \<not> entitled u x s) s (snd (master_controller ctx u q s))"
  "spares (\<lambda>x. \<not> entitled u x s) s (snd (master_more_controller ctx u r s))"
  subgoal by (cases q) (auto simp: handler_states spared_master aside_ops_spare
      split: option.splits prod.splits file_part.splits)
  subgoal by (cases r) (auto simp: handler_states spared_master aside_ops_spare
      split: option.splits prod.splits file_part.splits)
  done

lemmas other_routes_spare = other_routes_aside [THEN aside_spares]

text \<open>\<open>caller\<close> is the account whose token opened the route, if it needed one.\<close>

lemma serve_api_spares:
  obtains (unchanged) "snd (serve_api ctx header q s) = s"
  | (public) "is_public q" "aside s (snd (serve_api ctx header q s))"
  | (caller) h c where "header = Some h" "ap_read ctx (drop (length bearer_prefix) h) = Some c"
      "\<not> blocked (cl_status c)" "spares (\<lambda>x. \<not> entitled (cl_id c) x s) s (snd (serve_api ctx header q s))"
proof (cases rule: guarded_cases [of ctx "is_public q" "route_roles q" header "route_handler ctx q" s])
  case (refused e)
  then show thesis using unchanged by (simp add: serve_api_def)
next
  case (passed user)
  have t: "snd (serve_api ctx header q s) = snd (route_handler ctx q user s)" using passed by (simp add: serve_api_def)
  show thesis
  proof (cases "is_public q")
    case True
    then have "aside s (snd (route_handler ctx q user s))" by (cases q) (auto simp: other_routes_aside)
    with True t show thesis using public by simp
  next
    case False
    from passed_jwt [OF passed(2) this] obtain h c where
      h: "header = Some h" "ap_read ctx (drop (length bearer_prefix) h) = Some c" "\<not> blocked (cl_status c)" "user = Some c" .
    have "spares (\<lambda>x. \<not> entitled (cl_id c) x s) s (snd (route_handler ctx q user s))"
      using False h(4)
      by (cases q) (simp_all add: for_user_def orders_route_spares [THEN spares_entitled(1)] master_routes_spare
          other_routes_spare)
    with h t show thesis using caller by simp
  qed
qed

lemma serve_api_admins: "admins (users (snd (serve_api ctx header q s))) \<subseteq> admins (users s)"
  by (cases rule: serve_api_spares [of ctx header q s]) (auto simp: aside_def spares_def)

end
