(* ===== verification/Platform.thy ===== *)
theory Platform
  imports ApiOwnership
begin

text \<open>
  Everything that drives the server: requests, the job that fires when an offer runs out
  (\<open>modules/dispatch/dispatch.worker.ts\<close>), and positions sent over the socket.  A list of events,
  each with its own clock, configuration and providers, is a run of the order system.
\<close>

datatype event =
    Http api_ctx "string option" api_request
  | Offer_Job dispatch_ctx id
  | Position gateway_ctx "string option" rat rat

fun serve_event :: "event \<Rightarrow> db \<Rightarrow> db" where
  "serve_event (Http ctx header q) s = snd (serve_api ctx header q s)"
| "serve_event (Offer_Job ctx did) s = snd (handle_offer_expiry ctx did s)"
| "serve_event (Position ctx token lat lng) s = handle_location_update (handle_connection ctx token) lat lng s"

definition serve_events :: "event list \<Rightarrow> db \<Rightarrow> db" where
  "serve_events es s = foldl (\<lambda>s e. serve_event e s) s es"

lemma serve_events_simps [simp]:
  "serve_events [] s = s" "serve_events (e # es) s = serve_events es (serve_event e s)"
  "serve_events (es @ fs) s = serve_events fs (serve_events es s)"
  by (simp_all add: serve_events_def)

lemma position_aside: "aside s (handle_location_update u lat lng s)"
  by (simp add: aside_def handle_location_update_def split: option.splits)

lemma serve_event_runs: "order_inv s \<Longrightarrow> runs s (serve_event e s)"
  by (cases e) (simp_all add: serve_api_runs cascading_runs aside_runs position_aside)

lemma serve_events_runs: "order_inv s \<Longrightarrow> runs s (serve_events es s)"
proof (induction es arbitrary: s)
  case (Cons e es)
  then have "runs s (serve_event e s)" "order_inv (serve_event e s)"
    using serve_event_runs runs_inv by blast+
  with Cons.IH show ?case by (auto intro: runs_trans)
qed simp

lemma expiry_admins: "admins (users (snd (handle_offer_expiry ctx did s))) \<subseteq> admins (users s)"
proof -
  let ?t = "snd (answer_offer (dc_now ctx) did D_EXPIRED s)"
  have t: "users ?t = users s" by (simp add: answer_offer_def)
  have "kept i ?t (snd (and_then (record_event now m ev ord nt (notify now' m' ty d ?t)) (\<lambda>_ u. run_cascade ctx i u)))"
    for i now m ev ord nt now' m' ty d
    by (intro kept_then kept_record_event kept_run_cascade kept_frames) simp_all
  then show ?thesis using t
    by (auto simp: handle_offer_expiry_def Let_def kept_def split: prod.splits option.splits) blast+
qed

lemma serve_event_admins: "admins (users (serve_event e s)) \<subseteq> admins (users s)"
proof (cases e)
  case (Position ctx token lat lng)
  then show ?thesis using position_aside by (simp add: aside_def)
qed (use serve_api_admins expiry_admins in simp_all)

section \<open>A job that runs twice\<close>

text \<open>The queue runs a failed job again.  The first run has already closed the offer, so the second stops at
  once, also when the first one failed before it went on to the next master.\<close>

definition no_open_offer :: "id \<Rightarrow> db \<Rightarrow> bool" where
  "no_open_offer did s = (\<forall>d \<in> set (dispatches s). d_id d = did \<longrightarrow> d_status d \<noteq> D_OFFERED)"

lemma retry_stops: "no_open_offer did s \<Longrightarrow> handle_offer_expiry ctx did s = ok () s"
  by (auto simp: handle_offer_expiry_def answer_offer_def cas_count_def update_count_def no_open_offer_def
      filter_empty_conv)

definition later :: "id \<Rightarrow> db \<Rightarrow> bool" where
  "later did s = (no_open_offer did s \<and> did < next_id s)"

lemma answered:
  assumes "e \<in> set (cas_rows d_id d_status did D_OFFERED (apply_answer a) ds)" "oa_status a \<noteq> D_OFFERED" "d_id e = did"
  shows "d_status e \<noteq> D_OFFERED"
proof -
  obtain d where "e = (if d_id d = did \<and> d_status d = D_OFFERED then apply_answer a d else d)"
    using assms(1) unfolding cas_rows_def set_update_rows by blast
  then show ?thesis using assms(2,3)
    by (cases "d_id d = did"; cases "d_status d = D_OFFERED") (simp_all add: apply_answer_def)
qed

lemma later_answer:
  assumes "did < next_id s"
  shows "later did (snd (answer_offer now did D_EXPIRED s))"
proof -
  let ?t = "snd (answer_offer now did D_EXPIRED s)"
  have "dispatches ?t = cas_rows d_id d_status did D_OFFERED (apply_answer \<lparr>oa_status = D_EXPIRED, oa_at = now\<rparr>) (dispatches s)"
    "next_id ?t = next_id s"
    by (simp_all add: answer_offer_def)
  then show ?thesis unfolding later_def no_open_offer_def using assms answered
    by (metis dispatch_status.distinct offer_answer.select_convs(1))
qed

lemma later_frames:
  "later did s \<Longrightarrow> later did (notify now u ty d s)" "later did s \<Longrightarrow> later did (emit_to_user u e s)"
  by (simp_all add: later_def no_open_offer_def)

lemma later_aside: "later did s \<Longrightarrow> aside s t \<Longrightarrow> later did t"
  by (simp add: later_def no_open_offer_def aside_def)

lemma later_fail_search: "later did s \<Longrightarrow> later did (snd (fail_search now i reason s))"
  by (simp add: later_def no_open_offer_def fail_search_def cas_order_def Let_def add_history_def split: option.splits)

lemma later_cascade: "cascade_next n ctx i attempt s = Some r \<Longrightarrow> later did s \<Longrightarrow> later did (snd r)"
proof (induction n ctx i attempt s arbitrary: r rule: cascade_next.induct)
  case (2 n ctx i attempt s)
  have ins: "later did t" if "insert_offer (new_offer ctx i ttl (next_id s) c rank) s = (res, t)" for ttl c rank res t
    using that "2.prems"(2)
    by (auto simp: insert_offer_def later_def no_open_offer_def new_offer_def split: if_splits)
  have ann: "later did (announce_offer ctx ttl d t)" if "later did t" for ttl d t
    using that by (simp add: announce_offer_def later_def no_open_offer_def Let_def)
  show ?case
    using 2 ins ann
    by (auto simp: Let_def later_fail_search split: cascade_decision.splits option.splits prod.splits sum.splits)
qed simp

lemma later_run_cascade: "later did s \<Longrightarrow> later did (snd (run_cascade ctx i s))"
  using later_cascade [of 2 ctx i 1 s _ did] by (simp add: run_cascade_def split: option.splits)

lemma later_then:
  "later did (snd r) \<Longrightarrow> (\<And>x u. later did u \<Longrightarrow> later did (snd (f x u))) \<Longrightarrow> later did (snd (and_then r f))"
  by (cases r rule: succeeded.cases) simp_all

lemma later_record_event: "later did s \<Longrightarrow> later did (snd (record_event now m ev ord nt s))"
  by (erule later_aside) (simp add: aside_record_event)

lemma later_expiry:
  assumes "order_inv s"
  shows "no_open_offer did (snd (handle_offer_expiry ctx did s))"
proof (cases "no_open_offer did s")
  case False
  then obtain d where d: "d \<in> set (dispatches s)" "d_id d = did" "d_status d = D_OFFERED"
    by (auto simp: no_open_offer_def)
  then have n: "did < next_id s" using assms by (auto simp: order_inv_def keys_ok_def)
  have c: "cas_count d_id d_status did D_OFFERED (dispatches s) \<noteq> 0"
    using d by (auto simp: cas_count_def update_count_def filter_empty_conv)
  have "later did (snd (handle_offer_expiry ctx did s))"
    using c later_answer [OF n, of "dc_now ctx"]
    by (auto simp: handle_offer_expiry_def answer_offer_def Let_def split: option.splits
        intro!: later_then later_record_event later_run_cascade later_frames)
  then show ?thesis by (simp add: later_def)
qed (simp add: retry_stops)

end
