(* ===== verification/Api_Properties.thy ===== *)
theory Api_Properties
  imports Example Platform
begin

text \<open>Properties of the whole server: what requests, jobs and sockets together can and cannot do.\<close>

section \<open>A small server\<close>

definition demo_api :: "time \<Rightarrow> api_ctx" where
  "demo_api now = \<lparr>ap_formats = id_formats,
     ap_read = (\<lambda>t. if t = ''customer'' then Some \<lparr>cl_id = 1, cl_role = CUSTOMER, cl_status = U_ACTIVE, cl_verification = None\<rparr>
                    else if t = ''admin'' then Some \<lparr>cl_id = 9, cl_role = ADMIN, cl_status = U_ACTIVE, cl_verification = None\<rparr>
                    else None),
     ap_geo = (\<lambda>_ _. 1500), ap_order = demo_ctx now,
     ap_auth = \<lparr>ax_env = demo_env, ax_now = now, ax_redis_up = True, ax_hash = (\<lambda>x. x), ax_verify = (\<lambda>h x. h = x),
        ax_code = 123456, ax_sms_ok = True, ax_random8 = (\<lambda>_. []), ax_refresh = ''r'', ax_sha = (\<lambda>x. x),
        ax_sign = (\<lambda>_ _. ''t'')\<rparr>,
     ap_users = \<lparr>uc_now = now, uc_encrypt = (\<lambda>x. x)\<rparr>,
     ap_pay = \<lparr>pc_env = demo_env, pc_now = now,
        pc_charge = (\<lambda>_. \<lparr>cr_success = True, cr_ref = ''ref'', cr_failure = None\<rparr>)\<rparr>\<rparr>"

lemma bearer_length [simp]: "length bearer_prefix = 7"
  by (simp add: bearer_prefix_def)

section \<open>Composition\<close>

text \<open>C8: whatever requests, offer jobs and socket positions reach the server, each with its own clock,
  configuration, token and providers, what they do to the orders is one run of the order system.\<close>

theorem server_refines_steps:
  assumes "no_orders s"
  shows "\<exists>rs. reachable False (serve_events es s, rs)"
proof -
  have "runs s (serve_events es s)" by (rule serve_events_runs) (rule no_orders_inv [OF assms])
  moreover have "reachable False (s, [])" using assms by (auto simp: reachable_def)
  ultimately show ?thesis by (rule reachable_runs [rotated])
qed

theorem server_refines_steps_witness:
  "\<exists>rs. reachable False (serve_events [Http (demo_api 1000) (Some ''Bearer customer'') (A_Orders (O_Create None ''kran oqyapti''))] demo_db, rs)"
  by (rule server_refines_steps) (rule demo_no_orders)

section \<open>Access\<close>




definition demo_open :: event where
  "demo_open = Http (demo_api 1000) (Some ''Bearer customer'') (A_Orders (O_Create (Some ''A'') ''kran oqyapti''))"

lemma demo_open_state: "serve_event demo_open demo_db = serve (demo_ctx 1000) (Rq_Create 1 (Some 10) ''kran oqyapti'') demo_db"
  by (simp add: demo_open_def demo_api_def serve_api_def guarded_by_def jwt_auth_guard_def roles_guard_def bearer_prefix_def
      starts_with_def blocked_def for_user_def handler_states parse_order_create_def id_formats_def base36_digit_value_def
      is_digit_def trimmed_def sized_def trim_def is_space_def guarded_def demo_ctx_def)


text \<open>C18: nobody becomes an administrator through the server: after any events every administrator already
  was one.\<close>

theorem no_new_administrators:
  assumes "r \<in> set (users (serve_events es s))" "u_role r = ADMIN"
  shows "\<exists>q \<in> set (users s). u_id q = u_id r \<and> u_role q = ADMIN"
proof -
  have "admins (users (serve_events es s)) \<subseteq> admins (users s)"
  proof (induction es arbitrary: s)
    case (Cons e es)
    show ?case using Cons [of "serve_event e s"] serve_event_admins [of e s] by auto
  qed simp
  moreover have "u_id r \<in> admins (users (serve_events es s))" using assms by (auto simp: admins_def)
  ultimately have "u_id r \<in> admins (users s)" by blast
  then show ?thesis by (auto simp: admins_def)
qed

theorem no_new_administrators_witness:
  "\<exists>q \<in> set (users (demo_db\<lparr>users := [demo_user 9 ''+998900000009'' ADMIN]\<rparr>)). u_id q = 9 \<and> u_role q = ADMIN"
proof -
  let ?s = "demo_db\<lparr>users := [demo_user 9 ''+998900000009'' ADMIN]\<rparr>"
  let ?e = "Http (demo_api 1000) None (A_Auth (U_Register \<lparr>rr_phone = ''+998900000008'', rr_password = ''secret-8'',
    rr_role = Some ADMIN, rr_locale = None, rr_code = None\<rparr>))"
  have "serve_events [?e] ?s = ?s"
    by (simp add: serve_api_def guarded_by_def jwt_auth_guard_def roles_guard_def handler_states parse_register_def
        signup_role_def or_default_def guarded_def split: option.splits Option.bind_splits)
  then have "demo_user 9 ''+998900000009'' ADMIN \<in> set (users (serve_events [?e] ?s))" by simp
  then show ?thesis using no_new_administrators [of "demo_user 9 ''+998900000009'' ADMIN" "[?e]" ?s]
    by (simp add: demo_user_def)
qed

definition traced :: "time \<Rightarrow> id \<Rightarrow> db \<Rightarrow> db \<Rightarrow> bool" where
  "traced now u s t = (\<exists>a. audit_logs t = audit_logs s @ [a] \<and> al_actor a = u \<and> al_at a = now)"

lemma traced_record: "audit_logs v = audit_logs s \<Longrightarrow> traced now u s (record_audit now u act e i b a v)"
  by (simp add: traced_def record_audit_def)

lemma traced_decisions:
  "admin_decide_verification now u i b nt s = (Inr v, t) \<Longrightarrow> traced now u s t"
  "admin_decide_claim now u i b nt s = (Inr c, t) \<Longrightarrow> traced now u s t"
  "admin_resolve_payment now u i b n s = (Inr p, t) \<Longrightarrow> traced now u s t"
  by (auto simp: admin_decide_verification_def admin_decide_claim_def admin_resolve_payment_def Let_def and_then_Inr
      intro!: traced_record dest: decide_verification_audit decide_claim_audit resolve_audit)

lemma with_details_Inr: "with_details now i s = (Inr d, t) \<Longrightarrow> t = s"
  by (auto simp: with_details_def split: sum.splits)

lemma traced_users:
  "suspend_user now i u r s = (Inr d, t) \<Longrightarrow> traced now u s t"
  "restore_user now i u s = (Inr d, t) \<Longrightarrow> traced now u s t"
  by (auto simp: suspend_user_def restore_user_def set_status_def Let_def
      intro!: traced_record dest!: with_details_Inr split: if_splits option.splits)

lemma traced_flag: "traced now u s (snd (upsert_flag now u k b d s))"
  unfolding upsert_flag_def Let_def snd_conv by (rule traced_record) (simp split: option.splits)

lemma answering_Inr: "answering w f s = (Inr r, t) \<longleftrightarrow> (\<exists>x. f s = (Inr x, t) \<and> r = w x)"
  by (auto simp: answering_def and_then_Inr)

lemma reads_Inr:
  "looking_up w g s = (Inr r, t) \<Longrightarrow> t = s" "reading x s = (Inr r, t) \<Longrightarrow> t = s"
  by (auto simp: looking_up_def reading_def split: sum.splits)

lemma pure_answer_Inr: "pure_answer w h s = (Inr r, t) \<Longrightarrow> t = snd (h s)"
  by (auto simp: pure_answer_def split: prod.splits)

lemma piped_Inr: "piped p k s = (Inr r, t) \<longleftrightarrow> (\<exists>x. p = Some x \<and> k x s = (Inr r, t))"
  by (auto simp: piped_def split: option.splits)

text \<open>C19: what an administrator changes leaves a trace: a successful request either changed nothing, or
  appended exactly one entry to the audit trail, in his name and with the time of the request.\<close>

theorem administrators_leave_a_trace:
  assumes "admin_controller ctx u q s = (Inr r, t)"
  shows "t = s \<or> (\<exists>a. audit_logs t = audit_logs s @ [a] \<and> al_actor a = u \<and> al_at a = api_now ctx)"
proof -
  have "t = s \<or> traced (api_now ctx) u s t"
    using assms
    by (cases q) (auto simp: piped_Inr answering_Inr users_controller_list_def orders_controller_list_def
        audit_controller_list_def traced_flag dest: reads_Inr traced_decisions traced_users pure_answer_Inr)
  then show ?thesis by (simp add: traced_def)
qed

theorem administrators_leave_a_trace_witness:
  "\<exists>r t. admin_controller (demo_api 1000) 9 (Z_Set_Flag ''beta'' True None) demo_db = (Inr r, t) \<and> length (audit_logs t) = 1"
proof -
  let ?x = "admin_controller (demo_api 1000) 9 (Z_Set_Flag ''beta'' True None) demo_db"
  obtain r t where x: "?x = (Inr r, t)" "flags t \<noteq> flags demo_db"
    by (simp add: piped_def parse_flag_def trimmed_def sized_def trim_def is_space_def guarded_def flag_char_def is_digit_def
        pure_answer_def upsert_flag_def Let_def demo_db_def empty_db_def record_audit_def)
  then have "t \<noteq> demo_db" by auto
  then have "length (audit_logs t) = 1"
    using administrators_leave_a_trace [OF x(1)] by (auto simp: demo_db_def empty_db_def)
  with x show ?thesis by blast
qed

section \<open>Jobs\<close>

text \<open>The job of an offer does its work once: whatever it did or whether it failed half way, running it
  again for the same offer changes nothing.  So when the first run fails after it closed the offer, the
  repeated runs of the queue do not go on to the next master.\<close>

theorem offer_job_is_not_resumed:
  assumes "no_orders s0" "s = serve_events es s0"
  shows "serve_event (Offer_Job ctx' did) (serve_event (Offer_Job ctx did) s) = serve_event (Offer_Job ctx did) s"
proof -
  have "order_inv s" unfolding assms(2) using serve_events_runs runs_inv no_orders_inv [OF assms(1)] by blast
  then show ?thesis using retry_stops [OF later_expiry] by simp
qed

theorem offer_job_is_not_resumed_witness:
  "serve_event (Offer_Job (demo_dispatch 9000) 104) (serve_event (Offer_Job (demo_dispatch 8000) 104) (serve_events [demo_open] demo_db))
   = serve_event (Offer_Job (demo_dispatch 8000) 104) (serve_events [demo_open] demo_db)"
  by (rule offer_job_is_not_resumed [OF demo_no_orders refl])

section \<open>Types of the input\<close>

definition well_trimmed :: "nat \<Rightarrow> nat \<Rightarrow> string \<Rightarrow> bool" where
  "well_trimmed lo hi x = (trim x = x \<and> lo \<le> length x \<and> length x \<le> hi)"

definition maybe :: "('a \<Rightarrow> bool) \<Rightarrow> 'a option \<Rightarrow> bool" where
  "maybe P x = (case x of None \<Rightarrow> True | Some y \<Rightarrow> P y)"

definition on_globe :: "rat \<Rightarrow> rat \<Rightarrow> bool" where
  "on_globe lat lng = (- 90 \<le> lat \<and> lat \<le> 90 \<and> - 180 \<le> lng \<and> lng \<le> 180)"

definition register_typed :: "register_input \<Rightarrow> bool" where
  "register_typed d = (uz_phone (ri_phone d) \<and> 8 \<le> length (ri_password d) \<and> length (ri_password d) \<le> 128
     \<and> ri_role d \<noteq> ADMIN \<and> maybe (well_trimmed 1 20) (ri_referred_by d))"

definition address_typed :: "address_input \<Rightarrow> bool" where
  "address_typed d = (well_trimmed 1 60 (ad_label d) \<and> well_trimmed 3 300 (ad_text d) \<and> on_globe (ad_lat d) (ad_lng d))"

definition area_typed :: "area_input \<Rightarrow> bool" where
  "area_typed d = (well_trimmed 1 60 (ar_label d) \<and> on_globe (ar_lat d) (ar_lng d)
     \<and> 500 \<le> ar_radius d \<and> ar_radius d \<le> 50000)"

definition profile_typed :: "formats \<Rightarrow> master_profile_update \<Rightarrow> bool" where
  "profile_typed fm d = (well_trimmed 2 120 (mu_name d) \<and> maybe (fm_url fm) (mu_avatar d)
     \<and> 0 \<le> mu_years d \<and> mu_years d \<le> 70 \<and> maybe (well_trimmed 0 1000) (mu_bio d)
     \<and> length (mu_skills d) \<le> 20 \<and> length (mu_areas d) \<le> 10 \<and> list_all area_typed (mu_areas d)
     \<and> maybe (\<lambda>p. length p = 14 \<and> list_all is_digit p) (mu_pinfl d))"

definition update_typed :: "order_update \<Rightarrow> bool" where
  "update_typed d = (maybe (well_trimmed 5 2000) (ou_description d) \<and> maybe (well_trimmed 3 300) (ou_address d)
     \<and> maybe (\<lambda>x. - 90 \<le> x \<and> x \<le> 90) (ou_lat d) \<and> maybe (\<lambda>x. - 180 \<le> x \<and> x \<le> 180) (ou_lng d))"

lemma maybe_simps [simp]: "maybe P None" "maybe P (Some x) = P x"
  by (simp_all add: maybe_def)

lemma trimmed_typed: "(\<exists>x. trimmed lo hi x = Some y) \<longleftrightarrow> well_trimmed lo hi y" "trimmed lo hi x = Some y \<Longrightarrow> well_trimmed lo hi y"
  "well_trimmed lo hi y \<Longrightarrow> trimmed lo hi y = Some y"
  by (auto simp: trimmed_Some well_trimmed_def) metis

lemma optional_typed:
  "optional f x = Some y \<Longrightarrow> (\<And>a b. f a = Some b \<Longrightarrow> P b) \<Longrightarrow> maybe P y"
  "maybe P y \<Longrightarrow> (\<And>b. P b \<Longrightarrow> f b = Some b) \<Longrightarrow> optional f y = Some y"
  by (cases x; auto) (cases y; auto)

lemma all_typed:
  "all_parsed f xs = Some ys \<Longrightarrow> (\<And>a b. f a = Some b \<Longrightarrow> P b) \<Longrightarrow> list_all P ys"
  by (induction xs arbitrary: ys) (auto simp: bind_eq_Some_conv)

lemma phone_typed: "parse_uz_phone x = Some p \<Longrightarrow> uz_phone p" "uz_phone p \<Longrightarrow> parse_uz_phone p = Some p"
  unfolding parse_uz_phone_def by (auto simp: trim_phone dest: normalize_uz) (metis normalize_canonical uz_phone_shape)

lemma number_typed: "number_in lo hi a = Some b \<Longrightarrow> lo \<le> b \<and> b \<le> hi" "lo \<le> b \<and> b \<le> hi \<Longrightarrow> number_in lo hi b = Some b"
  by simp_all

lemma optional_back [simp]:
  "maybe (well_trimmed lo hi) y \<Longrightarrow> optional (trimmed lo hi) y = Some y"
  "maybe (\<lambda>b. l \<le> b \<and> b \<le> h) z \<Longrightarrow> optional (number_in l h) z = Some z"
  "maybe (fm_url fm) w \<Longrightarrow> optional (url_of fm) w = Some w"
  "maybe (\<lambda>p. length p = n \<and> list_all is_digit p) v \<Longrightarrow> optional (digits_exactly n) v = Some v"
  by (erule optional_typed(2), simp add: trimmed_typed(3) url_of_def digits_exactly_def)+

lemma register_types: "(\<exists>r. parse_register r = Some d) \<longleftrightarrow> register_typed d"
proof
  assume "\<exists>r. parse_register r = Some d"
  then show "register_typed d"
    by (auto simp: parse_register_def register_typed_def bind_eq_Some_conv signup_role_def phone_typed(1)
        intro: optional_typed(1) trimmed_typed(2))
next
  assume t: "register_typed d"
  then have "parse_register (encode_register d) = Some d"
    by (cases "ri_role d") (auto simp: register_typed_def parse_register_def encode_register_def or_default_def
        signup_role_def phone_typed(2) bind_eq_Some_conv)
  then show "\<exists>r. parse_register r = Some d" ..
qed

lemma address_types: "(\<exists>r. parse_address r = Some d) \<longleftrightarrow> address_typed d"
proof
  assume "\<exists>r. parse_address r = Some d"
  then show "address_typed d"
    by (auto simp: parse_address_def address_typed_def on_globe_def bind_eq_Some_conv trimmed_typed(2))
next
  assume "address_typed d"
  then have "parse_address (encode_address d) = Some d"
    by (simp add: address_typed_def on_globe_def parse_address_def encode_address_def or_default_def
        bind_eq_Some_conv trimmed_typed(3))
  then show "\<exists>r. parse_address r = Some d" ..
qed

lemma area_typed_parse:
  "parse_area r = Some d \<Longrightarrow> area_typed d" "area_typed d \<Longrightarrow> parse_area (encode_area d) = Some d"
  by (auto simp: parse_area_def encode_area_def area_typed_def on_globe_def bind_eq_Some_conv trimmed_typed(2,3) int_in_Some)

lemma all_parsed_short: "all_parsed f xs = Some ys \<Longrightarrow> length xs \<le> n \<Longrightarrow> length ys \<le> n"
  by (simp add: all_parsed_length)

context id_texts
begin

lemma areas_typed_parse: "list_all area_typed xs \<Longrightarrow> all_parsed parse_area (map encode_area xs) = Some xs"
  by (induction xs) (simp_all add: area_typed_parse(2))

lemma profile_types: "(\<exists>r. parse_master_profile fm r = Some d) \<longleftrightarrow> profile_typed fm d"
proof
  assume "\<exists>r. parse_master_profile fm r = Some d"
  then show "profile_typed fm d"
    by (auto simp: parse_master_profile_def profile_typed_def bind_eq_Some_conv trimmed_typed(2) int_in_Some at_most_def
        url_of_def digits_exactly_def
        intro: optional_typed(1) trimmed_typed(2) all_parsed_short all_typed area_typed_parse(1))
next
  assume "profile_typed fm d"
  then have "parse_master_profile fm (encode_master_profile id_string d) = Some d"
    by (auto simp: parse_master_profile_def encode_master_profile_def profile_typed_def trimmed_typed(3) int_in_Some
        at_most_def or_default_def ids_read_back areas_typed_parse bind_eq_Some_conv)
  then show "\<exists>r. parse_master_profile fm r = Some d" ..
qed

lemma update_types: "(\<exists>r. parse_order_update fm r = Some d) \<longleftrightarrow> update_typed d"
proof
  assume "\<exists>r. parse_order_update fm r = Some d"
  then show "update_typed d"
    by (auto simp: parse_order_update_def update_typed_def bind_eq_Some_conv
        intro: optional_typed(1) trimmed_typed(2) number_typed(1))
next
  assume "update_typed d"
  then have "parse_order_update fm (encode_order_update id_string d) = Some d"
    by (auto simp: parse_order_update_def encode_order_update_def update_typed_def optional_read_back
        bind_eq_Some_conv)
  then show "\<exists>r. parse_order_update fm r = Some d" ..
qed

end



end
