(* ===== verification/WebClient.thy ===== *)
theory WebClient
  imports Api
begin

text \<open>
  The browser's side of the interface, \<open>apps/web/lib\<close>: the request function of \<open>api.ts\<close> with its one retry
  of GET, PATCH and DELETE, the session store of \<open>session.ts\<close>, the silent refresh of
  \<open>components/session-bootstrap.tsx\<close>, the gate of \<open>use-require-auth.ts\<close> and the pages that sign in and out.

  A program of the browser runs on a \<open>world\<close>: what the browser remembers, the database behind the server,
  and the fate of each fetch to come with the circumstances (clock, random values, providers) the server
  meets it in.  Messages shown to the user are display texts; an error of the server is its status.
\<close>

section \<open>The world of a browser\<close>

datatype fate = Arrives | Request_Lost | Reply_Lost

record hop =
  hp_fate :: fate
  hp_ctx :: api_ctx

record world =
  wl_db :: db
  wl_hops :: "hop list"
  wl_token :: "string option"
  wl_user :: "session_user option"
  wl_ready :: bool
  wl_cookie :: "string option"

datatype client_error =
    Network_Failure
  | Api_Error int
  | Form_Error

type_synonym 'a web = "world \<Rightarrow> (client_error + 'a) \<times> world"

definition web_ok :: "'a \<Rightarrow> 'a web" where
  "web_ok x w = (Inr x, w)"

definition web_fail :: "client_error \<Rightarrow> 'a web" where
  "web_fail e w = (Inl e, w)"

definition web_then :: "'a web \<Rightarrow> ('a \<Rightarrow> 'b web) \<Rightarrow> 'b web" where
  "web_then m f w = (case m w of (Inl e, v) \<Rightarrow> (Inl e, v) | (Inr x, v) \<Rightarrow> f x v)"

text \<open>A failure that is caught and read as a missing value.\<close>

definition web_try :: "'a web \<Rightarrow> 'a option web" where
  "web_try m w = (case m w of (Inl e, v) \<Rightarrow> (Inr None, v) | (Inr x, v) \<Rightarrow> (Inr (Some x), v))"

text \<open>The query client of \<open>app/providers.tsx\<close> runs a query that failed once more.\<close>

definition with_retry :: "'a web \<Rightarrow> 'a web" where
  "with_retry m w = (case m w of (Inl e, v) \<Rightarrow> m v | (Inr x, v) \<Rightarrow> (Inr x, v))"

section \<open>One request\<close>

datatype http_method = GET | POST | PATCH | DELETE

text \<open>The method of a route, from the decorators of the controllers.\<close>

fun method_of :: "api_request \<Rightarrow> http_method" where
  "method_of (A_Auth q) = POST"
| "method_of (A_Public q) = (case q of B_Webhook _ _ _ \<Rightarrow> POST | _ \<Rightarrow> GET)"
| "method_of (A_Orders q) =
     (case q of
        O_List _ _ \<Rightarrow> GET | O_Get _ \<Rightarrow> GET | O_Payments _ \<Rightarrow> GET | O_Get_Review _ \<Rightarrow> GET | O_Get_Claim _ \<Rightarrow> GET
      | O_Update _ _ \<Rightarrow> PATCH | O_Delete_Media _ _ \<Rightarrow> DELETE | _ \<Rightarrow> POST)"
| "method_of (A_Me q) =
     (case q of
        M_Get \<Rightarrow> GET | M_Addresses \<Rightarrow> GET | M_Referrals \<Rightarrow> GET | M_Customer _ _ \<Rightarrow> PATCH
      | M_Delete_Address _ \<Rightarrow> DELETE | _ \<Rightarrow> POST)"
| "method_of (A_Master q) =
     (case q of
        W_Get \<Rightarrow> GET | W_Current_Offer \<Rightarrow> GET | W_Current_Job \<Rightarrow> GET | W_Update _ \<Rightarrow> PATCH
      | W_Availability _ \<Rightarrow> PATCH | W_Delete_Media _ \<Rightarrow> DELETE | _ \<Rightarrow> POST)"
| "method_of (A_Master_More q) =
     (case q of W_Job_Media _ _ \<Rightarrow> POST | W_Cancel _ _ \<Rightarrow> POST | W_Submit _ \<Rightarrow> POST | W_Upgrade \<Rightarrow> POST | _ \<Rightarrow> GET)"
| "method_of (A_Inbox q) = (case q of N_Read _ \<Rightarrow> PATCH | _ \<Rightarrow> GET)"
| "method_of (A_Admin q) =
     (case q of
        Z_Suspend _ _ \<Rightarrow> POST | Z_Restore _ \<Rightarrow> POST | Z_Set_Flag _ _ _ \<Rightarrow> POST | Z_Resolve _ _ _ \<Rightarrow> POST
      | Z_Decide_Verification _ _ _ \<Rightarrow> POST | Z_Decide_Claim _ _ _ \<Rightarrow> POST | _ \<Rightarrow> GET)"

definition retryable_methods :: "http_method list" where
  "retryable_methods = [GET, PATCH, DELETE]"

definition auth_header :: "bool \<Rightarrow> world \<Rightarrow> string option" where
  "auth_header auth w =
     (if auth then (case wl_token w of None \<Rightarrow> None | Some t \<Rightarrow> if t = [] then None else Some (bearer_prefix @ t))
      else None)"

text \<open>The server sets the refresh cookie on the answers that carry a session, and clears it on a logout.\<close>

definition cookie_after :: "api_request \<Rightarrow> reply result \<Rightarrow> string option \<Rightarrow> string option" where
  "cookie_after q r cookie =
     (case r of
        Inr (R_Session su t) \<Rightarrow> Some (at_refresh t)
      | Inr (R_Login (Logged_In su t)) \<Rightarrow> Some (at_refresh t)
      | Inr _ \<Rightarrow> (case q of A_Auth (U_Logout _) \<Rightarrow> None | _ \<Rightarrow> cookie)
      | Inl _ \<Rightarrow> cookie)"

definition fetch :: "string option \<Rightarrow> api_request \<Rightarrow> world \<Rightarrow> reply result option \<times> world" where
  "fetch header q w =
     (case wl_hops w of
        [] \<Rightarrow> (None, w)
      | h # hs \<Rightarrow>
          (let (r, t) = serve_api (hp_ctx h) header q (wl_db w)
           in case hp_fate h of
                Request_Lost \<Rightarrow> (None, w\<lparr>wl_hops := hs\<rparr>)
              | Reply_Lost \<Rightarrow> (None, w\<lparr>wl_hops := hs, wl_db := t\<rparr>)
              | Arrives \<Rightarrow> (Some r, w\<lparr>wl_hops := hs, wl_db := t, wl_cookie := cookie_after q r (wl_cookie w)\<rparr>)))"

definition answered :: "reply result \<Rightarrow> client_error + reply" where
  "answered r = (case r of Inl e \<Rightarrow> Inl (Api_Error (error_status e)) | Inr x \<Rightarrow> Inr x)"

definition web_request :: "bool \<Rightarrow> api_request \<Rightarrow> reply web" where
  "web_request auth q w =
     (let header = auth_header auth w in
      case fetch header q w of
        (Some r, v) \<Rightarrow> (answered r, v)
      | (None, v) \<Rightarrow>
          if method_of q \<notin> set retryable_methods then (Inl Network_Failure, v)
          else (case fetch header q v of
                  (Some r, u) \<Rightarrow> (answered r, u)
                | (None, u) \<Rightarrow> (Inl Network_Failure, u)))"

section \<open>The session\<close>

definition set_session :: "session_user \<Rightarrow> string \<Rightarrow> world \<Rightarrow> world" where
  "set_session su t w = w\<lparr>wl_token := Some t, wl_user := Some su\<rparr>"

definition clear_session :: "world \<Rightarrow> world" where
  "clear_session w = w\<lparr>wl_token := None, wl_user := None\<rparr>"

definition session_bootstrap :: "world \<Rightarrow> world" where
  "session_bootstrap w =
     (case web_request False (A_Auth (U_Refresh (wl_cookie w) None)) w of
        (Inr (R_Session su t), v) \<Rightarrow> (set_session su (at_access t) v)\<lparr>wl_ready := True\<rparr>
      | (_, v) \<Rightarrow> v\<lparr>wl_ready := True\<rparr>)"

datatype gate = Splash | To_Login | To_Home | Pass session_user

definition require_auth :: "role option \<Rightarrow> world \<Rightarrow> gate" where
  "require_auth required w =
     (if \<not> wl_ready w then Splash
      else case wl_user w of
        None \<Rightarrow> To_Login
      | Some su \<Rightarrow>
          (case required of
             Some r \<Rightarrow> if su_role su \<noteq> r then To_Home else Pass su
           | None \<Rightarrow> Pass su))"

datatype destination =
    Goto_Home
  | Goto_Master
  | Goto_Login
  | Goto_Verify string otp_purpose int

definition login_page :: "string \<Rightarrow> string \<Rightarrow> destination web" where
  "login_page phone password =
     (case parse_login phone password of
        None \<Rightarrow> web_fail Form_Error
      | Some (p, x) \<Rightarrow>
          web_then (web_request False (A_Auth (U_Login p x)))
            (\<lambda>r w. case r of
               R_Login (Logged_In su t) \<Rightarrow> web_ok Goto_Home (set_session su (at_access t) w)
             | R_Login (Needs_Verification c) \<Rightarrow> web_ok (Goto_Verify (oc_phone c) SIGNUP (oc_resend_in c)) w
             | _ \<Rightarrow> web_fail Form_Error w))"

definition register_page :: "role \<Rightarrow> string \<Rightarrow> string \<Rightarrow> string \<Rightarrow> destination web" where
  "register_page who phone password code =
     (let raw = \<lparr>rr_phone = phone, rr_password = password, rr_role = Some who, rr_locale = Some UZ,
                 rr_code = (if trim code = [] then None else Some (trim code))\<rparr>
      in case parse_register raw of
           None \<Rightarrow> web_fail Form_Error
         | Some d \<Rightarrow>
             web_then (web_request False (A_Auth (U_Register (encode_register d))))
               (\<lambda>r. case r of
                  R_Challenge c \<Rightarrow> web_ok (Goto_Verify (oc_phone c) SIGNUP (oc_resend_in c))
                | _ \<Rightarrow> web_fail Form_Error))"

definition verify_page :: "string \<Rightarrow> string \<Rightarrow> otp_purpose \<Rightarrow> destination web" where
  "verify_page phone code purpose =
     (case parse_otp_verify phone code purpose of
        None \<Rightarrow> web_fail Form_Error
      | Some (p, c, q) \<Rightarrow>
          web_then (web_request False (A_Auth (U_Verify p c q)))
            (\<lambda>r w. case r of
               R_Session su t \<Rightarrow>
                 web_ok (if su_role su = MASTER then Goto_Master else Goto_Home) (set_session su (at_access t) w)
             | _ \<Rightarrow> web_fail Form_Error w))"

definition resend_page :: "string \<Rightarrow> otp_purpose \<Rightarrow> int web" where
  "resend_page phone purpose =
     web_then (web_request False (A_Auth (U_Request_Otp phone purpose)))
       (\<lambda>r. case r of R_Challenge c \<Rightarrow> web_ok (oc_resend_in c) | _ \<Rightarrow> web_fail Form_Error)"

definition forgot_request :: "string \<Rightarrow> string web" where
  "forgot_request phone =
     (case parse_uz_phone phone of
        None \<Rightarrow> web_fail Form_Error
      | Some p \<Rightarrow> web_then (web_request False (A_Auth (U_Request_Reset p))) (\<lambda>_. web_ok p))"

definition forgot_reset :: "string \<Rightarrow> string \<Rightarrow> string \<Rightarrow> destination web" where
  "forgot_reset phone code password =
     (case parse_password_reset phone code password of
        None \<Rightarrow> web_fail Form_Error
      | Some (p, c, x) \<Rightarrow> web_then (web_request False (A_Auth (U_Reset p c x))) (\<lambda>_. web_ok Goto_Login))"

text \<open>Leaving clears the session of the browser also when the server could not be told.\<close>

definition logout_page :: "world \<Rightarrow> destination \<times> world" where
  "logout_page w =
     (Goto_Login, clear_session (snd (web_request False (A_Auth (U_Logout (wl_cookie w))) w)))"

end
