(* ===== verification/SlotDates.thy ===== *)
theory SlotDates
  imports Calendar Text
begin

text \<open>
  The other half of \<open>packages/contracts/src/order.ts\<close>'s booking calendar: dates.  A date of the program is
  a text such as 2026-07-21; \<open>slotToUtcIso\<close> turns it and a slot into an instant with \<open>Date.UTC\<close>,
  \<open>utcIsoToSlot\<close> reads both back.  \<open>Date\<close> is the proleptic Gregorian calendar of the language
  standard: \<open>day_from_year\<close>, \<open>make_day\<close> and their inverse are its equations, on integers.
\<close>

section \<open>Days, months and years\<close>

definition leap :: "int \<Rightarrow> bool" where
  "leap y = (y mod 4 = 0 \<and> y mod 100 \<noteq> 0 \<or> y mod 400 = 0)"

definition day_from_year :: "int \<Rightarrow> int" where
  "day_from_year y = 365 * (y - 1970) + (y - 1969) div 4 - (y - 1901) div 100 + (y - 1601) div 400"

definition month_start :: "bool \<Rightarrow> int \<Rightarrow> int" where
  "month_start b m = [0, 31, 59, 90, 120, 151, 181, 212, 243, 273, 304, 334, 365] ! nat m + (if b \<and> 2 \<le> m then 1 else 0)"

definition make_day :: "int \<Rightarrow> int \<Rightarrow> int \<Rightarrow> int" where
  "make_day y m d =
     (let ym = y + m div 12 in day_from_year ym + month_start (leap ym) (m mod 12) + d - 1)"

lemma next_div:
  assumes "(0 :: int) < k"
  shows "(x + 1) div k = x div k + (if k dvd x + 1 then 1 else 0)"
proof (cases "k dvd x + 1")
  case True
  then obtain q where "x + 1 = k * q" by blast
  then have "x = k * (q - 1) + (k - 1)" "(x + 1) div k = q" using assms by (simp_all add: algebra_simps)
  moreover have "(k * (q - 1) + (k - 1)) div k = q - 1" using assms by (simp add: div_add1_eq)
  ultimately show ?thesis using True by simp
next
  case False
  have "(x + 1) mod k \<noteq> 0" using False by (simp add: dvd_eq_mod_eq_0)
  then have "0 < (x + 1) mod k" using pos_mod_sign [OF assms, of "x + 1"] by linarith
  then have "x div k = (x + 1) div k"
    using assms pos_mod_bound [OF assms, of "x + 1"] mult_div_mod_eq [of k "x + 1"]
    by (intro int_div_pos_eq [where r = "(x + 1) mod k - 1"]) linarith+
  then show ?thesis using False by simp
qed

lemma day_from_year_step: "day_from_year (y + 1) = day_from_year y + (if leap y then 366 else 365)"
proof -
  have a: "(y - 1968) div 4 = (y - 1969) div 4 + (if 4 dvd y then 1 else 0)"
    using next_div [of 4 "y - 1969"] dvd_diff_left_iff [of 4 1968 y] by simp
  have b: "(y - 1900) div 100 = (y - 1901) div 100 + (if 100 dvd y then 1 else 0)"
    using next_div [of 100 "y - 1901"] dvd_diff_left_iff [of 100 1900 y] by simp
  have c: "(y - 1600) div 400 = (y - 1601) div 400 + (if 400 dvd y then 1 else 0)"
    using next_div [of 400 "y - 1601"] dvd_diff_left_iff [of 400 1600 y] by simp
  have "400 dvd y \<Longrightarrow> 100 dvd y" "100 dvd y \<Longrightarrow> 4 dvd y"
    by (erule dvd_trans [rotated], simp)+
  then have l: "(if leap y then 1 else 0) =
      (if 4 dvd y then 1 else (0 :: int)) - (if 100 dvd y then 1 else 0) + (if 400 dvd y then 1 else 0)"
    by (auto simp: leap_def simp flip: dvd_eq_mod_eq_0)
  have "day_from_year (y + 1) = 365 * (y - 1970) + 365 + (y - 1968) div 4 - (y - 1900) div 100 + (y - 1600) div 400"
    by (simp add: day_from_year_def algebra_simps)
  also have "\<dots> = day_from_year y + 365 + (if leap y then 1 else 0)"
    unfolding a b c l by (simp add: day_from_year_def)
  finally show ?thesis by simp
qed

lemma day_from_year_less: "day_from_year y < day_from_year (y + 1)"
  by (simp add: day_from_year_step)

function year_from :: "int \<Rightarrow> int \<Rightarrow> int" where
  "year_from y n = (if day_from_year (y + 1) \<le> n then year_from (y + 1) n else y)"
  by pat_completeness auto

termination
proof (relation "measure (\<lambda>(y, n). nat (n + 1 - day_from_year y))")
  fix y n
  assume "day_from_year (y + 1) \<le> n"
  then show "((y + 1, n), (y, n)) \<in> measure (\<lambda>(y, n). nat (n + 1 - day_from_year y))"
    using day_from_year_less [of y] by simp
qed simp

declare year_from.simps [simp del]

definition year_of :: "int \<Rightarrow> int" where
  "year_of n = year_from (1970 + n div 366) n"

definition months_begun :: "bool \<Rightarrow> int \<Rightarrow> int" where
  "months_begun b k = int (length (filter (\<lambda>m. month_start b m \<le> k) [1, 2, 3, 4, 5, 6, 7, 8, 9, 10, 11]))"

definition month_of :: "int \<Rightarrow> int" where
  "month_of n = months_begun (leap (year_of n)) (n - day_from_year (year_of n))"

definition date_of :: "int \<Rightarrow> int" where
  "date_of n = n - day_from_year (year_of n) - month_start (leap (year_of n)) (month_of n) + 1"

lemma day_from_year_mono: "y \<le> z \<Longrightarrow> day_from_year y \<le> day_from_year z"
proof (induction z rule: int_ge_induct)
  case (step z)
  then show ?case using day_from_year_less [of z] by simp
qed simp

lemma year_from_bounds:
  "day_from_year y \<le> n \<Longrightarrow> day_from_year (year_from y n) \<le> n \<and> n < day_from_year (year_from y n + 1)"
proof (induction y n rule: year_from.induct)
  case (1 y n)
  then show ?case
    by (cases "day_from_year (y + 1) \<le> n") (simp_all add: year_from.simps [of y n])
qed

lemma year_of_bounds:
  assumes "0 \<le> n"
  shows "day_from_year (year_of n) \<le> n" "n < day_from_year (year_of n + 1)"
proof -
  have "day_from_year (1970 + k) \<le> 366 * k" if "0 \<le> k" for k
    using that
  proof (induction k rule: int_ge_induct)
    case base
    show ?case by (simp add: day_from_year_def)
  next
    case (step k)
    then show ?case using day_from_year_step [of "1970 + k"] by (simp add: algebra_simps split: if_splits)
  qed
  from this [of "n div 366"] assms have "day_from_year (1970 + n div 366) \<le> 366 * (n div 366)" by simp
  also have "\<dots> \<le> n" by simp
  finally show "day_from_year (year_of n) \<le> n" "n < day_from_year (year_of n + 1)"
    using year_from_bounds unfolding year_of_def by blast+
qed

lemma year_unique:
  assumes "day_from_year y \<le> n" "n < day_from_year (y + 1)" "day_from_year z \<le> n" "n < day_from_year (z + 1)"
  shows "y = z"
proof (rule ccontr)
  assume "y \<noteq> z"
  then consider "y + 1 \<le> z" | "z + 1 \<le> y" by linarith
  then show False using assms day_from_year_mono [of "y + 1" z] day_from_year_mono [of "z + 1" y] by cases simp_all
qed

text \<open>A day of the calendar has one date, and a date one day.\<close>

definition valid_date :: "int \<Rightarrow> int \<Rightarrow> int \<Rightarrow> bool" where
  "valid_date y m d =
     (1970 \<le> y \<and> 0 \<le> m \<and> m < 12 \<and> 1 \<le> d \<and> d \<le> month_start (leap y) (m + 1) - month_start (leap y) m)"

lemma month_starts [simp]:
  "month_start b 0 = 0" "month_start b 1 = 31" "month_start b 2 = 59 + (if b then 1 else 0)"
  "month_start b 3 = 90 + (if b then 1 else 0)" "month_start b 4 = 120 + (if b then 1 else 0)"
  "month_start b 5 = 151 + (if b then 1 else 0)" "month_start b 6 = 181 + (if b then 1 else 0)"
  "month_start b 7 = 212 + (if b then 1 else 0)" "month_start b 8 = 243 + (if b then 1 else 0)"
  "month_start b 9 = 273 + (if b then 1 else 0)" "month_start b 10 = 304 + (if b then 1 else 0)"
  "month_start b 11 = 334 + (if b then 1 else 0)" "month_start b 12 = 365 + (if b then 1 else 0)"
  by (simp_all add: month_start_def)

lemma month_cases:
  assumes "(0 :: int) \<le> m" "m < 12"
  obtains "m = 0" | "m = 1" | "m = 2" | "m = 3" | "m = 4" | "m = 5" | "m = 6" | "m = 7" | "m = 8" | "m = 9"
    | "m = 10" | "m = 11"
proof -
  have "m = 0 \<or> m = 1 \<or> m = 2 \<or> m = 3 \<or> m = 4 \<or> m = 5 \<or> m = 6 \<or> m = 7 \<or> m = 8 \<or> m = 9 \<or> m = 10 \<or> m = 11"
    using assms by presburger
  then show thesis using that by blast
qed

lemma months_begun_cases:
  "months_begun True k =
     (if k < 31 then 0 else if k < 60 then 1 else if k < 91 then 2 else if k < 121 then 3 else if k < 152 then 4
      else if k < 182 then 5 else if k < 213 then 6 else if k < 244 then 7 else if k < 274 then 8
      else if k < 305 then 9 else if k < 335 then 10 else 11)"
  "months_begun False k =
     (if k < 31 then 0 else if k < 59 then 1 else if k < 90 then 2 else if k < 120 then 3 else if k < 151 then 4
      else if k < 181 then 5 else if k < 212 then 6 else if k < 243 then 7 else if k < 273 then 8
      else if k < 304 then 9 else if k < 334 then 10 else 11)"
  by (simp_all add: months_begun_def)

lemma month_begun:
  assumes "0 \<le> m" "m < 12" "month_start b m \<le> k" "k < month_start b (m + 1)"
  shows "months_begun b k = m"
  using assms(3,4)
  by (cases b; cases rule: month_cases [OF assms(1,2)]) (simp_all add: months_begun_cases)

lemma month_found:
  assumes "0 \<le> k" "k < (if b then 366 else 365)"
  obtains m where "0 \<le> m" "m < 12" "month_start b m \<le> k" "k < month_start b (m + 1)"
proof (rule ccontr)
  assume "\<not> thesis"
  then have none: "month_start b (m + 1) \<le> k" if "0 \<le> m" "m < 12" "month_start b m \<le> k" for m
    using that \<open>0 \<le> m \<Longrightarrow> m < 12 \<Longrightarrow> month_start b m \<le> k \<Longrightarrow> k < month_start b (m + 1) \<Longrightarrow> thesis\<close>
    by (meson not_le)
  have "month_start b (int j) \<le> k" if "j \<le> 12" for j
    using that
  proof (induction j)
    case (Suc j)
    then show ?case using none [of "int j"] by (simp add: add.commute)
  qed (use assms in simp)
  from this [of 12] show False using assms(2) by (simp split: if_splits)
qed

lemma month_of_bounds:
  assumes "0 \<le> n"
  shows "0 \<le> month_of n" "month_of n < 12" "valid_date (year_of n) (month_of n) (date_of n)"
proof -
  let ?b = "leap (year_of n)" and ?k = "n - day_from_year (year_of n)"
  have y: "day_from_year (year_of n) \<le> n" "n < day_from_year (year_of n + 1)" using year_of_bounds [OF assms] .
  then have k: "0 \<le> ?k" "?k < (if ?b then 366 else 365)" by (auto simp: day_from_year_step)
  obtain m where m: "0 \<le> m" "m < 12" "month_start ?b m \<le> ?k" "?k < month_start ?b (m + 1)"
    using month_found [OF k] .
  then have e: "month_of n = m"
    using month_begun [OF m] by (simp add: month_of_def)
  have "1970 \<le> year_of n"
  proof (rule ccontr)
    assume "\<not> 1970 \<le> year_of n"
    then have "day_from_year (year_of n + 1) \<le> day_from_year 1970" by (intro day_from_year_mono) simp
    then show False using y assms by (simp add: day_from_year_def)
  qed
  then show "0 \<le> month_of n" "month_of n < 12" "valid_date (year_of n) (month_of n) (date_of n)"
    using m e by (simp_all add: valid_date_def date_of_def)
qed

lemma make_day_of: "0 \<le> n \<Longrightarrow> make_day (year_of n) (month_of n) (date_of n) = n"
  using month_of_bounds [of n] by (simp add: make_day_def date_of_def Let_def)

lemma date_of_make_day:
  assumes "valid_date y m d"
  defines "n \<equiv> make_day y m d"
  shows "year_of n = y" "month_of n = m" "date_of n = d" "0 \<le> n"
proof -
  have v: "1970 \<le> y" "0 \<le> m" "m < 12" "1 \<le> d" "d \<le> month_start (leap y) (m + 1) - month_start (leap y) m"
    using assms(1) by (simp_all add: valid_date_def)
  have n: "n = day_from_year y + month_start (leap y) m + d - 1" using v by (simp add: n_def make_day_def)
  have "0 \<le> month_start (leap y) m \<and> month_start (leap y) (m + 1) \<le> (if leap y then 366 else 365)"
    by (rule month_cases [OF v(2,3)]) simp_all
  then have r: "day_from_year y \<le> n" "n < day_from_year (y + 1)"
    using v(4,5) by (auto simp: n day_from_year_step)
  moreover have "0 \<le> day_from_year y" using day_from_year_mono [OF v(1)] by (simp add: day_from_year_def)
  ultimately show "0 \<le> n" by simp
  then show y: "year_of n = y" using year_unique [OF year_of_bounds r] by simp
  show m: "month_of n = m"
    using month_begun [OF v(2,3), of "leap y" "n - day_from_year y"] v(4,5)
    by (simp add: month_of_def y) (simp add: n)
  show "date_of n = d" by (simp only: date_of_def y m) (simp add: n)
qed

section \<open>Dates and slots as texts\<close>

text \<open>\<open>Number\<close> of the texts a date input and the slot list give: digits, and 0 for the empty text.\<close>

fun splits :: "char \<Rightarrow> string \<Rightarrow> string list" where
  "splits c [] = [[]]"
| "splits c (x # xs) = (if x = c then [] # splits c xs else (x # hd (splits c xs)) # tl (splits c xs))"

definition js_number :: "string \<Rightarrow> int option" where
  "js_number t = (if list_all is_digit t then Some (digits_value 0 t) else None)"

definition piece :: "string list \<Rightarrow> nat \<Rightarrow> int option \<Rightarrow> int option" where
  "piece ws k d = (if k < length ws then js_number (ws ! k) else d)"

text \<open>\<open>Date.UTC\<close> reads the years 0 to 99 as 1900 to 1999; \<open>toISOString\<close> refuses an instant that is not a
  number or out of range.\<close>

definition date_utc :: "int \<Rightarrow> int \<Rightarrow> int \<Rightarrow> int \<Rightarrow> int \<Rightarrow> time" where
  "date_utc y m d hour minute =
     make_day (if 0 \<le> y \<and> y \<le> 99 then 1900 + y else y) m d * 86400000 + (hour * 60 + minute) * 60000"

definition time_clip :: "time \<Rightarrow> time option" where
  "time_clip t = (if \<bar>t\<bar> \<le> 8640000000000000 then Some t else None)"

definition slot_to_utc :: "string \<Rightarrow> string \<Rightarrow> time option" where
  "slot_to_utc date slot =
     (let ds = splits (CHR ''-'') date; hs = splits (CHR '':'') slot in
      case (piece ds 0 None, piece ds 1 (Some 1), piece ds 2 None, piece hs 0 (Some 0), piece hs 1 (Some 0)) of
        (Some y, Some m, Some d, Some h, Some mi) \<Rightarrow> time_clip (date_utc y (m - 1) d (h - 5) mi)
      | _ \<Rightarrow> None)"

text \<open>\<open>toISOString().slice(0, 10)\<close>, for the years 1970 to 9999.\<close>

definition iso_date :: "int \<Rightarrow> string" where
  "iso_date n =
     pad2 (year_of n div 100) @ pad2 (year_of n mod 100) @ ''-'' @ pad2 (month_of n + 1) @ ''-'' @ pad2 (date_of n)"

definition uz_day :: "time \<Rightarrow> int" where
  "uz_day t = (t + uz_offset_ms) div 86400000"

definition utc_to_date :: "time \<Rightarrow> string" where
  "utc_to_date t = iso_date (uz_day t)"

definition slot_text :: "int \<Rightarrow> string" where
  "slot_text mins = pad2 (mins div 60) @ '':'' @ pad2 (mins mod 60)"

lemma utc_to_slot_text: "utc_to_slot t = slot_text (slot_minutes t)"
  by (simp add: utc_to_slot_def slot_text_def)

section \<open>Reading back what was printed\<close>

lemma pad2_digits:
  assumes "0 \<le> n" "n < 100"
  shows "list_all is_digit (pad2 n)" "digits_value acc (pad2 n) = 100 * acc + n"
proof -
  have "nat (n div 10) < 10" "nat (n mod 10) < 10" using assms by simp_all
  then have b: "of_char (char_of (48 + nat (n div 10))) = 48 + nat (n div 10)"
    "of_char (char_of (48 + nat (n mod 10))) = 48 + nat (n mod 10)" by simp_all
  show "list_all is_digit (pad2 n)"
    using \<open>nat (n div 10) < 10\<close> \<open>nat (n mod 10) < 10\<close> by (simp add: pad2_def is_digit_def)
  have c: "of_char (char_of (48 + nat (n div 10))) = 48 + n div 10"
    "of_char (char_of (48 + nat (n mod 10))) = 48 + n mod 10"
    unfolding of_nat_of_char [where 'a = int, symmetric] b using assms by simp_all
  show "digits_value acc (pad2 n) = 100 * acc + n"
    using mult_div_mod_eq [of 10 n] by (simp add: pad2_def c)
qed

lemma digits_value_append: "digits_value acc (xs @ ys) = digits_value (digits_value acc xs) ys"
  by (induction xs arbitrary: acc) simp_all

lemma splits_append: "c \<notin> set w \<Longrightarrow> splits c (w @ c # rest) = w # splits c rest"
  by (induction w) auto

lemma splits_none: "c \<notin> set w \<Longrightarrow> splits c w = [w]"
  by (induction w) auto

lemma digits_no_dash: "list_all is_digit w \<Longrightarrow> CHR ''-'' \<notin> set w \<and> CHR '':'' \<notin> set w"
  by (auto simp: list_all_iff is_digit_def)

lemma js_number_pad2: "0 \<le> n \<Longrightarrow> n < 100 \<Longrightarrow> js_number (pad2 n) = Some n"
  using pad2_digits(1) [of n] pad2_digits(2) [of n 0] by (simp add: js_number_def)

lemma slot_pieces:
  assumes "0 \<le> mins" "mins < 1440"
  shows "splits (CHR '':'') (slot_text mins) = [pad2 (mins div 60), pad2 (mins mod 60)]"
proof -
  have "0 \<le> mins div 60" "mins div 60 < 100" using assms by simp_all
  then have "CHR '':'' \<notin> set (pad2 (mins div 60))" "CHR '':'' \<notin> set (pad2 (mins mod 60))"
    using pad2_digits(1) digits_no_dash by simp_all
  then show ?thesis by (simp add: slot_text_def splits_append splits_none)
qed

lemma iso_date_pieces:
  assumes "0 \<le> n" "year_of n \<le> 9999"
  shows "splits (CHR ''-'') (iso_date n) =
    [pad2 (year_of n div 100) @ pad2 (year_of n mod 100), pad2 (month_of n + 1), pad2 (date_of n)]"
    "piece (splits (CHR ''-'') (iso_date n)) 0 None = Some (year_of n)"
    "piece (splits (CHR ''-'') (iso_date n)) 1 (Some 1) = Some (month_of n + 1)"
    "piece (splits (CHR ''-'') (iso_date n)) 2 None = Some (date_of n)"
proof -
  note m = month_of_bounds [OF assms(1)]
  have y: "1970 \<le> year_of n" using m(3) by (simp add: valid_date_def)
  have d: "1 \<le> date_of n \<and> date_of n \<le> 31"
    using m(3) by (cases rule: month_cases [OF m(1,2)]; cases "leap (year_of n)") (simp_all add: valid_date_def)
  have "year_of n div 100 < 100" "0 \<le> year_of n div 100" using y assms(2) by simp_all
  then have ys: "list_all is_digit (pad2 (year_of n div 100) @ pad2 (year_of n mod 100))"
    "digits_value 0 (pad2 (year_of n div 100) @ pad2 (year_of n mod 100)) = year_of n"
    using mult_div_mod_eq [of 100 "year_of n"] by (simp_all add: pad2_digits digits_value_append)
  have c: "CHR ''-'' \<notin> set (pad2 (year_of n div 100) @ pad2 (year_of n mod 100))"
    "CHR ''-'' \<notin> set (pad2 (month_of n + 1))" "CHR ''-'' \<notin> set (pad2 (date_of n))"
    using digits_no_dash ys(1) pad2_digits(1) [of "month_of n + 1"] pad2_digits(1) [of "date_of n"] m d by auto
  have "iso_date n = (pad2 (year_of n div 100) @ pad2 (year_of n mod 100)) @ CHR ''-'' # pad2 (month_of n + 1)
      @ CHR ''-'' # pad2 (date_of n)"
    by (simp add: iso_date_def)
  then show p: "splits (CHR ''-'') (iso_date n) =
      [pad2 (year_of n div 100) @ pad2 (year_of n mod 100), pad2 (month_of n + 1), pad2 (date_of n)]"
    by (simp only: splits_append [OF c(1)] splits_append [OF c(2)] splits_none [OF c(3)])
  show "piece (splits (CHR ''-'') (iso_date n)) 0 None = Some (year_of n)"
    "piece (splits (CHR ''-'') (iso_date n)) 1 (Some 1) = Some (month_of n + 1)"
    "piece (splits (CHR ''-'') (iso_date n)) 2 None = Some (date_of n)"
    using ys m d by (simp_all add: p piece_def js_number_def [of "_ @ _"] js_number_pad2)
qed

lemma slot_to_utc_text:
  assumes "0 \<le> n" "year_of n \<le> 9999" "0 \<le> mins" "mins < 1440"
  shows "slot_to_utc (iso_date n) (slot_text mins) = Some (n * 86400000 + mins * 60000 - uz_offset_ms)"
proof -
  have p: "piece (splits (CHR '':'') (slot_text mins)) 0 (Some 0) = Some (mins div 60)"
    "piece (splits (CHR '':'') (slot_text mins)) 1 (Some 0) = Some (mins mod 60)"
    using assms(3,4) by (simp_all add: slot_pieces piece_def js_number_pad2)
  have y: "1970 \<le> year_of n" using month_of_bounds(3) [OF assms(1)] by (simp add: valid_date_def)
  have "n < day_from_year 10000" using year_of_bounds(2) [OF assms(1)] day_from_year_mono [of "year_of n + 1" 10000] assms(2) by simp
  then have n: "n < 2932897" by (simp add: day_from_year_def)
  have "date_utc (year_of n) (month_of n + 1 - 1) (date_of n) (mins div 60 - 5) (mins mod 60)
      = n * 86400000 + ((mins div 60 - 5) * 60 + mins mod 60) * 60000"
    using y make_day_of [OF assms(1)] by (simp add: date_utc_def)
  moreover have "((h - 5) * 60 + m) * 60000 = (60 * h + m) * 60000 - 5 * 3600000" for h m :: int by simp
  ultimately have t: "date_utc (year_of n) (month_of n + 1 - 1) (date_of n) (mins div 60 - 5) (mins mod 60)
      = n * 86400000 + mins * 60000 - uz_offset_ms"
    unfolding uz_offset_ms_def by (simp only: mult_div_mod_eq)
  have "\<bar>n * 86400000 + mins * 60000 - uz_offset_ms\<bar> \<le> 8640000000000000"
    using n assms by (simp add: uz_offset_ms_def)
  then show ?thesis
    unfolding slot_to_utc_def Let_def iso_date_pieces(2-4) [OF assms(1,2)] p by (simp only: prod.case option.case t) (simp add: time_clip_def)
qed

text \<open>The instant of a date and a slot has that date and that slot.\<close>

lemma utc_of_slot:
  assumes "0 \<le> mins" "mins < 1440" "t = n * 86400000 + mins * 60000 - uz_offset_ms"
  shows "uz_day t = n" "slot_minutes t = mins"
proof -
  have "t + uz_offset_ms = mins * 60000 + n * 86400000" using assms(3) by simp
  moreover have "(mins * 60000 + n * 86400000) div 86400000 = n" using assms(1,2) by simp
  moreover have "(mins * 60000 + n * 86400000) div 60000 = mins + n * 1440" by simp
  ultimately show "uz_day t = n" "slot_minutes t = mins"
    using assms(1,2) by (simp_all add: uz_day_def slot_minutes_def)
qed

lemma uz_split: "t = uz_day t * 86400000 + slot_minutes t * 60000 + (t + uz_offset_ms) mod 60000 - uz_offset_ms"
proof -
  have "(t + uz_offset_ms) div 86400000 = (t + uz_offset_ms) div 60000 div 1440"
    by (simp add: zdiv_zmult2_eq [of 1440 _ 60000, symmetric])
  then show ?thesis
    using mult_div_mod_eq [of 60000 "t + uz_offset_ms"] mult_div_mod_eq [of 1440 "(t + uz_offset_ms) div 60000"]
    unfolding uz_day_def slot_minutes_def by linarith
qed

lemma pad2_inj: "0 \<le> a \<Longrightarrow> a < 100 \<Longrightarrow> 0 \<le> b \<Longrightarrow> b < 100 \<Longrightarrow> pad2 a = pad2 b \<Longrightarrow> a = b"
  by (metis unpad_pad)

lemma iso_date_inj:
  assumes "0 \<le> n" "year_of n \<le> 9999" "0 \<le> k" "year_of k \<le> 9999" "iso_date n = iso_date k"
  shows "n = k"
proof -
  note n = iso_date_pieces(2-4) [OF assms(1,2)] and k = iso_date_pieces(2-4) [OF assms(3,4)]
  have "Some (year_of n) = Some (year_of k)" using n(1) k(1) unfolding assms(5) by (rule trans [OF sym])
  moreover have "Some (month_of n + 1) = Some (month_of k + 1)" using n(2) k(2) unfolding assms(5) by (rule trans [OF sym])
  moreover have "Some (date_of n) = Some (date_of k)" using n(3) k(3) unfolding assms(5) by (rule trans [OF sym])
  ultimately have "make_day (year_of n) (month_of n) (date_of n) = make_day (year_of k) (month_of k) (date_of k)" by simp
  then show ?thesis unfolding make_day_of [OF assms(1)] make_day_of [OF assms(3)] .
qed

lemma year_of_le: "0 \<le> n \<Longrightarrow> n < 2932897 \<Longrightarrow> year_of n \<le> 9999"
  using year_of_bounds(1) [of n] day_from_year_mono [of 10000 "year_of n"] by (auto simp: day_from_year_def intro: ccontr)

section \<open>The order of texts\<close>

text \<open>\<open><\<close> on texts compares their code units.\<close>

fun text_less :: "string \<Rightarrow> string \<Rightarrow> bool" where
  "text_less xs [] = False"
| "text_less [] (y # ys) = True"
| "text_less (x # xs) (y # ys) = ((of_char x :: nat) < of_char y \<or> x = y \<and> text_less xs ys)"

lemma digit_char: "i < 10 \<Longrightarrow> (of_char (char_of (48 + i)) :: nat) = 48 + i"
  by simp

lemma digit_char_eq:
  assumes "i < 10" "j < 10"
  shows "(char_of (48 + i :: nat) :: char) = char_of (48 + j) \<longleftrightarrow> i = j"
  using digit_char [OF assms(1)] digit_char [OF assms(2)] by (metis add_left_cancel)

lemma less_div_mod:
  assumes "(0 :: int) < k"
  shows "a < b \<longleftrightarrow> a div k < b div k \<or> a div k = b div k \<and> a mod k < b mod k"
proof (cases "a div k = b div k")
  case True
  then have "a - b = a mod k - b mod k" using mult_div_mod_eq [of k a] mult_div_mod_eq [of k b]
    by (metis add_diff_cancel_left)
  with True show ?thesis by linarith
next
  case False
  then show ?thesis using zdiv_mono1 [OF _ assms, of a b] zdiv_mono1 [OF _ assms, of b a] by linarith
qed

lemma text_less_pad2:
  assumes "0 \<le> a" "a < 100" "0 \<le> b" "b < 100"
  shows "text_less (pad2 a @ xs) (pad2 b @ ys) \<longleftrightarrow> a < b \<or> a = b \<and> text_less xs ys"
proof -
  define i j k l where d: "i = nat (a div 10)" "j = nat (a mod 10)" "k = nat (b div 10)" "l = nat (b mod 10)"
  have l: "i < 10" "j < 10" "k < 10" "l < 10" using assms by (simp_all add: d)
  have q: "a div 10 = int i" "a mod 10 = int j" "b div 10 = int k" "b mod 10 = int l"
    using assms by (simp_all add: d)
  have "text_less (pad2 a @ xs) (pad2 b @ ys) \<longleftrightarrow> i < k \<or> i = k \<and> (j < l \<or> j = l \<and> text_less xs ys)"
    unfolding pad2_def d [symmetric] append.simps text_less.simps digit_char [OF l(1)] digit_char [OF l(2)]
      digit_char [OF l(3)] digit_char [OF l(4)] digit_char_eq [OF l(1,3)] digit_char_eq [OF l(2,4)] by simp
  moreover have "a < b \<longleftrightarrow> i < k \<or> i = k \<and> j < l" using less_div_mod [of 10 a b] by (simp add: q)
  moreover have "a = b \<longleftrightarrow> i = k \<and> j = l"
    by (metis q mult_div_mod_eq [of 10 a] mult_div_mod_eq [of 10 b] of_nat_eq_iff)
  ultimately show ?thesis by auto
qed

lemma text_less_slot:
  assumes "0 \<le> a" "a < 1440" "0 \<le> b" "b < 1440"
  shows "text_less (slot_text a) (slot_text b) \<longleftrightarrow> a < b"
proof -
  have "a div 60 < 100" "b div 60 < 100" "0 \<le> a div 60" "0 \<le> b div 60" using assms by simp_all
  then have "text_less (slot_text a) (slot_text b) \<longleftrightarrow>
      a div 60 < b div 60 \<or> a div 60 = b div 60 \<and> a mod 60 < b mod 60"
    using text_less_pad2 [of "a mod 60" "b mod 60" "[]" "[]"] by (simp add: slot_text_def text_less_pad2)
  then show ?thesis using less_div_mod [of 60 a b] by simp
qed

end
