(* ===== verification/WebOrders.thy ===== *)
theory WebOrders
  imports WebClient SlotDates
begin

text \<open>
  The customer's pages: \<open>app/orders/[id]/page.tsx\<close>, which shows an order and offers what can be done with
  it, and the wizard that creates one (\<open>app/orders/new/page.tsx\<close> with the three steps of
  \<open>components/order\<close> and \<open>lib/wizard-store.ts\<close>).  \<open>txt\<close> writes an id the way the server prints it.
\<close>

section \<open>The page of an order\<close>

definition cancelable :: "order_status list" where
  "cancelable = [DRAFT, PRICED, SEARCHING, ASSIGNED, EN_ROUTE]"

definition live_tracking_statuses :: "order_status list" where
  "live_tracking_statuses = [ASSIGNED, EN_ROUTE, IN_PROGRESS]"

definition payable_statuses :: "order_status list" where
  "payable_statuses = [COMPLETED, CLOSED]"

definition offered_methods :: "payment_method list" where
  "offered_methods = [MOCK, CLICK, PAYME, UZUM]"

record order_view =
  ov_order :: order_dto
  ov_payments :: "payment_dto list"
  ov_review :: "review_dto option"
  ov_claim :: "claim_dto option"

text \<open>Each query of the page is answered on its own; what fails or is not asked is missing.\<close>

definition query :: "bool \<Rightarrow> orders_request \<Rightarrow> reply option web" where
  "query enabled q = (if enabled then web_try (with_retry (web_request True (A_Orders q))) else web_ok None)"

definition load_order :: "(id \<Rightarrow> string) \<Rightarrow> id \<Rightarrow> order_view web" where
  "load_order txt i =
     web_then (with_retry (web_request True (A_Orders (O_Get (txt i)))))
       (\<lambda>r. case r of
          R_Order d \<Rightarrow>
            web_then (query (dto_status d \<in> set payable_statuses) (O_Payments (txt i)))
              (\<lambda>ps. web_then (query (dto_status d = CLOSED) (O_Get_Review (txt i)))
                 (\<lambda>rv. web_then (query (dto_status d = CLOSED) (O_Get_Claim (txt i)))
                    (\<lambda>cl. web_ok
                       \<lparr>ov_order = d,
                        ov_payments = (case ps of Some (R_Payments l) \<Rightarrow> l | _ \<Rightarrow> []),
                        ov_review = (case rv of Some (R_Review x) \<Rightarrow> x | _ \<Rightarrow> None),
                        ov_claim = (case cl of Some (R_Claim x) \<Rightarrow> x | _ \<Rightarrow> None)\<rparr>)))
        | _ \<Rightarrow> web_fail Form_Error)"

datatype order_action =
    Do_Cancel
  | Do_Confirm
  | Do_Pay payment_method
  | Do_Review nat string
  | Do_Claim string
  | Do_Resume

text \<open>What the page lets the customer press, one condition for each block of the page.  The five stars give
  the ratings 1 to 5, the button stays disabled at 0.\<close>

definition shows_cancel :: "order_view \<Rightarrow> bool" where
  "shows_cancel v = (dto_status (ov_order v) \<in> set cancelable)"

definition shows_confirm :: "order_view \<Rightarrow> bool" where
  "shows_confirm v = (dto_status (ov_order v) = COMPLETED)"

definition shows_pay :: "order_view \<Rightarrow> payment_method \<Rightarrow> bool" where
  "shows_pay v m =
     (dto_status (ov_order v) \<in> set payable_statuses \<and> m \<in> set offered_methods
      \<and> (case ov_payments v of [] \<Rightarrow> True | p # _ \<Rightarrow> pd_status p = P_FAILED \<or> pd_status p = P_CANCELLED))"

definition shows_review :: "order_view \<Rightarrow> nat \<Rightarrow> bool" where
  "shows_review v n = (dto_status (ov_order v) = CLOSED \<and> ov_review v = None \<and> 1 \<le> n \<and> n \<le> 5)"

definition shows_claim :: "order_view \<Rightarrow> string \<Rightarrow> bool" where
  "shows_claim v reason = (dto_status (ov_order v) = CLOSED \<and> ov_claim v = None \<and> 10 \<le> length (trim reason))"

definition shows_resume :: "order_view \<Rightarrow> bool" where
  "shows_resume v = (dto_status (ov_order v) = DRAFT)"

lemmas shows_simps [simp] = shows_cancel_def shows_confirm_def shows_pay_def shows_review_def shows_claim_def shows_resume_def

fun offers :: "order_view \<Rightarrow> order_action \<Rightarrow> bool" where
  "offers v Do_Cancel = shows_cancel v"
| "offers v Do_Confirm = shows_confirm v"
| "offers v (Do_Pay m) = shows_pay v m"
| "offers v (Do_Review n comment) = shows_review v n"
| "offers v (Do_Claim reason) = shows_claim v reason"
| "offers v Do_Resume = shows_resume v"

text \<open>The text the server notes with a complaint is a display text of the server.\<close>

fun action_request :: "string \<Rightarrow> string \<Rightarrow> order_action \<Rightarrow> orders_request option" where
  "action_request note i Do_Cancel = Some (O_Cancel i)"
| "action_request note i Do_Confirm = Some (O_Confirm i)"
| "action_request note i (Do_Pay m) = Some (O_Pay i m)"
| "action_request note i (Do_Review n comment) =
     Some (O_Review i (of_nat n) (if trim comment = [] then None else Some (trim comment)) note)"
| "action_request note i (Do_Claim reason) = Some (O_Claim i (trim reason))"
| "action_request note i Do_Resume = None"

section \<open>The wizard\<close>

record wizard =
  wz_order :: "id option"
  wz_step :: nat

definition wizard_reset :: wizard where
  "wizard_reset = \<lparr>wz_order = None, wz_step = 1\<rparr>"

text \<open>Opening the page with an order to resume, with a category from the home page, or plainly.\<close>

definition wizard_open :: "id option \<Rightarrow> string option \<Rightarrow> wizard \<Rightarrow> wizard" where
  "wizard_open resume category z =
     (case resume of
        Some i \<Rightarrow> \<lparr>wz_order = Some i, wz_step = 1\<rparr>
      | None \<Rightarrow> (case category of Some c \<Rightarrow> if c = [] then z else wizard_reset | None \<Rightarrow> z))"

definition wizard_back :: "wizard \<Rightarrow> wizard option" where
  "wizard_back z = (if wz_step z = 1 then None else Some (z\<lparr>wz_step := wz_step z - 1\<rparr>))"

text \<open>The page loads the order of the wizard, and starts over when that fails for whatever reason.\<close>

definition wizard_load :: "(id \<Rightarrow> string) \<Rightarrow> wizard \<Rightarrow> world \<Rightarrow> (order_dto option \<times> wizard) \<times> world" where
  "wizard_load txt z w =
     (case wz_order z of
        None \<Rightarrow> ((None, z), w)
      | Some i \<Rightarrow>
          (case web_request True (A_Orders (O_Get (txt i))) w of
             (Inr (R_Order d), v) \<Rightarrow> ((Some d, z), v)
           | (_, v) \<Rightarrow> ((None, wizard_reset), v)))"

record description_form =
  df_category :: "id option"
  df_description :: string
  df_address :: string
  df_coords :: "(rat \<times> rat) option"
  df_staged :: "file_part list"

definition max_media :: nat where
  "max_media = 5"

definition max_photo_bytes :: nat where
  "max_photo_bytes = 10 * 1024 * 1024"

definition max_video_bytes :: nat where
  "max_video_bytes = 50 * 1024 * 1024"

fun part_size :: "file_part \<Rightarrow> nat" where
  "part_size (File_Part buffer mime) = length buffer"

definition pick_file :: "nat \<Rightarrow> media_kind \<Rightarrow> file_part \<Rightarrow> description_form \<Rightarrow> description_form option" where
  "pick_file existing kind part form =
     (if max_media \<le> existing + length (df_staged form) then None
      else if (case kind of PHOTO \<Rightarrow> max_photo_bytes | VIDEO \<Rightarrow> max_video_bytes) < part_size part then None
      else Some (form\<lparr>df_staged := df_staged form @ [part]\<rparr>))"

definition remove_staged :: "nat \<Rightarrow> description_form \<Rightarrow> description_form" where
  "remove_staged i form = form\<lparr>df_staged := take i (df_staged form) @ drop (Suc i) (df_staged form)\<rparr>"

definition no_update :: order_update_raw where
  "no_update = \<lparr>ow_category = None, ow_description = None, ow_tier = None, ow_scheduled = None, ow_address = None,
     ow_lat = None, ow_lng = None\<rparr>"

fun upload_all :: "string \<Rightarrow> file_part list \<Rightarrow> unit web" where
  "upload_all i [] = web_ok ()"
| "upload_all i (p # ps) =
     web_then (web_request True (A_Orders (O_Add_Media i (Some p)))) (\<lambda>_. upload_all i ps)"

definition form_complete :: "description_form \<Rightarrow> bool" where
  "form_complete form =
     (df_category form \<noteq> None \<and> 5 \<le> length (trim (df_description form))
      \<and> (trim (df_address form) \<noteq> [] \<or> df_coords form \<noteq> None))"

definition address_update :: "description_form \<Rightarrow> order_update_raw" where
  "address_update form =
     no_update\<lparr>ow_address := (if trim (df_address form) = [] then None else Some (trim (df_address form))),
       ow_lat := map_option fst (df_coords form), ow_lng := map_option snd (df_coords form)\<rparr>"

text \<open>\<open>current\<close> is the order the wizard knows of; it is set only when the whole step went through.\<close>

definition save_order :: "(id \<Rightarrow> string) \<Rightarrow> description_form \<Rightarrow> id option \<Rightarrow> id web" where
  "save_order txt form current =
     (let category = map_option txt (df_category form); description = trim (df_description form) in
      case current of
        None \<Rightarrow>
          web_then (web_request True (A_Orders (O_Create category description)))
            (\<lambda>r. case r of R_Id i \<Rightarrow> web_ok i | _ \<Rightarrow> web_fail Form_Error)
      | Some i \<Rightarrow>
          web_then (web_request True (A_Orders (O_Update (txt i)
              (no_update\<lparr>ow_category := category, ow_description := Some description\<rparr>))))
            (\<lambda>_. web_ok i))"

definition describe_step :: "(id \<Rightarrow> string) \<Rightarrow> description_form \<Rightarrow> id option \<Rightarrow> id web" where
  "describe_step txt form current =
     (if \<not> form_complete form then web_fail Form_Error
      else web_then (save_order txt form current)
        (\<lambda>i. web_then (web_request True (A_Orders (O_Update (txt i) (address_update form))))
           (\<lambda>_. web_then (upload_all (txt i) (df_staged form)) (\<lambda>_. web_ok i))))"

text \<open>A thumbnail is taken off at once and put back when its deletion fails.\<close>

definition remove_media :: "(id \<Rightarrow> string) \<Rightarrow> id \<Rightarrow> id \<Rightarrow> id list \<Rightarrow> world \<Rightarrow> id list \<times> world" where
  "remove_media txt order m removed w =
     (case web_request True (A_Orders (O_Delete_Media (txt order) (txt m))) w of
        (Inl e, v) \<Rightarrow> (filter (\<lambda>x. x \<noteq> m) (removed @ [m]), v)
      | (Inr _, v) \<Rightarrow> (removed @ [m], v))"

subsection \<open>The time of a visit\<close>

definition add_days :: "string \<Rightarrow> int \<Rightarrow> string option" where
  "add_days date k =
     (let ds = splits (CHR ''-'') date in
      case (piece ds 0 None, piece ds 1 (Some 1), piece ds 2 (Some 1)) of
        (Some y, Some m, Some d) \<Rightarrow>
          map_option (\<lambda>t. iso_date (t div 86400000)) (time_clip (date_utc y (m - 1) (d + k) 0 0))
      | _ \<Rightarrow> None)"

text \<open>\<open>seen\<close> is the time the slots were computed, when the page was drawn for that date.\<close>

definition available_slots :: "time \<Rightarrow> string \<Rightarrow> string list" where
  "available_slots seen date =
     (if date \<noteq> utc_to_date seen then order_time_slots
      else filter (text_less (utc_to_slot seen)) order_time_slots)"

datatype schedule_choice =
    Slot_Gone
  | Bad_Date
  | Send_Time "time option"

definition choose_time :: "time \<Rightarrow> service_tier \<Rightarrow> string \<Rightarrow> string \<Rightarrow> schedule_choice" where
  "choose_time seen tier date slot =
     (if tier \<noteq> SCHEDULED then Send_Time None
      else if slot \<notin> set (available_slots seen date) then Slot_Gone
      else case slot_to_utc date slot of None \<Rightarrow> Bad_Date | Some t \<Rightarrow> Send_Time (Some t))"

definition schedule_step :: "(id \<Rightarrow> string) \<Rightarrow> time \<Rightarrow> service_tier \<Rightarrow> string \<Rightarrow> string \<Rightarrow> id \<Rightarrow> unit web" where
  "schedule_step txt seen tier date slot i =
     (case choose_time seen tier date slot of
        Send_Time t \<Rightarrow>
          web_then (web_request True (A_Orders (O_Update (txt i)
              (no_update\<lparr>ow_tier := Some tier, ow_scheduled := Some t\<rparr>))))
            (\<lambda>_. web_then (web_request True (A_Orders (O_Diagnose (txt i)))) (\<lambda>_. web_ok ()))
      | _ \<Rightarrow> web_fail Form_Error)"

subsection \<open>The quote\<close>

text \<open>The last step can be pressed once the diagnosis is there and the terms are accepted.\<close>

definition quote_shown :: "order_dto \<Rightarrow> bool" where
  "quote_shown d = (dto_ai d \<noteq> None \<and> dto_price_min d \<noteq> None \<and> dto_price_max d \<noteq> None)"

definition quote_step :: "(id \<Rightarrow> string) \<Rightarrow> bool \<Rightarrow> order_dto \<Rightarrow> unit web" where
  "quote_step txt consent d =
     (if \<not> quote_shown d \<or> \<not> consent then web_fail Form_Error
      else web_then (web_request True (A_Orders (O_Submit (txt (dto_id d)) True))) (\<lambda>_. web_ok ()))"

end
