(* ===== verification/WebMaster.thy ===== *)
theory WebMaster
  imports WebClient
begin

text \<open>
  The master's pages: the dashboard \<open>app/master/page.tsx\<close> with the offer, the current job and the switch,
  and the onboarding form \<open>app/master/onboarding/page.tsx\<close>; and the administrator's pages under \<open>app/admin\<close>.
\<close>

section \<open>The dashboard\<close>

record dashboard =
  db_profile :: "master_profile_dto option"
  db_offer :: "offer_dto option"
  db_job :: "order_dto option"
  db_trust :: "trust_result option"
  db_verification :: "verification_dto option"
  db_subscription :: "subscription_dto option"

definition master_query :: "bool \<Rightarrow> api_request \<Rightarrow> reply option web" where
  "master_query enabled q = (if enabled then web_try (with_retry (web_request True q)) else web_ok None)"

text \<open>The offer is asked for only while the profile says the master is online.  The page sends its queries
  side by side; this is the order in which it lists them.\<close>

definition load_dashboard :: "dashboard web" where
  "load_dashboard =
     web_then (web_try (with_retry (web_request True (A_Master W_Get))))
       (\<lambda>pr. let profile = (case pr of Some (R_Profile p) \<Rightarrow> Some p | _ \<Rightarrow> None) in
        web_then (master_query (case profile of Some p \<Rightarrow> mp_online p | None \<Rightarrow> False) (A_Master W_Current_Offer))
          (\<lambda>off. web_then (web_try (with_retry (web_request True (A_Master W_Current_Job))))
             (\<lambda>job. web_then (web_try (with_retry (web_request True (A_Master_More W_Trust))))
                (\<lambda>tr. web_then (web_try (with_retry (web_request True (A_Master_More W_Verification))))
                   (\<lambda>ver. web_then (web_try (with_retry (web_request True (A_Master_More W_Subscription))))
                      (\<lambda>sub. web_ok
                         \<lparr>db_profile = profile,
                          db_offer = (case off of Some (R_Offer x) \<Rightarrow> x | _ \<Rightarrow> None),
                          db_job = (case job of Some (R_Job x) \<Rightarrow> x | _ \<Rightarrow> None),
                          db_trust = (case tr of Some (R_Trust x) \<Rightarrow> Some x | _ \<Rightarrow> None),
                          db_verification = (case ver of Some (R_Verification x) \<Rightarrow> x | _ \<Rightarrow> None),
                          db_subscription = (case sub of Some (R_Subscription x) \<Rightarrow> Some x | _ \<Rightarrow> None)\<rparr>))))))"

text \<open>The seconds left of an offer, from its last whole second counted by the browser.\<close>

definition countdown :: "time \<Rightarrow> offer_dto \<Rightarrow> int" where
  "countdown now f = max 0 (js_round (of_int (fd_expires f - now) / 1000))"

datatype job_action =
    Go_Online bool
  | Go_Accept
  | Go_Decline
  | Go_En_Route
  | Go_Start
  | Go_Cancel
  | Go_Evidence file_part
  | Go_Complete rat
  | Go_Upgrade

definition job_in :: "dashboard \<Rightarrow> order_status list \<Rightarrow> bool" where
  "job_in v sts = (case db_job v of None \<Rightarrow> False | Some d \<Rightarrow> dto_status d \<in> set sts)"

definition online_switch :: "dashboard \<Rightarrow> bool \<Rightarrow> bool" where
  "online_switch v b = (case db_profile v of None \<Rightarrow> False | Some p \<Rightarrow> b \<noteq> mp_online p)"

definition offer_card :: "time \<Rightarrow> dashboard \<Rightarrow> bool" where
  "offer_card now v = (case db_offer v of None \<Rightarrow> False | Some f \<Rightarrow> 0 < countdown now f)"

definition upgrade_card :: "dashboard \<Rightarrow> bool" where
  "upgrade_card v = (case db_subscription v of None \<Rightarrow> False | Some p \<Rightarrow> \<not> sd_premium p)"

text \<open>\<open>Go_Complete n\<close>: the number typed into the form; the button stays disabled up to 0.\<close>

fun job_offers :: "time \<Rightarrow> dashboard \<Rightarrow> job_action \<Rightarrow> bool" where
  "job_offers now v (Go_Online b) = online_switch v b"
| "job_offers now v Go_Accept = offer_card now v"
| "job_offers now v Go_Decline = offer_card now v"
| "job_offers now v Go_En_Route = job_in v [ASSIGNED]"
| "job_offers now v Go_Start = job_in v [EN_ROUTE]"
| "job_offers now v Go_Cancel = job_in v [ASSIGNED, EN_ROUTE]"
| "job_offers now v (Go_Evidence part) = job_in v [IN_PROGRESS, COMPLETED]"
| "job_offers now v (Go_Complete n) = (job_in v [IN_PROGRESS] \<and> 0 < n)"
| "job_offers now v Go_Upgrade = upgrade_card v"

definition of_job :: "dashboard \<Rightarrow> (id \<Rightarrow> string) \<Rightarrow> string" where
  "of_job v txt = (case db_job v of None \<Rightarrow> [] | Some d \<Rightarrow> txt (dto_id d))"

definition of_offer :: "dashboard \<Rightarrow> (id \<Rightarrow> string) \<Rightarrow> string" where
  "of_offer v txt = (case db_offer v of None \<Rightarrow> [] | Some f \<Rightarrow> txt (fd_dispatch f))"

fun job_request :: "(id \<Rightarrow> string) \<Rightarrow> dashboard \<Rightarrow> job_action \<Rightarrow> api_request" where
  "job_request txt v (Go_Online b) = A_Master (W_Availability b)"
| "job_request txt v Go_Accept = A_Master (W_Accept (of_offer v txt))"
| "job_request txt v Go_Decline = A_Master (W_Decline (of_offer v txt))"
| "job_request txt v Go_En_Route = A_Master (W_En_Route (of_job v txt))"
| "job_request txt v Go_Start = A_Master (W_Start (of_job v txt))"
| "job_request txt v Go_Cancel = A_Master_More (W_Cancel (of_job v txt) None)"
| "job_request txt v (Go_Evidence part) = A_Master_More (W_Job_Media (of_job v txt) (Some part))"
| "job_request txt v (Go_Complete n) = A_Master (W_Complete (of_job v txt) (of_int (js_round n)))"
| "job_request txt v Go_Upgrade = A_Master_More W_Upgrade"

section \<open>Onboarding\<close>

record onboarding_form =
  ob_name :: string
  ob_years :: "rat option"
  ob_bio :: string
  ob_skills :: "id list"
  ob_label :: string
  ob_lat :: "rat option"
  ob_lng :: "rat option"
  ob_radius :: rat
  ob_avatar :: "file_part option"
  ob_certificates :: "file_part list"

text \<open>Opening the form copies an existing profile into it, with the first of its areas.\<close>

definition prefill :: "master_profile_dto \<Rightarrow> onboarding_form \<Rightarrow> onboarding_form" where
  "prefill p form =
     (let filled = form\<lparr>ob_name := (case mp_name p of None \<Rightarrow> [] | Some n \<Rightarrow> n),
                       ob_bio := (case mp_bio p of None \<Rightarrow> [] | Some b \<Rightarrow> b),
                       ob_years := Some (of_int (mp_years p)),
                       ob_skills := map (\<lambda>(i, slug, uz, ru). i) (mp_skills p)\<rparr>
      in case mp_areas p of
           [] \<Rightarrow> filled
         | (i, label, lat, lng, radius) # _ \<Rightarrow>
             filled\<lparr>ob_label := label, ob_lat := Some lat, ob_lng := Some lng, ob_radius := of_int radius\<rparr>)"

definition toggle_skill :: "id \<Rightarrow> id list \<Rightarrow> id list" where
  "toggle_skill i ks = (if i \<in> set ks then filter (\<lambda>k. k \<noteq> i) ks else ks @ [i])"

definition onboarding_ready :: "onboarding_form \<Rightarrow> bool" where
  "onboarding_ready form =
     (2 \<le> length (trim (ob_name form)) \<and> ob_skills form \<noteq> [] \<and> ob_lat form \<noteq> None \<and> ob_lng form \<noteq> None)"

text \<open>What is sent, without the picture; an unreadable number of years counts as 0.\<close>

definition onboarding_payload :: "(id \<Rightarrow> string) \<Rightarrow> onboarding_form \<Rightarrow> master_profile_dto option \<Rightarrow> master_profile_raw option" where
  "onboarding_payload txt form profile =
     (case (ob_lat form, ob_lng form) of
        (Some lat, Some lng) \<Rightarrow>
          Some \<lparr>mw_name = trim (ob_name form), mw_avatar = None,
            mw_years = (case ob_years form of None \<Rightarrow> 0 | Some n \<Rightarrow> n),
            mw_bio = (if trim (ob_bio form) = [] then None else Some (trim (ob_bio form))),
            mw_skills = Some (map txt (ob_skills form)),
            mw_areas = Some [\<lparr>rw_label = (if trim (ob_label form) = [] then ''Ish hududim'' else trim (ob_label form)),
                              rw_lat = lat, rw_lng = lng, rw_radius = ob_radius form\<rparr>],
            mw_pinfl = None,
            mw_self_employed = Some (case profile of None \<Rightarrow> False | Some p \<Rightarrow> mp_self_employed p)\<rparr>
      | _ \<Rightarrow> None)"

fun upload_certificates :: "file_part list \<Rightarrow> unit web" where
  "upload_certificates [] = web_ok ()"
| "upload_certificates (p # ps) =
     web_then (web_request True (A_Master (W_Add_Media CERTIFICATION None (Some p)))) (\<lambda>_. upload_certificates ps)"

definition upload_avatar :: "(id \<Rightarrow> string) \<Rightarrow> onboarding_form \<Rightarrow> master_profile_dto option \<Rightarrow> string option web" where
  "upload_avatar url form profile =
     (case ob_avatar form of
        None \<Rightarrow> web_ok (case profile of None \<Rightarrow> None | Some p \<Rightarrow> mp_avatar p)
      | Some part \<Rightarrow>
          web_then (web_request True (A_Master (W_Add_Media PORTFOLIO None (Some part))))
            (\<lambda>r. case r of R_Id i \<Rightarrow> web_ok (Some (url i)) | _ \<Rightarrow> web_fail Form_Error))"

definition needs_verification :: "master_profile_dto option \<Rightarrow> bool" where
  "needs_verification profile =
     (case profile of None \<Rightarrow> True | Some p \<Rightarrow> mp_verification p = V_UNVERIFIED \<or> mp_verification p = V_REJECTED)"

text \<open>\<open>url\<close> is the address a picture is served at.\<close>

definition submit_onboarding ::
  "formats \<Rightarrow> (id \<Rightarrow> string) \<Rightarrow> (id \<Rightarrow> string) \<Rightarrow> onboarding_form \<Rightarrow> master_profile_dto option \<Rightarrow> unit web" where
  "submit_onboarding fm txt url form profile =
     (case onboarding_payload txt form profile of
        None \<Rightarrow> web_fail (Api_Error 400)
      | Some payload \<Rightarrow>
          (case parse_master_profile fm payload of
             None \<Rightarrow> web_fail (Api_Error 400)
           | Some d \<Rightarrow>
               web_then (upload_avatar url form profile)
                 (\<lambda>avatar. web_then (upload_certificates (ob_certificates form))
                    (\<lambda>_. web_then (web_request True (A_Master (W_Update
                        (encode_master_profile txt (d\<lparr>mu_avatar := avatar\<rparr>)))))
                       (\<lambda>_. if needs_verification profile
                            then web_then (web_request True (A_Master_More (W_Submit None))) (\<lambda>_. web_ok ())
                            else web_ok ())))))"

section \<open>Administration\<close>

text \<open>The pages of one order and of one user, and the lists of requests and claims.\<close>

datatype admin_action =
    Ad_Resolve payment_row bool string
  | Ad_Suspend string
  | Ad_Restore
  | Ad_Verification id bool string
  | Ad_Claim id bool string
  | Ad_New_Flag string string
  | Ad_Toggle_Flag flag_row

definition resolve_offered :: "payment_row \<Rightarrow> bool \<Rightarrow> string \<Rightarrow> bool" where
  "resolve_offered p refund note_text =
     ((p_note p = None \<or> p_note p = Some []) \<and> 3 \<le> length (trim note_text) \<and> (refund \<longrightarrow> p_status p = P_SUCCEEDED))"

definition suspension_offered :: "user_status \<Rightarrow> string option \<Rightarrow> bool" where
  "suspension_offered st reason =
     (case reason of None \<Rightarrow> st = U_SUSPENDED | Some r \<Rightarrow> st \<noteq> U_SUSPENDED \<and> 3 \<le> length (trim r))"

fun admin_offers :: "user_status \<Rightarrow> admin_action \<Rightarrow> bool" where
  "admin_offers st (Ad_Resolve p refund note_text) = resolve_offered p refund note_text"
| "admin_offers st (Ad_Suspend reason) = suspension_offered st (Some reason)"
| "admin_offers st Ad_Restore = suspension_offered st None"
| "admin_offers st (Ad_Verification i approve nt) = True"
| "admin_offers st (Ad_Claim i approve nt) = True"
| "admin_offers st (Ad_New_Flag key description) = (trim key \<noteq> [])"
| "admin_offers st (Ad_Toggle_Flag f) = True"

definition given :: "string \<Rightarrow> string option" where
  "given x = (if trim x = [] then None else Some (trim x))"

definition resolve_request :: "(id \<Rightarrow> string) \<Rightarrow> payment_row \<Rightarrow> bool \<Rightarrow> string \<Rightarrow> admin_request" where
  "resolve_request txt p refund note_text = Z_Resolve (txt (p_id p)) refund (trim note_text)"

definition suspension_request :: "string \<Rightarrow> string option \<Rightarrow> admin_request" where
  "suspension_request u reason = (case reason of None \<Rightarrow> Z_Restore u | Some r \<Rightarrow> Z_Suspend u (trim r))"

definition verification_request :: "string \<Rightarrow> bool \<Rightarrow> string \<Rightarrow> admin_request" where
  "verification_request i approve nt = Z_Decide_Verification i approve (given nt)"

definition claim_request :: "string \<Rightarrow> bool \<Rightarrow> string \<Rightarrow> admin_request" where
  "claim_request i approve nt = Z_Decide_Claim i approve (given nt)"

definition new_flag_request :: "string \<Rightarrow> string \<Rightarrow> admin_request" where
  "new_flag_request key description = Z_Set_Flag (trim key) False (given description)"

definition toggle_flag_request :: "flag_row \<Rightarrow> admin_request" where
  "toggle_flag_request f = Z_Set_Flag (ff_key f) (\<not> ff_enabled f) (ff_description f)"

fun admin_action_request :: "(id \<Rightarrow> string) \<Rightarrow> id \<Rightarrow> admin_action \<Rightarrow> admin_request" where
  "admin_action_request txt u (Ad_Resolve p refund note_text) = resolve_request txt p refund note_text"
| "admin_action_request txt u (Ad_Suspend reason) = suspension_request (txt u) (Some reason)"
| "admin_action_request txt u Ad_Restore = suspension_request (txt u) None"
| "admin_action_request txt u (Ad_Verification i approve nt) = verification_request (txt i) approve nt"
| "admin_action_request txt u (Ad_Claim i approve nt) = claim_request (txt i) approve nt"
| "admin_action_request txt u (Ad_New_Flag key description) = new_flag_request key description"
| "admin_action_request txt u (Ad_Toggle_Flag f) = toggle_flag_request f"

end
