(* ===== verification/AiService.thy ===== *)
theory AiService
  imports Orders
begin

text \<open>
  The diagnosis behind an order, \<open>modules/ai\<close>: the keyword heuristics of \<open>MockAiProvider\<close>, the provider that
  asks Claude, and \<open>AiService\<close>, which falls back from the second to the first.  The answer of Claude is
  the parameter \<open>ai_claude\<close>; the wording of the summary, a display text, the parameter \<open>ai_say\<close>.

  Texts are compared as UTF-16 code units, since the keywords are in Latin and in Cyrillic letters.
  \<open>toLowerCase\<close> is exact on Latin-1 and the basic Cyrillic block.
\<close>

section \<open>Keywords\<close>

definition units :: "string \<Rightarrow> nat list" where
  "units x = map of_char x"

definition lower_unit :: "nat \<Rightarrow> nat" where
  "lower_unit c =
     (if 65 \<le> c \<and> c \<le> 90 \<or> 192 \<le> c \<and> c \<le> 222 \<and> c \<noteq> 215 \<or> 1040 \<le> c \<and> c \<le> 1071 then c + 32
      else if 1024 \<le> c \<and> c \<le> 1039 then c + 80 else c)"

definition lowered :: "string \<Rightarrow> nat list" where
  "lowered x = map lower_unit (units x)"

fun text_includes :: "nat list \<Rightarrow> nat list \<Rightarrow> bool" where
  "text_includes [] w = (w = [])"
| "text_includes (x # xs) w = (take (length w) (x # xs) = w \<or> text_includes xs w)"

definition category_keywords :: "(string \<times> nat list list) list" where
  "category_keywords =
     [(''plumber'',
        [units ''kran'', units ''suv'', units ''quvur'', units ''oqmoqda'', units ''oqyapti'',
         units ''santex'', units ''unitaz'', units ''rakovina'', [1074, 1086, 1076, 1072],
         [1082, 1088, 1072, 1085], [1090, 1088, 1091, 1073], [1090, 1077, 1095, 1077, 1090],
         [1089, 1072, 1085, 1090, 1077, 1093]]),
      (''electrician'',
        [units ''rozetka'', units ''tok'', units ''elektr'', units ''chiroq'', units ''svet'',
         units ''vyklyuchatel'', units ''sim'', [1087, 1088, 1086, 1074, 1086, 1076],
         [1088, 1086, 1079, 1077, 1090, 1082], [1089, 1074, 1077, 1090],
         [1101, 1083, 1077, 1082, 1090, 1088], [1074, 1099, 1082, 1083, 1102, 1095, 1072, 1090, 1077, 1083]]),
      (''ac-technician'',
        [units ''konditsioner'', units ''kondey'', units ''sovutish'', units ''kondits'',
         [1082, 1086, 1085, 1076, 1080, 1094, 1080, 1086, 1085, 1077, 1088],
         [1082, 1086, 1085, 1076, 1077, 1081], [1086, 1093, 1083, 1072, 1078, 1076]]),
      (''cleaner'',
        [units ''tozalash'', units ''toza'', units ''yuvish'', units ''uborka'',
         [1091, 1073, 1086, 1088, 1082], [1095, 1080, 1089, 1090], [1084, 1099, 1090, 1100]]),
      (''renovation'',
        [units ''ta'' @ [39] @ units ''mir'', units ''tamir'', units ''devor'', units ''shtukatur'', units ''oboyi'',
         units ''gips'', units ''pol '', [1088, 1077, 1084, 1086, 1085, 1090], [1089, 1090, 1077, 1085],
         [1096, 1090, 1091, 1082, 1072, 1090, 1091, 1088], [1086, 1073, 1086, 1080]]),
      (''handyman'',
        [units ''osish'', units ''o'' @ [39] @ units ''rnatish'', units ''ornatish'', units ''yigish'',
         units ''mebel'' @ [39], units ''mebel'', units ''polka'', units ''karniz'',
         [1087, 1086, 1074, 1077, 1089, 1080, 1090, 1100], [1089, 1086, 1073, 1088, 1072, 1090, 1100],
         [1084, 1077, 1073, 1077, 1083, 1100], [1091, 1089, 1090, 1072, 1085, 1086, 1074]])]"

definition critical_keywords :: "nat list list" where
  "critical_keywords =
     [units ''portla'', units ''gaz'', units ''suv bosdi'', units ''toshdi'', units ''tok urdi'',
      units ''yong'', units ''kuydi'', [1079, 1072, 1090, 1086, 1087, 1080, 1083],
      [1087, 1086, 1090, 1086, 1087], [1074, 1079, 1088, 1099, 1074], [1075, 1086, 1088, 1080, 1090],
      [1087, 1086, 1078, 1072, 1088], [1073, 1100, 1077, 1090, 32, 1090, 1086, 1082, 1086, 1084]]"

definition complex_keywords :: "nat list list" where
  "complex_keywords =
     [units ''almashtirish'', units ''montaj'', units ''to'' @ [39] @ units ''liq'', units ''toliq'',
      units ''butun'', units ''hammasi'', [1079, 1072, 1084, 1077, 1085],
      [1084, 1086, 1085, 1090, 1072, 1078], [1087, 1086, 1083, 1085, 1086, 1089, 1090, 1100],
      [1074, 1077, 1089, 1100]]"

section \<open>The deterministic provider\<close>

definition keyword_hits :: "nat list \<Rightarrow> nat list list \<Rightarrow> nat" where
  "keyword_hits t ws = length (filter (text_includes t) ws)"

definition best_match :: "nat list \<Rightarrow> string option \<times> nat" where
  "best_match t =
     foldl (\<lambda>(best, n) (slug, ws). if n < keyword_hits t ws then (Some slug, keyword_hits t ws) else (best, n))
       (None, 0) category_keywords"

definition classify_complexity :: "nat list \<Rightarrow> service_tier \<Rightarrow> complexity" where
  "classify_complexity t tier =
     (if tier = EMERGENCY \<or> list_ex (text_includes t) critical_keywords then CRITICAL
      else if list_ex (text_includes t) complex_keywords \<or> 400 < length t then COMPLEX
      else if length t < 60 then SIMPLE
      else MEDIUM)"

record claude_output =
  co_summary :: string
  co_slug :: string
  co_complexity :: complexity
  co_confidence :: rat

datatype claude_reply =
    Claude_Failed
  | Claude_Stopped
  | Claude_Output claude_output

record ai_ctx =
  ai_env :: env
  ai_claude :: "ai_input \<Rightarrow> claude_reply"
  ai_say :: "string \<Rightarrow> string option \<Rightarrow> complexity \<Rightarrow> string"

definition mock_confidence :: "nat \<Rightarrow> rat" where
  "mock_confidence hits = min (fl64 (85 / 100)) (fl64 (1 / 2 + fl64 (of_nat hits * fl64 (1 / 10))))"

definition mock_diagnose :: "ai_ctx \<Rightarrow> ai_input \<Rightarrow> ai_diagnosis" where
  "mock_diagnose ctx inp =
     (let t = lowered (di_description inp);
          (best, hits) = best_match t;
          match = (case best of None \<Rightarrow> None | Some g \<Rightarrow> List.find (\<lambda>(i, slug, nm). slug = g) (di_categories inp));
          cx = classify_complexity t (di_tier inp);
          nm = (case match of Some (i, slug, nm) \<Rightarrow> Some nm
                | None \<Rightarrow> map_option (\<lambda>(i, slug, nm). nm)
                    (List.find (\<lambda>(i, slug, nm). Some i = di_current inp) (di_categories inp)))
      in \<lparr>ai_summary = ai_say ctx (di_description inp) nm cx,
          ai_category = map_option (\<lambda>(i, slug, nm). i) match,
          ai_slug = map_option (\<lambda>(i, slug, nm). slug) match,
          ai_complexity = cx, ai_confidence = mock_confidence hits,
          ai_source = ''mock'', ai_version = ''v1''\<rparr>)"

section \<open>Claude and the facade\<close>

definition claude_diagnose :: "ai_ctx \<Rightarrow> ai_input \<Rightarrow> ai_diagnosis option" where
  "claude_diagnose ctx inp =
     (case ai_claude ctx inp of
        Claude_Output out \<Rightarrow>
          (let match = List.find (\<lambda>(i, slug, nm). slug = co_slug out) (di_categories inp)
           in Some \<lparr>ai_summary = co_summary out,
                ai_category = map_option (\<lambda>(i, slug, nm). i) match,
                ai_slug = map_option (\<lambda>(i, slug, nm). slug) match,
                ai_complexity = co_complexity out, ai_confidence = co_confidence out,
                ai_source = ''claude'', ai_version = ''v1''\<rparr>)
      | _ \<Rightarrow> None)"

definition claude_enabled :: "env \<Rightarrow> bool" where
  "claude_enabled e = (AI_PROVIDER e = Ai_Claude \<and> ANTHROPIC_API_KEY e \<noteq> [])"

definition ai_diagnose :: "ai_ctx \<Rightarrow> ai_input \<Rightarrow> ai_diagnosis" where
  "ai_diagnose ctx inp =
     (if claude_enabled (ai_env ctx)
      then (case claude_diagnose ctx inp of Some d \<Rightarrow> d | None \<Rightarrow> mock_diagnose ctx inp)
      else mock_diagnose ctx inp)"

section \<open>Properties of the heuristics\<close>

lemma includes_iff: "text_includes t w \<longleftrightarrow> (\<exists>a b. t = a @ w @ b)"
proof (induction t)
  case (Cons x t)
  show ?case
  proof
    assume "text_includes (x # t) w"
    then consider "take (length w) (x # t) = w" | "text_includes t w" by auto
    then show "\<exists>a b. x # t = a @ w @ b"
    proof cases
      case 1
      then have "x # t = [] @ w @ drop (length w) (x # t)" by (metis append_Nil append_take_drop_id)
      then show ?thesis by blast
    next
      case 2
      then obtain a b where "x # t = (x # a) @ w @ b" using Cons.IH by auto
      then show ?thesis by blast
    qed
  next
    assume "\<exists>a b. x # t = a @ w @ b"
    then obtain a b where e: "x # t = a @ w @ b" by blast
    show "text_includes (x # t) w"
    proof (cases a)
      case Nil
      then have "take (length w) (x # t) = w" using e by simp
      then show ?thesis by (simp only: text_includes.simps simp_thms)
    next
      case (Cons y ys)
      then show ?thesis using e Cons.IH by auto
    qed
  qed
qed auto

lemma includes_longer: "text_includes t w \<Longrightarrow> text_includes (a @ t @ b) w"
  unfolding includes_iff by (metis append.assoc)

lemma lowered_append: "lowered (a @ b) = lowered a @ lowered b"
  by (simp add: lowered_def units_def)

text \<open>More words never make a job look easier.\<close>

lemma classify_longer:
  "classify_complexity t tier \<le> classify_complexity (a @ t @ b) tier"
proof -
  have k: "list_ex (text_includes t) ws \<Longrightarrow> list_ex (text_includes (a @ t @ b)) ws" for ws
    by (auto simp: list_ex_iff intro: includes_longer)
  show ?thesis
    using k [of critical_keywords] k [of complex_keywords]
    by (simp add: classify_complexity_def less_eq_complexity_def)
qed

lemma classify_emergency: "classify_complexity t EMERGENCY = CRITICAL"
  by (simp add: classify_complexity_def)

lemma mock_complexity: "ai_complexity (mock_diagnose ctx inp) = classify_complexity (lowered (di_description inp)) (di_tier inp)"
  by (simp add: mock_diagnose_def Let_def split: prod.splits)

lemma mock_confidence_bounds: "1 / 2 \<le> mock_confidence n" "mock_confidence n \<le> 1"
proof -
  have "fl64 (1 / 2) = 1 / 2" "fl64 (85 / 100) \<le> 1" "1 / 2 \<le> fl64 (85 / 100)" by code_simp+
  moreover have "fl64 (1 / 2) \<le> fl64 (1 / 2 + fl64 (of_nat n * fl64 (1 / 10)))"
    by (intro double.fl_mono) (simp add: double.fl_nonneg)
  ultimately show "1 / 2 \<le> mock_confidence n" "mock_confidence n \<le> 1"
    by (simp_all add: mock_confidence_def)
qed

lemma found_category: "List.find P xs = Some x \<Longrightarrow> x \<in> set xs"
  by (auto simp: find_Some_iff)

lemma mock_category:
  "case ai_category (mock_diagnose ctx inp) of
     None \<Rightarrow> ai_slug (mock_diagnose ctx inp) = None
   | Some i \<Rightarrow> \<exists>slug nm. (i, slug, nm) \<in> set (di_categories inp) \<and> ai_slug (mock_diagnose ctx inp) = Some slug"
  by (auto simp: mock_diagnose_def Let_def split: prod.splits option.splits dest: found_category)

lemma claude_category:
  assumes "claude_diagnose ctx inp = Some d"
  shows "case ai_category d of None \<Rightarrow> ai_slug d = None
     | Some i \<Rightarrow> \<exists>slug nm. (i, slug, nm) \<in> set (di_categories inp) \<and> ai_slug d = Some slug"
proof -
  obtain out where d: "ai_claude ctx inp = Claude_Output out"
    using assms by (auto simp: claude_diagnose_def split: claude_reply.splits)
  let ?m = "List.find (\<lambda>(i, slug, nm). slug = co_slug out) (di_categories inp)"
  have c: "ai_category d = map_option (\<lambda>(i, slug, nm). i) ?m" "ai_slug d = map_option (\<lambda>(i, slug, nm). slug) ?m"
    using assms d by (auto simp: claude_diagnose_def Let_def)
  show ?thesis
  proof (cases ?m)
    case (Some x)
    then show ?thesis using found_category [OF Some] unfolding c by (cases x) auto
  qed (simp add: c)
qed

end
