(* ===== verification/WebLemmas.thy ===== *)
theory WebLemmas
  imports WebOrders WebMaster ApiService AiService
begin

text \<open>
  What the browser can rely on: how a request of the client acts on the database, whatever gets lost on
  the way, and which answers the server gives to the requests the pages offer.
\<close>

section \<open>Programs of the browser\<close>

lemma web_then_simps [simp]:
  "m w = (Inr x, v) \<Longrightarrow> web_then m f w = f x v"
  "m w = (Inl e, v) \<Longrightarrow> web_then m f w = (Inl e, v)"
  by (simp_all add: web_then_def)

lemma web_ok_apply [simp]: "web_ok x w = (Inr x, w)" "web_fail e w = (Inl e, w)"
  by (simp_all add: web_ok_def web_fail_def)

lemma web_then_cases:
  obtains (failed) e v where "m w = (Inl e, v)" "web_then m f w = (Inl e, v)"
  | (went) x v where "m w = (Inr x, v)" "web_then m f w = f x v"
  by (cases "m w" rule: prod.exhaust; cases "fst (m w)") (auto simp: web_then_def)

lemma fetch_cases:
  obtains (no_hop) "wl_hops w = []" "fetch header q w = (None, w)"
  | (lost) h hs v where "wl_hops w = h # hs" "fetch header q w = (None, v)" "wl_hops v = hs" "wl_token v = wl_token w"
      "wl_db v = wl_db w \<or> wl_db v = snd (serve_api (hp_ctx h) header q (wl_db w))"
  | (heard) h hs v where "wl_hops w = h # hs" "hp_fate h = Arrives"
      "fetch header q w = (Some (fst (serve_api (hp_ctx h) header q (wl_db w))), v)" "wl_hops v = hs"
      "wl_token v = wl_token w" "wl_db v = snd (serve_api (hp_ctx h) header q (wl_db w))"
proof (cases "wl_hops w")
  case Nil
  then show ?thesis by (intro no_hop) (simp_all add: fetch_def)
next
  case (Cons h hs)
  obtain r t where r: "serve_api (hp_ctx h) header q (wl_db w) = (r, t)" by fastforce
  show ?thesis
  proof (cases "hp_fate h")
    case Arrives
    show ?thesis by (rule heard [OF Cons Arrives, of "snd (fetch header q w)"]) (simp_all add: fetch_def Cons r Arrives)
  next
    case Request_Lost
    show ?thesis by (rule lost [OF Cons, of "snd (fetch header q w)"]) (simp_all add: fetch_def Cons r Request_Lost)
  next
    case Reply_Lost
    show ?thesis by (rule lost [OF Cons, of "snd (fetch header q w)"]) (simp_all add: fetch_def Cons r Reply_Lost)
  qed
qed

lemma with_retry_ok [simp]: "m w = (Inr x, v) \<Longrightarrow> with_retry m w = (Inr x, v)"
  by (simp add: with_retry_def)

section \<open>What the server keeps, the browser keeps\<close>

text \<open>A property of the database that every request of a class keeps is kept by every program of the
  browser that sends only such requests, whatever is lost, repeated or refused.\<close>

locale kept_by_server =
  fixes R :: "api_request \<Rightarrow> bool"
    and Q :: "db \<Rightarrow> bool"
  assumes served: "R q \<Longrightarrow> Q s \<Longrightarrow> Q (snd (serve_api ctx header q s))"
begin

definition keeps :: "'a web \<Rightarrow> bool" where
  "keeps m = (\<forall>w. Q (wl_db w) \<longrightarrow> Q (wl_db (snd (m w))))"

lemma fetch_keeps: "R q \<Longrightarrow> Q (wl_db w) \<Longrightarrow> Q (wl_db (snd (fetch header q w)))"
  by (cases rule: fetch_cases [of w header q]) (auto intro: served)

lemma request_keeps: "R q \<Longrightarrow> keeps (web_request auth q)"
proof -
  assume R: "R q"
  have "Q (wl_db (snd (web_request auth q w)))" if "Q (wl_db w)" for w
  proof -
    obtain r v where f: "fetch (auth_header auth w) q w = (r, v)" by fastforce
    then have "Q (wl_db v)" using fetch_keeps [OF R that] by (metis snd_conv)
    moreover obtain r' u where g: "fetch (auth_header auth w) q v = (r', u)" by fastforce
    ultimately have "Q (wl_db u)" using fetch_keeps [OF R] by (metis snd_conv)
    then show ?thesis using f g \<open>Q (wl_db v)\<close> by (auto simp: web_request_def Let_def split: option.splits)
  qed
  then show ?thesis by (simp add: keeps_def)
qed

lemma then_keeps: "keeps m \<Longrightarrow> (\<And>x. keeps (f x)) \<Longrightarrow> keeps (web_then m f)"
  unfolding keeps_def
proof safe
  fix w :: world
  assume m: "\<forall>w. Q (wl_db w) \<longrightarrow> Q (wl_db (snd (m w)))" and f: "\<And>x. \<forall>w. Q (wl_db w) \<longrightarrow> Q (wl_db (snd (f x w)))"
    and w: "Q (wl_db w)"
  show "Q (wl_db (snd (web_then m f w)))"
    using m [rule_format, OF w] f by (cases rule: web_then_cases [of m w f]) simp_all
qed

lemma retry_keeps: "keeps m \<Longrightarrow> keeps (with_retry m)"
  by (auto simp: keeps_def with_retry_def split: prod.splits sum.splits) (metis snd_conv)+

lemma ok_keeps [simp]: "keeps (web_ok x)" "keeps (web_fail e)"
  by (simp_all add: keeps_def)

lemma uploads_keep: "(\<And>p. R (A_Orders (O_Add_Media i (Some p)))) \<Longrightarrow> keeps (upload_all i ps)"
  by (induction ps) (auto intro!: then_keeps request_keeps)

end

interpretation orders_kept: kept_by_server "\<lambda>_. True" order_inv
  using serve_api_runs runs_inv by unfold_locales blast

section \<open>Lost and repeated requests\<close>

text \<open>The server of all hops is the same one: it reads tokens and ids the same way.\<close>

definition same_server :: "(string \<Rightarrow> claims option) \<Rightarrow> formats \<Rightarrow> world \<Rightarrow> bool" where
  "same_server rd fm w = (\<forall>h \<in> set (wl_hops w). ap_read (hp_ctx h) = rd \<and> ap_formats (hp_ctx h) = fm)"

lemma request_effect:
  "wl_db (snd (web_request auth q w)) = wl_db w
   \<or> (\<exists>h \<in> set (wl_hops w). wl_db (snd (web_request auth q w)) = snd (serve_api (hp_ctx h) (auth_header auth w) q (wl_db w)))
   \<or> method_of q \<noteq> POST \<and> (\<exists>h \<in> set (wl_hops w). \<exists>k \<in> set (wl_hops w). wl_db (snd (web_request auth q w))
         = snd (serve_api (hp_ctx k) (auth_header auth w) q (snd (serve_api (hp_ctx h) (auth_header auth w) q (wl_db w)))))"
proof -
  let ?hd = "auth_header auth w"
  have m: "method_of q \<in> set retryable_methods \<longleftrightarrow> method_of q \<noteq> POST"
    by (cases "method_of q") (simp_all add: retryable_methods_def)
  show ?thesis
  proof (cases rule: fetch_cases [of w ?hd q])
    case no_hop
    then show ?thesis by (simp add: web_request_def)
  next
    case (heard h hs v)
    then show ?thesis by (auto simp: web_request_def)
  next
    case (lost h hs v)
    show ?thesis
    proof (cases rule: fetch_cases [of v ?hd q])
      case no_hop
      then show ?thesis using lost by (auto simp: web_request_def)
    next
      case (lost h' hs' v')
      then show ?thesis using \<open>wl_hops w = h # hs\<close> \<open>fetch ?hd q w = (None, v)\<close> \<open>wl_hops v = hs\<close>
          \<open>wl_db v = wl_db w \<or> wl_db v = snd (serve_api (hp_ctx h) ?hd q (wl_db w))\<close> m
        by (auto simp: web_request_def)
    next
      case (heard h' hs' v')
      then show ?thesis using \<open>wl_hops w = h # hs\<close> \<open>fetch ?hd q w = (None, v)\<close> \<open>wl_hops v = hs\<close>
          \<open>wl_db v = wl_db w \<or> wl_db v = snd (serve_api (hp_ctx h) ?hd q (wl_db w))\<close> m
        by (auto simp: web_request_def)
    qed
  qed
qed

lemma update_draft_cases:
  "snd (update_draft now c i u s) = s \<or>
   (\<exists>x. get_owned c i s = Inr x \<and> o_status x \<in> set editable_statuses \<and> snd (update_draft now c i u s) = edit_commit now c x u s)"
  by (auto simp: update_draft_def with_order_def check_def raise_def ok_def split: sum.splits option.splits)

lemma edit_commit_orders:
  "orders (edit_commit now c x u s) = update_rows (\<lambda>r. o_id r = o_id x)
     (if invalidates_quote x u then \<lambda>r. unquote_row (edit_row u r) else edit_row u) (orders s)"
  by (simp add: edit_commit_def add_history_def)

lemma edit_again: "edit_row u (edit_row u r) = edit_row u r" "edit_row u (unquote_row (edit_row u r)) = unquote_row (edit_row u r)"
  by (simp_all add: edit_row_def unquote_row_def or_keep_def or_keep_some_def split: option.splits)

lemma edit_twice:
  assumes "find_order i s = Some x"
    and t_def: "t = edit_commit now c x u s" and "find_order i t = Some y"
  shows "edit_commit now' c y u t = t"
proof -
  let ?f = "if invalidates_quote x u then \<lambda>r. unquote_row (edit_row u r) else edit_row u"
  have x: "o_id x = i" using assms(1) by (simp add: find_order_id)
  have f: "o_id (?f r) = o_id r" for r by (simp add: edit_row_def unquote_row_def)
  have "find_order i t = map_option (\<lambda>r. if o_id r = i then ?f r else r) (find_order i s)"
    unfolding find_order_def t_def edit_commit_orders x using f by (intro find_row_update_rows) simp
  then have y: "y = ?f x" using assms(1,3) x by simp
  then have ny: "\<not> invalidates_quote y u"
    by (auto simp: invalidates_quote_def edit_row_def unquote_row_def)
  have "update_rows (\<lambda>r. o_id r = i) (edit_row u) (update_rows (\<lambda>r. o_id r = i) ?f (orders s))
      = update_rows (\<lambda>r. o_id r = i) ?f (orders s)"
    using f by (auto simp: update_rows_def edit_again)
  then have e: "update_rows (\<lambda>r. o_id r = i) (edit_row u) (orders t) = orders t" by (simp add: t_def edit_commit_orders x)
  have "o_id y = i" using y f x by simp
  then have "edit_commit now' c y u t = t\<lparr>orders := update_rows (\<lambda>r. o_id r = i) (edit_row u) (orders t)\<rparr>"
    using ny by (simp add: edit_commit_def)
  then show ?thesis by (simp add: e)
qed

lemma update_draft_again:
  "snd (update_draft now' c i u (snd (update_draft now c i u s)))
     \<in> {snd (update_draft now c i u s), snd (update_draft now' c i u s)}"
proof (cases "snd (update_draft now c i u s) = s")
  case False
  let ?t = "snd (update_draft now c i u s)"
  obtain x where x: "get_owned c i s = Inr x" "?t = edit_commit now c x u s"
    using False update_draft_cases [of now c i u s] by blast
  then have fx: "find_order i s = Some x" by (simp add: get_owned_Inr)
  show ?thesis
    using update_draft_cases [of now' c i u ?t] edit_twice [OF fx x(2)]
    by (auto simp: get_owned_Inr)
qed simp

lemma delete_media_again:
  "snd (delete_media c i m (snd (delete_media c i m s))) = snd (delete_media c i m s)"
proof (cases "snd (delete_media c i m s) = s")
  case False
  let ?t = "snd (delete_media c i m s)"
  obtain x where x: "get_owned c i s = Inr x" and t: "media ?t = delete_rows (\<lambda>r. md_id r = m) (media s)" "orders ?t = orders s"
    using False by (auto simp: delete_media_def with_order_def raise_def ok_def split: sum.splits option.splits)
  have "find_row (\<lambda>r. md_id r = m) (order_media_of i ?t) = None"
    unfolding find_row_None order_media_of_def t delete_rows_def by auto
  then show ?thesis by (auto simp: delete_media_def [of c i m ?t] with_order_def raise_def split: sum.splits)
qed simp

lemma order_controller_again:
  assumes "method_of (A_Orders q) \<noteq> POST" "ap_formats ctx' = ap_formats ctx"
  shows "snd (orders_controller ctx' u q (snd (orders_controller ctx u q s)))
     \<in> {snd (orders_controller ctx u q s), snd (orders_controller ctx' u q s)}"
proof (cases q)
  case (O_Update i r)
  then show ?thesis using assms(2) update_draft_again by (auto simp: piped_def answering_state raise_def split: option.splits)
next
  case (O_Delete_Media i m)
  then show ?thesis using assms(2) delete_media_again by (auto simp: piped_def answering_state raise_def split: option.splits)
next
  case (O_List c st)
  then show ?thesis by (auto simp: raise_def split: sum.splits)
next
  case (O_Get_Review i)
  then show ?thesis by (auto simp: piped_def raise_def split: sum.splits option.splits)
qed (use assms(1) in \<open>auto simp: piped_def raise_def split: option.splits\<close>)

lemma order_request_again:
  assumes "method_of (A_Orders q) \<noteq> POST" "ap_read k = ap_read h" "ap_formats k = ap_formats h"
  shows "snd (serve_api k header (A_Orders q) (snd (serve_api h header (A_Orders q) s)))
     \<in> {snd (serve_api h header (A_Orders q) s), snd (serve_api k header (A_Orders q) s)}"
proof -
  have g: "serve_api k header (A_Orders q) v =
      (case jwt_auth_guard (ap_read h) False header of Inl e \<Rightarrow> raise e v
       | Inr user \<Rightarrow> (case roles_guard [CUSTOMER] user of Inl e \<Rightarrow> raise e v | Inr _ \<Rightarrow> for_user user (\<lambda>u. orders_controller k u q) v))" for v
    using assms(2) by (simp add: serve_api_def guarded_by_def split: sum.splits)
  have h: "serve_api h header (A_Orders q) v =
      (case jwt_auth_guard (ap_read h) False header of Inl e \<Rightarrow> raise e v
       | Inr user \<Rightarrow> (case roles_guard [CUSTOMER] user of Inl e \<Rightarrow> raise e v | Inr _ \<Rightarrow> for_user user (\<lambda>u. orders_controller h u q) v))" for v
    by (simp add: serve_api_def guarded_by_def split: sum.splits)
  show ?thesis
    unfolding g h using order_controller_again [OF assms(1,3)]
    by (auto simp: raise_def for_user_def split: sum.splits option.splits)
qed

section \<open>What the page of an order shows and offers\<close>

definition signed_in :: "(string \<Rightarrow> claims option) \<Rightarrow> claims \<Rightarrow> world \<Rightarrow> bool" where
  "signed_in rd c w =
     (\<exists>t. wl_token w = Some t \<and> t \<noteq> [] \<and> rd t = Some c \<and> \<not> blocked (cl_status c))"

text \<open>\<open>online n\<close>: at least \<open>n\<close> fetches to come, none of which is lost.\<close>

definition online :: "nat \<Rightarrow> (string \<Rightarrow> claims option) \<Rightarrow> formats \<Rightarrow> world \<Rightarrow> bool" where
  "online n rd fm w = (n \<le> length (wl_hops w) \<and> same_server rd fm w \<and> (\<forall>h \<in> set (wl_hops w). hp_fate h = Arrives))"

lemma signed_serve:
  assumes "signed_in rd c w" "ap_read ctx = rd" "\<not> is_public q" "route_roles q = [] \<or> cl_role c \<in> set (route_roles q)"
  shows "serve_api ctx (auth_header True w) q s = route_handler ctx q (Some c) s"
proof -
  obtain t where t: "wl_token w = Some t" "t \<noteq> []" "rd t = Some c" "\<not> blocked (cl_status c)"
    using assms(1) by (auto simp: signed_in_def)
  have "auth_header True w = Some (bearer_prefix @ t)" using t by (simp add: auth_header_def)
  moreover have "jwt_auth_guard rd False (Some (bearer_prefix @ t)) = Inr (Some c)"
    using t by (simp add: jwt_auth_guard_def starts_with_def)
  ultimately show ?thesis
    using assms(2-4) by (auto simp: serve_api_def guarded_by_def roles_guard_def)
qed

definition quiet :: "reply \<Rightarrow> bool" where
  "quiet r = ((\<forall>su t. r \<noteq> R_Session su t) \<and> (\<forall>l. r \<noteq> R_Login l))"

lemma quiet_cookie: "quiet r \<Longrightarrow> cookie_after (A_Orders q) (Inr r) x = x"
  by (cases r) (auto simp: quiet_def cookie_after_def)

lemma ask:
  assumes "online (Suc n) rd fm w" "signed_in rd c w" "cl_role c = CUSTOMER" "quiet r"
    "\<And>ctx. ap_formats ctx = fm \<Longrightarrow> orders_controller ctx (cl_id c) q (wl_db w) = ok r (wl_db w)"
  obtains hs where "web_request True (A_Orders q) w = (Inr r, w\<lparr>wl_hops := hs\<rparr>)" "online n rd fm (w\<lparr>wl_hops := hs\<rparr>)"
    "signed_in rd c (w\<lparr>wl_hops := hs\<rparr>)"
proof -
  obtain h hs where h: "wl_hops w = h # hs" using assms(1) by (cases "wl_hops w") (auto simp: online_def)
  then have a: "hp_fate h = Arrives" "ap_read (hp_ctx h) = rd" "ap_formats (hp_ctx h) = fm"
    using assms(1) by (auto simp: online_def same_server_def)
  have "serve_api (hp_ctx h) (auth_header True w) (A_Orders q) (wl_db w) = ok r (wl_db w)"
    using signed_serve [OF assms(2) a(2), of "A_Orders q" "wl_db w"] assms(3) assms(5) [OF a(3)] by (simp add: for_user_def)
  then have "fetch (auth_header True w) (A_Orders q) w = (Some (Inr r), w\<lparr>wl_hops := hs\<rparr>)"
    using h a quiet_cookie [OF assms(4)] by (simp add: fetch_def ok_def)
  then have "web_request True (A_Orders q) w = (Inr r, w\<lparr>wl_hops := hs\<rparr>)"
    by (simp add: web_request_def answered_def)
  then show thesis
    by (rule that) (use assms(1,2) h in \<open>auto simp: online_def same_server_def signed_in_def\<close>)
qed

lemma ask_query:
  assumes "online (Suc n) rd fm w" "signed_in rd c w" "cl_role c = CUSTOMER" "quiet r"
    "\<And>ctx. b \<Longrightarrow> ap_formats ctx = fm \<Longrightarrow> orders_controller ctx (cl_id c) q (wl_db w) = ok r (wl_db w)"
  obtains hs where "query b q w = (Inr (if b then Some r else None), w\<lparr>wl_hops := hs\<rparr>)" "online n rd fm (w\<lparr>wl_hops := hs\<rparr>)"
    "signed_in rd c (w\<lparr>wl_hops := hs\<rparr>)"
proof (cases b)
  case True
  obtain hs where "web_request True (A_Orders q) w = (Inr r, w\<lparr>wl_hops := hs\<rparr>)" "online n rd fm (w\<lparr>wl_hops := hs\<rparr>)"
    "signed_in rd c (w\<lparr>wl_hops := hs\<rparr>)"
    using ask [OF assms(1-4)] assms(5) True by blast
  then show thesis using True by (intro that [of hs]) (simp_all add: query_def web_try_def with_retry_def)
next
  case False
  then show thesis using assms(1,2)
    by (intro that [of "wl_hops w"]) (simp_all add: query_def online_def)
qed

definition view_of :: "order_row \<Rightarrow> db \<Rightarrow> order_view" where
  "view_of x s =
     \<lparr>ov_order = to_dto x s,
      ov_payments = (if o_status x \<in> set payable_statuses
        then map payment_to_dto (newest_first p_created (filter (\<lambda>p. p_order p = o_id x) (payments s))) else []),
      ov_review = (if o_status x = CLOSED then map_option review_to_dto (review_for_order (o_id x) s) else None),
      ov_claim = (if o_status x = CLOSED then map_option claim_to_dto (find_row (\<lambda>c. g_order c = o_id x) (claims s)) else None)\<rparr>"

lemma load_order_shows:
  assumes "online (n + 4) rd fm w" "signed_in rd c w" "cl_role c = CUSTOMER" "fm_uuid fm (txt i) = Some i"
    "find_order i (wl_db w) = Some x" "o_customer x = cl_id c"
  obtains hs where "load_order txt i w = (Inr (view_of x (wl_db w)), w\<lparr>wl_hops := hs\<rparr>)" "signed_in rd c (w\<lparr>wl_hops := hs\<rparr>)"
    "online n rd fm (w\<lparr>wl_hops := hs\<rparr>)"
proof -
  let ?s = "wl_db w"
  have i: "o_id x = i" using assms(5) by (simp add: find_order_id)
  have own: "get_owned (cl_id c) i ?s = Inr x" using assms(5,6) by (simp add: get_owned_Inr)
  obtain h1 where 1: "web_request True (A_Orders (O_Get (txt i))) w = (Inr (R_Order (to_dto x ?s)), w\<lparr>wl_hops := h1\<rparr>)"
    "online (n + 3) rd fm (w\<lparr>wl_hops := h1\<rparr>)" "signed_in rd c (w\<lparr>wl_hops := h1\<rparr>)"
    using ask [of "n + 3" rd fm w c "R_Order (to_dto x ?s)" "O_Get (txt i)"] assms own
    by (auto simp: quiet_def piped_def looking_up_def get_one_def numeral_eq_Suc)
  obtain h2 where 2: "query (o_status x \<in> set payable_statuses) (O_Payments (txt i)) (w\<lparr>wl_hops := h1\<rparr>)
      = (Inr (if o_status x \<in> set payable_statuses then Some (R_Payments
          (map payment_to_dto (newest_first p_created (filter (\<lambda>p. p_order p = i) (payments ?s))))) else None), w\<lparr>wl_hops := h2\<rparr>)"
    "online (n + 2) rd fm (w\<lparr>wl_hops := h2\<rparr>)" "signed_in rd c (w\<lparr>wl_hops := h2\<rparr>)"
    using ask_query [of "n + 2" rd fm "w\<lparr>wl_hops := h1\<rparr>" c "R_Payments
          (map payment_to_dto (newest_first p_created (filter (\<lambda>p. p_order p = i) (payments ?s))))"
        "o_status x \<in> set payable_statuses" "O_Payments (txt i)"] assms 1
    by (auto simp: quiet_def piped_def looking_up_def list_payments_def numeral_eq_Suc)
  obtain h3 where 3: "query (o_status x = CLOSED) (O_Get_Review (txt i)) (w\<lparr>wl_hops := h2\<rparr>)
      = (Inr (if o_status x = CLOSED then Some (R_Review (map_option review_to_dto (review_for_order i ?s))) else None),
         w\<lparr>wl_hops := h3\<rparr>)"
    "online (n + 1) rd fm (w\<lparr>wl_hops := h3\<rparr>)" "signed_in rd c (w\<lparr>wl_hops := h3\<rparr>)"
    using ask_query [of "n + 1" rd fm "w\<lparr>wl_hops := h2\<rparr>" c "R_Review (map_option review_to_dto (review_for_order i ?s))"
        "o_status x = CLOSED" "O_Get_Review (txt i)"] assms own 2
    by (auto simp: quiet_def piped_def get_one_def reading_def numeral_eq_Suc)
  obtain h4 where 4: "query (o_status x = CLOSED) (O_Get_Claim (txt i)) (w\<lparr>wl_hops := h3\<rparr>)
      = (Inr (if o_status x = CLOSED then Some (R_Claim (map_option claim_to_dto (find_row (\<lambda>c. g_order c = i) (claims ?s)))) else None),
         w\<lparr>wl_hops := h4\<rparr>)" "signed_in rd c (w\<lparr>wl_hops := h4\<rparr>)" "online n rd fm (w\<lparr>wl_hops := h4\<rparr>)"
    using ask_query [of n rd fm "w\<lparr>wl_hops := h3\<rparr>" c
        "R_Claim (map_option claim_to_dto (find_row (\<lambda>c. g_order c = i) (claims ?s)))"
        "o_status x = CLOSED" "O_Get_Claim (txt i)"] assms 3
    by (auto simp: quiet_def piped_def looking_up_def claim_for_order_def numeral_eq_Suc)
  have d: "dto_status (to_dto x ?s) = o_status x" by (simp add: to_dto_def)
  have "load_order txt i w = (Inr (view_of x ?s), w\<lparr>wl_hops := h4\<rparr>)"
    unfolding load_order_def using 1(1) 2(1) 3(1) 4(1)
    by (simp add: d view_of_def i)
  then show thesis using 4(2,3) by (rule that)
qed

text \<open>What the page asks for is answered by the controller, on behalf of the signed-in customer.\<close>

lemma press:
  assumes "online (Suc n) rd fm w" "signed_in rd c w" "cl_role c = CUSTOMER"
  obtains ctx where "ap_formats ctx = fm"
    "fst (web_request True (A_Orders q) w) = answered (fst (orders_controller ctx (cl_id c) q (wl_db w)))"
proof -
  obtain h hs where h: "wl_hops w = h # hs" using assms(1) by (cases "wl_hops w") (auto simp: online_def)
  then have a: "hp_fate h = Arrives" "ap_read (hp_ctx h) = rd" "ap_formats (hp_ctx h) = fm"
    using assms(1) by (auto simp: online_def same_server_def)
  have "serve_api (hp_ctx h) (auth_header True w) (A_Orders q) (wl_db w) = orders_controller (hp_ctx h) (cl_id c) q (wl_db w)"
    using signed_serve [OF assms(2) a(2), of "A_Orders q" "wl_db w"] assms(3) by (simp add: for_user_def)
  then have "fst (web_request True (A_Orders q) w) = answered (fst (orders_controller (hp_ctx h) (cl_id c) q (wl_db w)))"
    using h a(1) by (cases rule: fetch_cases [of w "auth_header True w" "A_Orders q"]) (auto simp: web_request_def fetch_def split: prod.splits)
  with a(3) show thesis by (rule that)
qed

lemma answered_Inr: "(\<exists>r. answered x = Inr r) \<longleftrightarrow> (\<exists>r. x = Inr r)"
  by (auto simp: answered_def split: sum.splits)

end
