(* ===== verification/WebOffers.thy ===== *)
theory WebOffers
  imports WebLemmas
begin

text \<open>
  Which buttons the server accepts: the answers of the order service to what the pages of a customer and
  of a master offer, as conditions on the order alone.
\<close>

section \<open>Guarded transitions that win\<close>

lemma transition_wins:
  assumes "order_inv s" "find_order i s = Some x"
  shows "\<exists>t. transition now i (o_status x) c actor nt s = (Inr (), t) \<and> masters t = masters s"
proof -
  have x: "x \<in> set (orders s)" "o_id x = i" using find_order_id [OF assms(2)] by simp_all
  have d: "distinct (map o_id (orders s))" using assms(1) by (simp add: order_inv_def keys_ok_def)
  obtain r t where t: "transition now i (o_status x) c actor nt s = (r, t)" by fastforce
  have "cas_count o_id o_status i (o_status x) (orders s) = 1" using order_cas.wins_iff [OF d] x by blast
  then have "r = Inr ()" "masters t = masters s"
    using transition_cases [OF t] by (auto simp: add_history_def)
  then show ?thesis using t by blast
qed

lemma transition_succeeds:
  assumes "order_inv s" "find_order i s = Some x"
  shows "succeeded (transition now i (o_status x) c actor nt s)"
  using transition_wins [OF assms, of now c actor nt] by (auto simp: succeeded_iff)

lemma succeeded_then: "succeeded (and_then r f) \<longleftrightarrow> (\<exists>x t. r = (Inr x, t) \<and> succeeded (f x t))"
  by (auto simp: succeeded_iff and_then_Inr)

lemma succeeded_answering: "succeeded (answering w f s) \<longleftrightarrow> succeeded (f s)"
  by (auto simp: answering_def succeeded_iff and_then_Inr ok_def)

lemma master_known_rows [simp]:
  "find_row (\<lambda>r. m_user r = m) (masters (count_job k s)) \<noteq> None \<longleftrightarrow> find_row (\<lambda>r. m_user r = m) (masters s) \<noteq> None"
  by (simp add: count_job_def find_row_update_rows)

lemma recompute_succeeds:
  "find_row (\<lambda>r. m_user r = m) (masters s) \<noteq> None \<Longrightarrow> succeeded (recompute_trust_tier now m s)"
  using compute_trust_found [of m s _ now] by (auto simp: recompute_trust_tier_def)

lemma record_event_succeeds:
  "find_row (\<lambda>r. m_user r = m) (masters s) \<noteq> None \<Longrightarrow> succeeded (record_event now m ev i nt s)"
  using recompute_succeeds [of m "insert_penalty (new_penalty now (next_id s) m ev i nt) s" now]
  by (auto simp: record_event_def Let_def succeeded_then succeeded_iff [of "recompute_trust_tier _ _ _"])

section \<open>The customer\<close>

lemma cancel_accepted:
  assumes "order_inv s" "find_order i s = Some x" "o_customer x = u"
  shows "succeeded (cancel now u i s) \<longleftrightarrow> o_status x \<in> set cancelable"
proof -
  have "get_owned u i s = Inr x" "o_id x = i" using assms(2,3) find_order_id by (simp_all add: get_owned_Inr)
  then show ?thesis
    using transition_succeeds [OF assms(1,2), of now]
    by (auto simp: cancel_def with_order_def cancel_commit_def cancelable_def)
qed

lemma confirm_accepted:
  assumes "order_inv s" "find_order i s = Some x" "o_customer x = u"
    "\<And>m. o_master x = Some m \<Longrightarrow> find_row (\<lambda>r. m_user r = m) (masters s) \<noteq> None"
  shows "succeeded (confirm_completion now u i s) \<longleftrightarrow> o_status x = COMPLETED"
proof (cases "o_status x = COMPLETED")
  case False
  have "get_owned u i s = Inr x" using assms(2,3) by (simp add: get_owned_Inr)
  then show ?thesis using False by (simp add: confirm_completion_def with_order_def)
next
  case True
  have x: "get_owned u i s = Inr x" "o_id x = i" "x \<in> set (orders s)"
    using assms(2,3) find_order_id by (simp_all add: get_owned_Inr)
  obtain m where m: "o_master x = Some m"
    using assms(1) x(3) True by (fastforce simp: order_inv_def row_ok_def has_master_def)
  obtain t where t: "transition now i (o_status x) (commit_to CLOSED) (Some u) None s = (Inr (), t)" "masters t = masters s"
    using transition_wins [OF assms(1,2)] by blast
  then have "transition_body now i (o_status x) (commit_to CLOSED) (Some u) None s = ok () t"
    by (simp add: transition_def transaction_Inr ok_def)
  then have c: "confirm_tx now u x m s = ok () (count_job m t)"
    by (simp add: confirm_tx_def x(2))
  have "find_row (\<lambda>r. m_user r = m) (masters (notify now m ORDER_CLOSED (order_data i) (emit_to_user m (Ev_Order_Updated i CLOSED) (count_job m t)))) \<noteq> None"
    using assms(4) [OF m] master_known_rows [of m m t] by (simp add: t(2))
  from recompute_succeeds [OF this, of now] show ?thesis
    using True x(1) m c by (auto simp: confirm_completion_def with_order_def Let_def succeeded_then succeeded_iff ok_def)
qed

lemma review_accepted:
  assumes "order_inv s" "find_order i s = Some x" "o_customer x = u"
    "\<And>m. o_master x = Some m \<Longrightarrow> find_row (\<lambda>r. m_user r = m) (masters s) \<noteq> None"
  shows "succeeded (create_review now u i n c nt s) \<longleftrightarrow> o_status x = CLOSED \<and> review_for_order i s = None"
proof (cases "o_status x = CLOSED \<and> review_for_order i s = None")
  case False
  then show ?thesis
    using assms(2,3) by (auto simp: create_review_def review_check_def review_for_order_def split: option.splits)
next
  case True
  obtain m where m: "o_master x = Some m"
    using assms(1) True find_order_id [OF assms(2)] by (fastforce simp: order_inv_def row_ok_def has_master_def)
  have k: "review_check u i s = Inr m" using True m assms(2,3) by (simp add: review_check_def review_for_order_def)
  have "\<not> (\<exists>r \<in> set (reviews s). r_order r = i)"
    using True by (auto simp: review_for_order_def find_row_None)
  then obtain r t where b: "transaction (review_body now u i m n c) s = (Inr r, t)"
    by (simp add: transaction_Inr review_body_def Let_def ok_def)
  then have "masters t = update_rows (\<lambda>x. m_user x = m)
       (\<lambda>x. x\<lparr>m_rating := numeric2 (the (average (ratings_of m (reviews t))))\<rparr>) (masters s)"
    using review_body_cases(7) [of now u i m n c s r t] by (simp add: transaction_Inr)
  then have "find_row (\<lambda>r. m_user r = m) (masters t) \<noteq> None"
    using assms(4) [OF m] by (simp add: find_row_update_rows)
  then show ?thesis
    using True recompute_succeeds [of m t now] record_event_succeeds [of m t now CUSTOMER_COMPLAINT "Some i" "Some nt"]
    by (auto simp: create_review_def k b succeeded_then succeeded_iff ok_def)
qed

section \<open>The master\<close>

lemma owned_by_master: "find_order i s = Some x \<Longrightarrow> o_master x = Some m \<Longrightarrow> get_owned_by_master m i s = Inr x"
  by (simp add: get_owned_by_master_def)

lemma set_out_accepted:
  assumes "order_inv s" "find_order i s = Some x" "o_master x = Some m"
  shows "succeeded (start_en_route now m i s) \<longleftrightarrow> o_status x = ASSIGNED"
    "succeeded (start_service now m i s) \<longleftrightarrow> o_status x = EN_ROUTE"
proof -
  note own = owned_by_master [OF assms(2,3)] find_order_id [OF assms(2)]
  have "succeeded (transition_by_master now x st m s)" for st
    using transition_wins [OF assms(1,2), of now "commit_to st" "Some m" None] own
    by (auto simp: transition_by_master_def succeeded_then)
  then show "succeeded (start_en_route now m i s) \<longleftrightarrow> o_status x = ASSIGNED"
    "succeeded (start_service now m i s) \<longleftrightarrow> o_status x = EN_ROUTE"
    using own by (simp_all add: start_en_route_def start_service_def with_order_def)
qed

lemma cancel_by_master_accepted:
  assumes "order_inv s" "find_order i s = Some x" "o_master x = Some m"
    "find_row (\<lambda>r. m_user r = m) (masters s) \<noteq> None"
  shows "succeeded (cancel_by_master now m i reason s) \<longleftrightarrow> o_status x \<in> {ASSIGNED, EN_ROUTE}"
proof -
  obtain t where t: "transition now i (o_status x) ((commit_to CANCELLED_BY_MASTER)\<lparr>oc_cancelled := Some now\<rparr>) (Some m) reason s
      = (Inr (), t)" "masters t = masters s"
    using transition_wins [OF assms(1,2)] by blast
  let ?u = "notify now (o_customer x) ORDER_CANCELLED_BY_MASTER (order_data i)
      (emit_to_user (o_customer x) (Ev_Order_Updated i CANCELLED_BY_MASTER) t)"
  have "succeeded (record_event now m CANCELLATION (Some i) reason ?u)"
    using assms(4) t(2) by (intro record_event_succeeds) simp
  then show ?thesis
    using t(1) owned_by_master [OF assms(2,3)]
    by (auto simp: cancel_by_master_def with_order_def Let_def succeeded_then succeeded_iff ok_def)
qed

section \<open>The first step of the wizard\<close>

text \<open>Editing an order and attaching files to it neither add nor remove an order.\<close>

definition about_one_order :: "api_request \<Rightarrow> bool" where
  "about_one_order q = (\<exists>i. (\<exists>r. q = A_Orders (O_Update i r)) \<or> (\<exists>p. q = A_Orders (O_Add_Media i p)))"

lemma update_draft_ids: "map o_id (orders (snd (update_draft now c i u s))) = map o_id (orders s)"
proof -
  have "map o_id (orders (edit_commit now c x u s)) = map o_id (orders s)" for x
    unfolding edit_commit_orders by (rule map_key_update_rows) (simp add: edit_row_def unquote_row_def)
  then show ?thesis using update_draft_cases [of now c i u s] by auto
qed

lemma add_media_orders: "orders (snd (add_media e c i buffer mime s)) = orders s"
  by (auto simp: add_media_def with_order_def save_media_file_def raise_def ok_def Let_def split: sum.splits option.splits if_splits)

interpretation ids_kept: kept_by_server about_one_order "\<lambda>s. map o_id (orders s) = ids" for ids
proof
  fix q and s :: db and ctx header
  assume q: "about_one_order q" and s: "map o_id (orders s) = ids"
  have "map o_id (orders (snd (orders_controller k u r s))) = ids" if "q = A_Orders r" for k u r
    using q s that
    by (auto simp: about_one_order_def piped_def answering_state update_draft_ids add_media_orders raise_def
        split: option.splits file_part.splits)
  moreover obtain r where r: "q = A_Orders r" using q by (auto simp: about_one_order_def)
  ultimately have "map o_id (orders (snd (route_handler ctx q user s))) = ids" for user
    using s by (auto simp: r for_user_state split: option.splits simp del: orders_controller.simps)
  then show "map o_id (orders (snd (serve_api ctx header q s))) = ids"
    using s by (auto simp: serve_api_def guarded_by_def raise_def split: sum.splits simp del: route_handler.simps)
qed

lemma create_draft_ids:
  "create_draft now c cat d s = (Inr i, t) \<Longrightarrow> map o_id (orders t) = map o_id (orders s) @ [i]"
  by (auto simp: create_draft_def check_def Let_def add_history_def split: option.splits)

lemma created_ids:
  assumes "fst (serve_api ctx header (A_Orders (O_Create cat d)) s) = Inr (R_Id i)"
  shows "map o_id (orders (snd (serve_api ctx header (A_Orders (O_Create cat d)) s))) = map o_id (orders s) @ [i]"
proof -
  obtain t where t: "serve_api ctx header (A_Orders (O_Create cat d)) s = (Inr (R_Id i), t)" using assms by (cases "serve_api ctx header (A_Orders (O_Create cat d)) s") auto
  then have "map o_id (orders t) = map o_id (orders s) @ [i]"
  using create_draft_ids
  by (fastforce simp: serve_api_def guarded_by_def for_user_def piped_def answering_def and_then_Inr split: sum.splits option.splits)
  then show ?thesis by (simp add: t)
qed

lemma saved_draft:
  assumes "save_order f form None w = (Inr i, v)"
  shows "map o_id (orders (wl_db v)) = map o_id (orders (wl_db w)) @ [i]"
proof -
  let ?q = "O_Create (map_option f (df_category form)) (trim (df_description form))"
  obtain r u where r: "web_request True (A_Orders ?q) w = (Inr r, u)" and c: "r = R_Id i" "v = u"
    using assms by (auto simp: save_order_def Let_def web_then_def split: prod.splits sum.splits reply.splits)
  then show ?thesis
    by (cases rule: fetch_cases [of w "auth_header True w" "A_Orders ?q"])
      (auto simp: web_request_def answered_def retryable_methods_def split: sum.splits intro: created_ids)
qed

lemma describe_ids:
  assumes "save_order f form None w = (Inr i, u)" "form_complete form"
  shows "map o_id (orders (wl_db (snd (describe_step f form None w)))) = map o_id (orders (wl_db w)) @ [i]"
proof -
  let ?ids = "map o_id (orders (wl_db w)) @ [i]"
  let ?rest = "web_then (web_request True (A_Orders (O_Update (f i) (address_update form))))
     (\<lambda>_. web_then (upload_all (f i) (df_staged form)) (\<lambda>_. web_ok i))"
  have "ids_kept.keeps ?ids ?rest"
    by (intro ids_kept.then_keeps ids_kept.uploads_keep ids_kept.request_keeps ids_kept.ok_keeps) (auto simp: about_one_order_def)
  then have "map o_id (orders (wl_db (snd (?rest u)))) = ?ids"
    using saved_draft [OF assms(1)] by (simp add: ids_kept.keeps_def)
  then show ?thesis using assms by (simp add: describe_step_def)
qed

lemma described_saved:
  assumes "describe_step f form None w = (Inr j, v)"
  obtains u where "save_order f form None w = (Inr j, u)" "form_complete form"
  using assms by (auto simp: describe_step_def web_then_def split: if_splits prod.splits sum.splits)

end
