(* ===== verification/Web_Properties.thy ===== *)
theory Web_Properties
  imports Api_Properties WebOffers
begin

text \<open>Properties of the booking calendar, of the diagnosis and of the browser's side.\<close>

section \<open>Dates and slots\<close>

lemma order_slots: "order_time_slots = map slot_text [540, 660, 840, 960]"
  by code_simp

lemma order_slot_minutes:
  assumes "slot \<in> set order_time_slots"
  obtains mins where "slot = slot_text mins" "540 \<le> mins" "mins \<le> 960"
  using assms unfolding order_slots by fastforce

text \<open>A date of the years 1970 to 9999 and a time of day, turned into an instant and back, are what they were.\<close>

theorem slot_round_trip:
  assumes "0 \<le> n" "n < 2932897" "0 \<le> mins" "mins < 1440"
  shows "\<exists>t. slot_to_utc (iso_date n) (slot_text mins) = Some t \<and> utc_to_date t = iso_date n \<and> utc_to_slot t = slot_text mins"
  using slot_to_utc_text [OF assms(1) year_of_le [OF assms(1,2)] assms(3,4)] utc_of_slot [OF assms(3,4) refl, of n]
  by (simp add: utc_to_date_def utc_to_slot_text)

theorem slot_round_trip_witness:
  "\<exists>t. slot_to_utc (iso_date 20000) (slot_text 540) = Some t \<and> utc_to_date t = iso_date 20000 \<and> utc_to_slot t = slot_text 540"
  by (rule slot_round_trip) simp_all

text \<open>C36: every slot the wizard offers on the days of its date picker is a time the server books, except the
  slots of the last day that are later in the day than the moment the page was drawn: those the server refuses.\<close>

theorem wizard_slots:
  assumes "0 \<le> seen" "seen < 250000000000000" "0 \<le> k" "k \<le> order_max_days_ahead"
    and date: "date = iso_date (uz_day seen + k)" and slot: "slot \<in> set (available_slots seen date)"
  shows "\<exists>t. choose_time seen SCHEDULED date slot = Send_Time (Some t) \<and> utc_to_date t = date \<and> utc_to_slot t = slot
     \<and> (assert_schedulable seen t = None \<longleftrightarrow> \<not> (k = order_max_days_ahead \<and> text_less (utc_to_slot seen) slot))"
proof -
  let ?now = "slot_minutes seen" and ?r = "(seen + uz_offset_ms) mod 60000"
  have s: "slot \<in> set order_time_slots" using slot by (auto simp: available_slots_def split: if_splits)
  then obtain mins where m: "slot = slot_text mins" "540 \<le> mins" "mins \<le> 960" by (rule order_slot_minutes)
  have u: "0 \<le> uz_day seen" "uz_day seen < 2900000"
    using assms(1,2) by (simp_all add: uz_day_def uz_offset_ms_def pos_imp_zdiv_nonneg_iff int_div_less_self) 
  then have n: "0 \<le> uz_day seen + k" "uz_day seen + k < 2932897" using assms(3,4) by (simp_all add: order_max_days_ahead_def)
  define t where "t = (uz_day seen + k) * 86400000 + mins * 60000 - uz_offset_ms"
  have c: "slot_to_utc date slot = Some t"
    unfolding date m(1) t_def using m(2,3) n by (intro slot_to_utc_text year_of_le) simp_all
  have parts: "uz_day t = uz_day seen + k" "slot_minutes t = mins"
    using utc_of_slot [OF _ _ t_def] m(2,3) by simp_all
  have later: "text_less (utc_to_slot seen) slot \<longleftrightarrow> ?now < mins"
    unfolding m(1) utc_to_slot_text using slot_minutes_bounds [of seen] m(2,3) by (intro text_less_slot) simp_all
  have today: "?now < mins" if k0: "k = 0"
    using slot later unfolding date k0 by (simp add: available_slots_def utc_to_date_def)
  have "utc_to_slot t = slot" by (simp add: utc_to_slot_text parts m(1))
  then have open_slot: "slot_open t" using s by (simp add: slot_open_def)
  have seen_is: "seen = uz_day seen * 86400000 + ?now * 60000 + ?r - uz_offset_ms" by (rule uz_split)
  have r: "0 \<le> ?r" "?r < 60000" by simp_all
  have d: "t - seen = k * 86400000 + (mins - ?now) * 60000 - ?r" using seen_is by (simp add: t_def algebra_simps)
  have b: "0 \<le> ?now" "?now < 1440" by (rule slot_minutes_bounds)+
  have future: "seen < t" using d r b m(2,3) today assms(3) by (cases "k = 0") auto
  have limit: "t \<le> seen + order_max_days_ahead * 86400000 \<longleftrightarrow> \<not> (k = order_max_days_ahead \<and> ?now < mins)"
    using d r b m(2,3) assms(4) by (cases "k = 14") (auto simp: order_max_days_ahead_def)
  have "assert_schedulable seen t = None \<longleftrightarrow> \<not> (k = order_max_days_ahead \<and> text_less (utc_to_slot seen) slot)"
    unfolding later limit [symmetric] using future open_slot by (simp add: assert_schedulable_def)
  then show ?thesis
    using c slot \<open>utc_to_slot t = slot\<close> by (simp add: choose_time_def utc_to_date_def parts date)
qed

theorem wizard_slots_witness:
  "\<exists>t. choose_time 1000000000000 SCHEDULED (iso_date (uz_day 1000000000000 + 14)) ''09:00'' = Send_Time (Some t)
     \<and> utc_to_date t = iso_date (uz_day 1000000000000 + 14) \<and> utc_to_slot t = ''09:00''
     \<and> (assert_schedulable 1000000000000 t = None
        \<longleftrightarrow> \<not> ((14 :: int) = order_max_days_ahead \<and> text_less (utc_to_slot 1000000000000) ''09:00''))"
proof (rule wizard_slots)
  show "''09:00'' \<in> set (available_slots 1000000000000 (iso_date (uz_day 1000000000000 + 14)))" by code_simp
qed (simp_all add: order_max_days_ahead_def)

section \<open>The page of an order\<close>


definition demo_world :: "nat \<Rightarrow> db \<Rightarrow> world" where
  "demo_world n s = \<lparr>wl_db = s, wl_hops = replicate n \<lparr>hp_fate = Arrives, hp_ctx = demo_api 2000\<rparr>,
     wl_token = Some ''customer'', wl_user = None, wl_ready = True, wl_cookie = Some ''r''\<rparr>"

definition demo_claims :: claims where
  "demo_claims = \<lparr>cl_id = 1, cl_role = CUSTOMER, cl_status = U_ACTIVE, cl_verification = None\<rparr>"

lemma demo_world_online: "n \<le> k \<Longrightarrow> online n (ap_read (demo_api 0)) id_formats (demo_world k s)"
  by (auto simp: online_def same_server_def demo_world_def demo_api_def)

lemma demo_world_signed: "signed_in (ap_read (demo_api 0)) demo_claims (demo_world k s)"
  by (simp add: signed_in_def demo_world_def demo_api_def demo_claims_def blocked_def)


section \<open>Requests that are repeated\<close>

text \<open>C16: whatever is lost on the way and repeated by the browser, a request about an order leaves the database
  as it was or as serving it once leaves it.\<close>

theorem order_requests_act_once:
  assumes "same_server rd fm w"
  shows "wl_db (snd (web_request auth (A_Orders q) w))
     \<in> insert (wl_db w) ((\<lambda>h. snd (serve_api (hp_ctx h) (auth_header auth w) (A_Orders q) (wl_db w))) ` set (wl_hops w))"
  using request_effect [of auth "A_Orders q" w]
proof (elim disjE conjE bexE)
  fix h k
  assume "method_of (A_Orders q) \<noteq> POST" and h: "h \<in> set (wl_hops w)" "k \<in> set (wl_hops w)"
    and e: "wl_db (snd (web_request auth (A_Orders q) w))
      = snd (serve_api (hp_ctx k) (auth_header auth w) (A_Orders q) (snd (serve_api (hp_ctx h) (auth_header auth w) (A_Orders q) (wl_db w))))"
  moreover have "ap_read (hp_ctx k) = ap_read (hp_ctx h)" "ap_formats (hp_ctx k) = ap_formats (hp_ctx h)"
    using assms h by (simp_all add: same_server_def)
  ultimately show ?thesis using order_request_again [of q "hp_ctx k" "hp_ctx h" "auth_header auth w" "wl_db w"] by auto
qed auto

theorem order_requests_act_once_witness:
  "wl_db (snd (web_request True (A_Orders (O_Update (id_text 100) no_update)) (demo_world 2 demo_db)))
     \<in> insert demo_db ((\<lambda>h. snd (serve_api (hp_ctx h) (auth_header True (demo_world 2 demo_db))
          (A_Orders (O_Update (id_text 100) no_update)) demo_db)) ` set (wl_hops (demo_world 2 demo_db)))"
  using order_requests_act_once [of "ap_read (demo_api 0)" id_formats "demo_world 2 demo_db"] demo_world_online [of 0 2 demo_db]
  by (simp add: online_def demo_world_def)


definition demo_form :: description_form where
  "demo_form = \<lparr>df_category = Some 10, df_description = ''kran oqyapti'', df_address = ''Chilonzor'', df_coords = None, df_staged = []\<rparr>"

definition shaky_world :: world where
  "shaky_world = (demo_world 0 demo_db)\<lparr>wl_hops := map (\<lambda>f. \<lparr>hp_fate = f, hp_ctx = demo_api 2000\<rparr>)
     [Arrives, Request_Lost, Request_Lost, Arrives, Arrives]\<rparr>"

definition demo_created :: "db \<Rightarrow> db" where
  "demo_created s = snd (create_draft 2000 1 (Some 10) ''kran oqyapti'' s)"

lemma demo_texts: "trim ''kran oqyapti'' = ''kran oqyapti''" "trim ''Chilonzor'' = ''Chilonzor''"
  by code_simp+

lemma serve_create:
  assumes "categories s = [demo_category]" "next_id s \<notin> set (map o_id (orders s))"
  shows "serve_api (demo_api 2000) (Some (bearer_prefix @ ''customer'')) (A_Orders (O_Create (Some (id_text 10)) ''kran oqyapti'')) s
    = (Inr (R_Id (next_id s)), demo_created s)" "categories (demo_created s) = [demo_category]"
    "\<exists>x. find_order (next_id s) (demo_created s) = Some x \<and> o_customer x = 1 \<and> o_status x = DRAFT"
    "next_id (demo_created s) = next_id s + 2" "map o_id (orders (demo_created s)) = map o_id (orders s) @ [next_id s]"
proof -
  have c: "assert_category (Some 10) s = None" using assms by (simp add: assert_category_def active_category_def demo_category_def)
  then have d: "create_draft 2000 (Suc 0) (Some 10) ''kran oqyapti'' s = ok (next_id s) (demo_created s)"
    by (simp add: demo_created_def create_draft_def check_def Let_def ok_def)
  have p: "parse_order_create id_formats (Some (id_text 10)) ''kran oqyapti'' = Some (Some 10, ''kran oqyapti'')"
    by (simp add: parse_order_create_def own_ids.read_back trimmed_def sized_def demo_texts guarded_def)
  show "serve_api (demo_api 2000) (Some (bearer_prefix @ ''customer'')) (A_Orders (O_Create (Some (id_text 10)) ''kran oqyapti'')) s
    = (Inr (R_Id (next_id s)), demo_created s)"
    by (simp add: demo_api_def serve_api_def guarded_by_def jwt_auth_guard_def roles_guard_def starts_with_def blocked_def
        for_user_def p d piped_def answering_def demo_ctx_def)
  have n: "find_row (\<lambda>r. o_id r = next_id s) (orders s) = None" using assms(2) by (force simp: find_row_None)
  obtain r where r: "orders (demo_created s) = orders s @ [r]" "o_id r = next_id s" "o_customer r = 1" "o_status r = DRAFT"
    using c by (intro that [of "last (orders (demo_created s))"]) (simp_all add: demo_created_def create_draft_def check_def Let_def add_history_def)
  show "map o_id (orders (demo_created s)) = map o_id (orders s) @ [next_id s]" by (simp add: r)
  show "\<exists>x. find_order (next_id s) (demo_created s) = Some x \<and> o_customer x = 1 \<and> o_status x = DRAFT"
    using r n by (simp add: find_order_def find_row_append)
  show "categories (demo_created s) = [demo_category]" "next_id (demo_created s) = next_id s + 2"
    using c assms(1) by (simp_all add: demo_created_def create_draft_def check_def Let_def add_history_def)
qed

lemma serve_address:
  assumes "\<exists>x. find_order i s = Some x \<and> o_customer x = 1 \<and> o_status x = DRAFT"
  obtains t where "serve_api (demo_api 2000) (Some (bearer_prefix @ ''customer''))
      (A_Orders (O_Update (id_text i) (address_update demo_form))) s = (Inr R_Done, t)"
proof -
  obtain x where x: "find_order i s = Some x" "o_customer x = 1" "o_status x = DRAFT" using assms by blast
  obtain d where d: "parse_order_update id_formats (address_update demo_form) = Some d" "ou_category d = None" "ou_scheduled d = None"
    by (simp add: parse_order_update_def address_update_def no_update_def demo_form_def demo_texts trimmed_def sized_def guarded_def)
  show thesis
  using x d by (intro that) (simp add: demo_api_def serve_api_def guarded_by_def jwt_auth_guard_def roles_guard_def starts_with_def blocked_def
        for_user_def piped_def answering_def demo_ctx_def own_ids.read_back update_draft_def with_order_def get_owned_def check_def assert_category_def
       editable_statuses_def ok_def)
qed


section \<open>Diagnoses\<close>

lemma ai_diagnose_cases:
  obtains (claude) d where "claude_diagnose actx inp = Some d" "ai_diagnose actx inp = d"
  | (mock) "ai_diagnose actx inp = mock_diagnose actx inp"
  by (cases "claude_enabled (ai_env actx)"; cases "claude_diagnose actx inp") (auto simp: ai_diagnose_def)

lemma ai_category_offered:
  assumes "ai_category (ai_diagnose actx inp) = Some j"
  shows "\<exists>slug nm. (j, slug, nm) \<in> set (di_categories inp)"
proof (cases rule: ai_diagnose_cases [of actx inp])
  case (claude d)
  then show ?thesis using claude_category [OF claude(1)] assms by auto
next
  case mock
  then show ?thesis using mock_category [of actx inp] assms by auto
qed

lemma ai_confidence_range:
  assumes "\<forall>inp out. ai_claude actx inp = Claude_Output out \<longrightarrow> 0 \<le> co_confidence out \<and> co_confidence out \<le> 1"
  shows "0 \<le> ai_confidence (ai_diagnose actx inp) \<and> ai_confidence (ai_diagnose actx inp) \<le> 1"
proof (cases rule: ai_diagnose_cases [of actx inp])
  case (claude d)
  from claude(1) obtain out where "ai_claude actx inp = Claude_Output out" "ai_confidence d = co_confidence out"
    by (auto simp: claude_diagnose_def Let_def split: claude_reply.splits)
  then show ?thesis using assms claude(2) by simp
next
  case mock
  have "ai_confidence (mock_diagnose actx inp) = mock_confidence (snd (best_match (lowered (di_description inp))))"
    by (simp add: mock_diagnose_def Let_def split: prod.splits)
  then show ?thesis using mock mock_confidence_bounds [of "snd (best_match (lowered (di_description inp)))"] by simp
qed


definition demo_ai :: ai_ctx where
  "demo_ai = \<lparr>ai_env = demo_env, ai_claude = (\<lambda>_. Claude_Failed), ai_say = (\<lambda>x _ _. x)\<rparr>"


text \<open>A description that says more is never quoted less by the keyword heuristics, for the same tier and
  category.\<close>

theorem longer_description_never_cheaper:
  assumes "o_description y = a @ o_description x @ b" "o_tier y = o_tier x" "0 \<le> c_base_min c" "0 \<le> c_base_max c"
  shows "q_min (quote_of x c (mock_diagnose actx (ai_input_of x s))) \<le> q_min (quote_of y c (mock_diagnose actx (ai_input_of y s)))
    \<and> q_max (quote_of x c (mock_diagnose actx (ai_input_of x s))) \<le> q_max (quote_of y c (mock_diagnose actx (ai_input_of y s)))"
proof -
  have "ai_complexity (mock_diagnose actx (ai_input_of x s)) \<le> ai_complexity (mock_diagnose actx (ai_input_of y s))"
    using assms(1,2) classify_longer [of "lowered (o_description x)" "o_tier x" "lowered a" "lowered b"]
    by (simp add: mock_complexity ai_input_of_def lowered_append)
  then show ?thesis
    using double.quote_mono [of "c_base_min c" "c_base_min c" "c_base_max c" "c_base_max c" _ _ "o_tier x" "o_tier x"] assms(2-4)
    by (simp add: quote_of_def compute_quote_def)
qed

theorem longer_description_never_cheaper_witness:
  "q_min (quote_of demo_draft demo_category (mock_diagnose demo_ai (ai_input_of demo_draft demo_db)))
     \<le> q_min (quote_of (demo_draft\<lparr>o_description := ''kran oqyapti, butun''\<rparr>) demo_category
          (mock_diagnose demo_ai (ai_input_of (demo_draft\<lparr>o_description := ''kran oqyapti, butun''\<rparr>) demo_db)))
   \<and> q_max (quote_of demo_draft demo_category (mock_diagnose demo_ai (ai_input_of demo_draft demo_db)))
     \<le> q_max (quote_of (demo_draft\<lparr>o_description := ''kran oqyapti, butun''\<rparr>) demo_category
          (mock_diagnose demo_ai (ai_input_of (demo_draft\<lparr>o_description := ''kran oqyapti, butun''\<rparr>) demo_db)))"
  by (rule longer_description_never_cheaper [where a = "[]" and b = "'', butun''"])
    (simp_all add: demo_draft_def demo_category_def)

text \<open>A tie between two categories goes to the first of the dictionary, whatever the customer chose.\<close>

lemma tie_goes_to_the_first: "best_match (lowered ''kran va rozetka'') = (Some ''plumber'', 1)"
proof -
  have "lowered ''kran va rozetka'' = [107, 114, 97, 110, 32, 118, 97, 32, 114, 111, 122, 101, 116, 107, 97]"
    by (simp add: lowered_def units_def lower_unit_def)
  then show ?thesis by (simp add: best_match_def category_keywords_def keyword_hits_def units_def)
qed

section \<open>A deletion whose answer is lost\<close>

text \<open>When the answer to a deletion is lost and the browser repeats it, the file is gone but the repeated
  request reads as a failure: the page puts the thumbnail of the deleted file back.\<close>

theorem lost_deletion_reads_as_failure:
  assumes "same_server rd fm w" "signed_in rd c w" "cl_role c = CUSTOMER" "fm_uuid fm (txt i) = Some i"
    "fm_uuid fm (txt m) = Some m" "get_owned (cl_id c) i (wl_db w) = Inr x"
    "wl_hops w = h # k # hs" "hp_fate h = Reply_Lost" "hp_fate k = Arrives"
  shows "\<exists>v. remove_media txt i m removed w = (filter (\<lambda>j. j \<noteq> m) removed, v)
    \<and> (\<forall>r \<in> set (media (wl_db v)). md_order r = i \<longrightarrow> md_id r \<noteq> m)"
proof -
  let ?s = "wl_db w" and ?q = "A_Orders (O_Delete_Media (txt i) (txt m))"
  let ?t = "snd (delete_media (cl_id c) i m ?s)"
  have hop: "ap_read (hp_ctx j) = rd" "ap_formats (hp_ctx j) = fm" if "j \<in> {h, k}" for j
    using assms(1,7) that by (auto simp: same_server_def)
  have served: "serve_api (hp_ctx j) (auth_header True w) ?q t = answering (\<lambda>_. R_Done) (delete_media (cl_id c) i m) t"
    if "j \<in> {h, k}" for j t
    using signed_serve [OF assms(2) hop(1) [OF that], of ?q t] assms(3-5) hop(2) [OF that] by (simp add: for_user_def piped_def)
  have find: "find_row (\<lambda>r. md_id r = m) (order_media_of i ?t) = None"
    using assms(6)
    by (auto simp: delete_media_def with_order_def find_row_None order_media_of_def raise_def ok_def delete_rows_def split: option.splits)
  have "orders ?t = orders ?s"
    using assms(6) by (auto simp: delete_media_def with_order_def raise_def ok_def split: option.splits)
  then have "get_owned (cl_id c) i ?t = Inr x" using assms(6) by (simp add: get_owned_def find_order_def)
  then have "delete_media (cl_id c) i m ?t = raise NotFound ?t" using find by (simp add: delete_media_def with_order_def)
  then have second: "serve_api (hp_ctx k) (auth_header True w) ?q ?t = raise NotFound ?t"
    by (simp add: served answering_def)
  obtain y where "serve_api (hp_ctx h) (auth_header True w) ?q ?s = (y, ?t)"
    by (cases "serve_api (hp_ctx h) (auth_header True w) ?q ?s") (metis answering_state insertI1 served snd_conv)
  then have first: "fetch (auth_header True w) ?q w = (None, w\<lparr>wl_hops := k # hs, wl_db := ?t\<rparr>)"
    using assms(7,8) by (simp add: fetch_def)
  have "web_request True ?q w = (Inl (Api_Error (error_status NotFound)), w\<lparr>wl_hops := hs, wl_db := ?t\<rparr>)"
    using assms(9) second by (simp add: web_request_def first retryable_methods_def) (simp add: fetch_def raise_def answered_def cookie_after_def)
  then have "remove_media txt i m removed w = (filter (\<lambda>j. j \<noteq> m) removed, w\<lparr>wl_hops := hs, wl_db := ?t\<rparr>)"
    by (simp add: remove_media_def)
  then show ?thesis using find by (auto simp: find_row_None order_media_of_def)
qed

definition reply_lost_world :: world where
  "reply_lost_world = (demo_world 0 (demo_db\<lparr>orders := [demo_draft],
     media := [\<lparr>md_id = 7, md_order = 100, md_kind = PHOTO, md_role = By_Customer, md_key = Object_Key 7 ''.png'', md_mime = ''image/png'', md_size = 8\<rparr>]\<rparr>))
     \<lparr>wl_hops := map (\<lambda>f. \<lparr>hp_fate = f, hp_ctx = demo_api 2000\<rparr>) [Reply_Lost, Arrives]\<rparr>"

theorem lost_deletion_reads_as_failure_witness:
  "\<exists>v. remove_media id_text 100 7 [] reply_lost_world = (filter (\<lambda>j. j \<noteq> 7) [], v)
    \<and> (\<forall>r \<in> set (media (wl_db v)). md_order r = 100 \<longrightarrow> md_id r \<noteq> 7)"
proof (rule lost_deletion_reads_as_failure)
  show "signed_in (ap_read (demo_api 0)) demo_claims reply_lost_world"
    by (simp add: signed_in_def reply_lost_world_def demo_world_def demo_api_def demo_claims_def blocked_def)
  show "same_server (ap_read (demo_api 0)) id_formats reply_lost_world"
    by (simp add: same_server_def reply_lost_world_def demo_api_def)
  show "get_owned (cl_id demo_claims) 100 (wl_db reply_lost_world) = Inr demo_draft"
    by (simp add: get_owned_Inr find_order_def reply_lost_world_def demo_world_def demo_claims_def demo_draft_def)
  show "wl_hops reply_lost_world = \<lparr>hp_fate = Reply_Lost, hp_ctx = demo_api 2000\<rparr> # \<lparr>hp_fate = Arrives, hp_ctx = demo_api 2000\<rparr> # []"
    by (simp add: reply_lost_world_def)
qed (simp_all add: own_ids.read_back demo_claims_def)

section \<open>The dashboard of a master\<close>

text \<open>C38: the dashboard offers a master to set out for, to start or to cancel the current job exactly when
  the server accepts that request.\<close>

theorem job_buttons_are_accepted:
  assumes "order_inv s" "find_row (\<lambda>r. m_user r = cl_id c) (masters s) \<noteq> None" "header = Some (bearer_prefix @ t)"
    "ap_read ctx t = Some c" "\<not> blocked (cl_status c)" "cl_role c = MASTER"
    "get_current_job (cl_id c) s = Some d" "db_job v = Some d" "fm_uuid (ap_formats ctx) (txt (dto_id d)) = Some (dto_id d)"
    "a \<in> {Go_En_Route, Go_Start, Go_Cancel}"
  shows "job_offers now v a \<longleftrightarrow> succeeded (serve_api ctx header (job_request txt v a) s)"
proof -
  let ?m = "cl_id c"
  obtain x where x: "find_row (\<lambda>x. o_master x = Some ?m \<and> o_status x \<in> set active_master_job_statuses) (orders s) = Some x"
    and d: "d = to_dto x s" using assms(7) by (auto simp: get_current_job_def)
  then have m: "x \<in> set (orders s)" "o_master x = Some ?m" by (auto dest: find_row_Some)
  have f: "find_order (o_id x) s = Some x"
    using find_row_key [of o_id "orders s" x] assms(1) m(1) by (simp add: find_order_def order_inv_def keys_ok_def)
  have i: "fm_uuid (ap_formats ctx) (txt (o_id x)) = Some (o_id x)" using assms(9) by (simp add: d to_dto_def)
  have st: "job_in v sts \<longleftrightarrow> o_status x \<in> set sts" for sts using assms(8) by (simp add: job_in_def d to_dto_def)
  have job: "of_job v txt = txt (o_id x)" using assms(8) by (simp add: of_job_def d to_dto_def)
  have guards: "serve_api ctx header q s = route_handler ctx q (Some c) s" if "\<not> is_public q" "route_roles q = [MASTER]" for q
    using assms(3-6) that
    by (simp add: serve_api_def guarded_by_def jwt_auth_guard_def starts_with_def roles_guard_def)
  have p: "parse_cancel_reason None = Some None" by (simp add: parse_cancel_reason_def)
  show ?thesis
    using assms(10) set_out_accepted [OF assms(1) f m(2)] cancel_by_master_accepted [OF assms(1) f m(2) assms(2)]
    by (auto simp: guards st job i p for_user_def piped_def succeeded_answering)
qed

definition demo_desk :: api_ctx where
  "demo_desk = (demo_api 6000)\<lparr>ap_read := (\<lambda>_. Some \<lparr>cl_id = 2, cl_role = MASTER, cl_status = U_ACTIVE, cl_verification = None\<rparr>)\<rparr>"

theorem job_buttons_are_accepted_witness:
  "\<exists>s d. get_current_job 2 s = Some d
    \<and> (job_offers 0 \<lparr>db_profile = None, db_offer = None, db_job = Some d, db_trust = None, db_verification = None, db_subscription = None\<rparr> Go_En_Route
       \<longleftrightarrow> succeeded (serve_api demo_desk (Some (bearer_prefix @ ''master''))
            (job_request id_text \<lparr>db_profile = None, db_offer = None, db_job = Some d, db_trust = None, db_verification = None, db_subscription = None\<rparr> Go_En_Route) s))"
proof -
  let ?x = "assigned_row 2 (submit_row 4000 PRIORITY demo_order)"
  let ?c = "\<lparr>cl_id = 2, cl_role = MASTER, cl_status = U_ACTIVE, cl_verification = None\<rparr> :: claims"
  obtain t where t: "runs demo_db t" "orders t = [?x]" using demo_assigned by blast
  let ?s = "t\<lparr>masters := [demo_master 2]\<rparr>"
  have "order_inv ?s" using runs_inv [OF t(1) no_orders_inv [OF demo_no_orders]] by (rule order_inv_frame) simp_all
  moreover have job: "get_current_job 2 ?s = Some (to_dto ?x ?s)"
    using t(2) by (simp add: get_current_job_def assigned_row_def active_master_job_statuses_def)
  ultimately show ?thesis
    by (intro exI [of _ ?s] exI [of _ "to_dto ?x ?s"] conjI [OF job] job_buttons_are_accepted [where c = ?c, OF _ _ refl])
      (simp_all add: demo_desk_def demo_master_def blocked_def demo_api_def own_ids.read_back)
qed

section \<open>Filters\<close>

text \<open>An inherited key of the status object is no status, but passes the check of the filter.\<close>

lemma inherited_status_fails:
  "fst (orders_controller ctx u (O_List None (Some ''constructor'')) s) = Inl InternalError"
  by (simp add: status_filter_def order_status_names_def inherited_keys_def raise_def)

section \<open>A draft that is forgotten\<close>

text \<open>Two lost fetches while the wizard loads its order are enough for it to forget the order.\<close>

lemma lost_load_forgets_the_draft:
  assumes "wl_hops w = h # k # hs" "hp_fate h \<noteq> Arrives" "hp_fate k \<noteq> Arrives"
  shows "snd (fst (wizard_load txt z w)) = (if wz_order z = None then z else wizard_reset)"
proof (cases "wz_order z")
  case (Some i)
  let ?q = "A_Orders (O_Get (txt i))"
  obtain v where v: "fetch (auth_header True w) ?q w = (None, v)" "wl_hops v = k # hs"
    using assms(1,2) by (cases rule: fetch_cases [of w "auth_header True w" ?q]) auto
  obtain u where u: "fetch (auth_header True w) ?q v = (None, u)"
    using v(2) assms(3) by (cases rule: fetch_cases [of v "auth_header True w" ?q]) auto
  have "web_request True ?q w = (Inl Network_Failure, u)"
    using v(1) u by (simp add: web_request_def retryable_methods_def)
  then show ?thesis using Some by (simp add: wizard_load_def)
qed (simp add: wizard_load_def)

end
