(* ===== verification/WebPages.thy ===== *)
theory WebPages
  imports WebLemmas
begin

text \<open>
  The pages that show the answer of one query: the lists and reports under \<open>apps/web/app\<close>, the inbox with the
  notifications that lead to an order, the navigation bar, and the queries of the administrator.  A page is
  what it shows once its query has settled; texts and layout are left out.
\<close>

section \<open>Lists\<close>

datatype 'a panel = Panel_Error | Panel_Empty | Panel 'a

definition fetched_panel ::
  "(reply \<Rightarrow> 'a option) \<Rightarrow> ('a \<Rightarrow> bool) \<Rightarrow> bool \<Rightarrow> api_request \<Rightarrow> 'a panel web" where
  "fetched_panel read_reply is_empty retry q =
     web_then (web_try (if retry then with_retry (web_request True q) else web_request True q))
       (\<lambda>r. web_ok (case Option.bind r read_reply of
          None \<Rightarrow> Panel_Error
        | Some x \<Rightarrow> if is_empty x then Panel_Empty else Panel x))"

definition list_panel :: "(reply \<Rightarrow> 'a list option) \<Rightarrow> api_request \<Rightarrow> 'a list panel web" where
  "list_panel read_reply = fetched_panel read_reply (\<lambda>l. l = []) True"

definition orders_list_page :: "order_dto list panel web" where
  "orders_list_page = list_panel (\<lambda>r. case r of R_Orders (l, _) \<Rightarrow> Some l | _ \<Rightarrow> None) (A_Orders (O_List None None))"

definition jobs_page :: "order_dto list panel web" where
  "jobs_page = list_panel (\<lambda>r. case r of R_Orders (l, _) \<Rightarrow> Some l | _ \<Rightarrow> None) (A_Master_More (W_Jobs None))"

definition earnings_shown :: "earnings_page panel web" where
  "earnings_shown =
     fetched_panel (\<lambda>r. case r of R_Earnings x \<Rightarrow> Some x | _ \<Rightarrow> None) (\<lambda>_. False) True (A_Master_More (W_Earnings None))"

definition referrals_page :: "referral_summary panel web" where
  "referrals_page =
     fetched_panel (\<lambda>r. case r of R_Referrals x \<Rightarrow> Some x | _ \<Rightarrow> None) (\<lambda>_. False) True (A_Me M_Referrals)"

definition figures_page :: "master_analytics panel web" where
  "figures_page =
     fetched_panel (\<lambda>r. case r of R_Figures x \<Rightarrow> Some x | _ \<Rightarrow> None) (\<lambda>_. False) True (A_Master_More W_Analytics)"

definition inbox_page :: "notification_dto list panel web" where
  "inbox_page = list_panel (\<lambda>r. case r of R_Notifications (l, _) \<Rightarrow> Some l | _ \<Rightarrow> None) (A_Inbox (N_List None))"

text \<open>The home page lists the categories, which anyone may read.\<close>

definition home_page :: "category_dto list option web" where
  "home_page =
     web_then (web_try (with_retry (web_request False (A_Public B_Categories))))
       (\<lambda>r. web_ok (case r of Some (R_Categories l) \<Rightarrow> Some l | _ \<Rightarrow> None))"

section \<open>The inbox\<close>

text \<open>A press on a notification marks it as read and then opens the page of the order it names.  A failed
  request ends the press.\<close>

definition notification_target :: "notification_dto \<Rightarrow> id option" where
  "notification_target n = (case map_of (nd_data n) ''orderId'' of Some (JInt k) \<Rightarrow> Some (nat k) | _ \<Rightarrow> None)"

definition open_notification :: "(id \<Rightarrow> string) \<Rightarrow> notification_dto \<Rightarrow> id option web" where
  "open_notification txt n =
     web_then (if nd_read n = None
               then web_then (web_request True (A_Inbox (N_Read (txt (nd_id n))))) (\<lambda>_. web_ok ())
               else web_ok ())
       (\<lambda>_. web_ok (notification_target n))"

definition follow_notification :: "(id \<Rightarrow> string) \<Rightarrow> notification_dto \<Rightarrow> order_view web" where
  "follow_notification txt n =
     web_then (open_notification txt n)
       (\<lambda>d. case d of Some i \<Rightarrow> load_order txt i | None \<Rightarrow> web_fail Form_Error)"

section \<open>The navigation bar\<close>

definition nav_items :: "string list" where
  "nav_items = [''/home'', ''/orders'', ''/notifications'', ''/profile'']"

definition nav_active :: "string \<Rightarrow> string \<Rightarrow> bool" where
  "nav_active path href = starts_with path href"

definition nav_badge :: "string \<Rightarrow> nat option \<Rightarrow> string option" where
  "nav_badge href unread =
     (case (if href = ''/notifications'' then unread else None) of
        None \<Rightarrow> None
      | Some n \<Rightarrow> if n = 0 then None else if 9 < n then Some ''9+'' else Some [char_of (48 + n)])"

section \<open>The queries of the administrator\<close>

text \<open>\<open>toQuery\<close> leaves out what is not given or empty.\<close>

definition to_query :: "string \<Rightarrow> string option" where
  "to_query x = (if x = [] then None else Some x)"

definition all_users :: user_query_raw where
  "all_users = \<lparr>uq_phone = None, uq_role = None, uq_status = None, uq_verification = None, uq_trust_tier = None, uq_plan = None\<rparr>"

definition all_orders_query :: order_query_raw where
  "all_orders_query = \<lparr>oq_status = None, oq_category = None, oq_tier = None, oq_customer = None, oq_master = None,
     oq_from = None, oq_to = None, oq_lat = None, oq_lng = None, oq_radius = None\<rparr>"

definition read_users :: "reply \<Rightarrow> admin_user list option" where
  "read_users r = (case r of R_Users (l, _) \<Rightarrow> Some l | _ \<Rightarrow> None)"

definition masters_query :: "string \<Rightarrow> subscription_plan option \<Rightarrow> admin_request" where
  "masters_query phone plan = Z_Users None (all_users\<lparr>uq_phone := to_query phone, uq_role := Some MASTER, uq_plan := plan\<rparr>)"

definition customers_query :: "string \<Rightarrow> admin_request" where
  "customers_query phone = Z_Users None (all_users\<lparr>uq_phone := to_query phone, uq_role := Some CUSTOMER\<rparr>)"

definition masters_page :: "string \<Rightarrow> subscription_plan option \<Rightarrow> admin_user list panel web" where
  "masters_page phone plan = list_panel read_users (A_Admin (masters_query phone plan))"

definition customers_page :: "string \<Rightarrow> admin_user list panel web" where
  "customers_page phone = list_panel read_users (A_Admin (customers_query phone))"

definition admin_orders_page ::
  "order_status option \<Rightarrow> string option \<Rightarrow> string option \<Rightarrow> admin_order list panel web" where
  "admin_orders_page st customer master =
     list_panel (\<lambda>r. case r of R_Admin_Orders (l, _) \<Rightarrow> Some l | _ \<Rightarrow> None)
       (A_Admin (Z_Orders None (all_orders_query\<lparr>oq_status := st, oq_customer := customer, oq_master := master\<rparr>)))"

definition audit_page :: "audit_row list panel web" where
  "audit_page = list_panel (\<lambda>r. case r of R_Audit (l, _) \<Rightarrow> Some l | _ \<Rightarrow> None) (A_Admin (Z_Audit None None None))"

definition overview_page :: "overview panel web" where
  "overview_page =
     fetched_panel (\<lambda>r. case r of R_Overview x \<Rightarrow> Some x | _ \<Rightarrow> None) (\<lambda>_. False) True (A_Admin (Z_Overview None None))"

definition verifications_page :: "admin_verification list panel web" where
  "verifications_page =
     list_panel (\<lambda>r. case r of R_Verifications l \<Rightarrow> Some l | _ \<Rightarrow> None) (A_Admin (Z_Verifications None))"

definition claims_page :: "admin_claim list panel web" where
  "claims_page = list_panel (\<lambda>r. case r of R_Claims l \<Rightarrow> Some l | _ \<Rightarrow> None) (A_Admin (Z_Claims None))"

definition flags_page :: "flag_row list panel web" where
  "flags_page = list_panel (\<lambda>r. case r of R_Flags l \<Rightarrow> Some l | _ \<Rightarrow> None) (A_Admin Z_Flags)"

definition user_page :: "string \<Rightarrow> admin_user_detail panel web" where
  "user_page i = fetched_panel (\<lambda>r. case r of R_User x \<Rightarrow> Some x | _ \<Rightarrow> None) (\<lambda>_. False) True (A_Admin (Z_User i))"

definition admin_order_page :: "string \<Rightarrow> admin_order_detail panel web" where
  "admin_order_page i =
     fetched_panel (\<lambda>r. case r of R_Admin_Order x \<Rightarrow> Some x | _ \<Rightarrow> None) (\<lambda>_. False) True (A_Admin (Z_Order i))"

text \<open>The support page searches once something is typed, and does not repeat a search that failed.\<close>

definition support_query :: "string \<Rightarrow> admin_request option" where
  "support_query typed = (if trim typed = [] then None else Some (Z_Support (trim typed)))"

definition support_page :: "string \<Rightarrow> support_dto panel web" where
  "support_page typed =
     (case support_query typed of
        None \<Rightarrow> web_ok Panel_Empty
      | Some q \<Rightarrow> fetched_panel (\<lambda>r. case r of R_Support x \<Rightarrow> Some x | _ \<Rightarrow> None) (\<lambda>_. False) False (A_Admin q))"

section \<open>Requests that are answered and requests of the wrong role\<close>

lemma quiet_cookie_any: "quiet r \<Longrightarrow> \<not> is_public q \<Longrightarrow> cookie_after q (Inr r) x = x"
  by (cases r; cases q) (auto simp: quiet_def cookie_after_def)

lemma ask_any:
  assumes "online (Suc n) rd fm w" "signed_in rd c w" "\<not> is_public q" "route_roles q = [] \<or> cl_role c \<in> set (route_roles q)"
    "\<And>ctx. ap_formats ctx = fm \<Longrightarrow> \<exists>r t. route_handler ctx q (Some c) (wl_db w) = ok r t \<and> quiet r \<and> P r t"
  obtains hs r t where "web_request True q w = (Inr r, w\<lparr>wl_hops := hs, wl_db := t\<rparr>)" "P r t"
    "online n rd fm (w\<lparr>wl_hops := hs, wl_db := t\<rparr>)" "signed_in rd c (w\<lparr>wl_hops := hs, wl_db := t\<rparr>)"
proof -
  obtain h hs where h: "wl_hops w = h # hs" using assms(1) by (cases "wl_hops w") (auto simp: online_def)
  then have a: "hp_fate h = Arrives" "ap_read (hp_ctx h) = rd" "ap_formats (hp_ctx h) = fm"
    using assms(1) by (auto simp: online_def same_server_def)
  obtain r t where r: "route_handler (hp_ctx h) q (Some c) (wl_db w) = ok r t" "quiet r" "P r t"
    using assms(5) [OF a(3)] by blast
  have "serve_api (hp_ctx h) (auth_header True w) q (wl_db w) = ok r t"
    using signed_serve [OF assms(2) a(2) assms(3,4), of "wl_db w"] r(1) by simp
  then have "fetch (auth_header True w) q w = (Some (Inr r), w\<lparr>wl_hops := hs, wl_db := t\<rparr>)"
    using h a quiet_cookie_any [OF r(2) assms(3)] by (simp add: fetch_def ok_def)
  then have "web_request True q w = (Inr r, w\<lparr>wl_hops := hs, wl_db := t\<rparr>)" by (simp add: web_request_def answered_def)
  then show thesis
    by (rule that) (use r(3) assms(1,2) h in \<open>auto simp: online_def same_server_def signed_in_def\<close>)
qed

text \<open>A request for which the caller has not the role fails whatever happens on the way, and changes
  nothing.\<close>

lemma wrong_role_served:
  assumes "signed_in rd c w" "ap_read ctx = rd" "\<not> is_public q" "route_roles q \<noteq> []" "cl_role c \<notin> set (route_roles q)"
  shows "serve_api ctx (auth_header True w) q s = raise Forbidden s"
proof -
  obtain t where t: "wl_token w = Some t" "t \<noteq> []" "rd t = Some c" "\<not> blocked (cl_status c)"
    using assms(1) by (auto simp: signed_in_def)
  have "auth_header True w = Some (bearer_prefix @ t)" using t by (simp add: auth_header_def)
  moreover have "jwt_auth_guard rd False (Some (bearer_prefix @ t)) = Inr (Some c)"
    using t by (simp add: jwt_auth_guard_def starts_with_def)
  ultimately show ?thesis using assms(2-5) by (simp add: serve_api_def guarded_by_def roles_guard_def)
qed

lemma wrong_role_fetched:
  assumes "signed_in rd c w" "same_server rd fm w" "\<not> is_public q" "route_roles q \<noteq> []" "cl_role c \<notin> set (route_roles q)"
  obtains v where "fetch (auth_header True w) q w = (None, v) \<or> fetch (auth_header True w) q w = (Some (Inl Forbidden), v)"
    "wl_db v = wl_db w" "wl_token v = wl_token w" "same_server rd fm v"
proof (cases "wl_hops w")
  case Nil
  then show thesis using that [of w] assms(2) by (simp add: fetch_def)
next
  case (Cons h hs)
  then have "ap_read (hp_ctx h) = rd" using assms(2) by (simp add: same_server_def)
  note r = wrong_role_served [OF assms(1) this assms(3-5)]
  show thesis
    by (rule that [of "snd (fetch (auth_header True w) q w)"])
      (use Cons r assms(2) in \<open>auto simp: fetch_def raise_def same_server_def split: fate.splits\<close>)
qed

lemma wrong_role_refused:
  assumes "signed_in rd c w" "same_server rd fm w" "\<not> is_public q" "route_roles q \<noteq> []" "cl_role c \<notin> set (route_roles q)"
  obtains e v where "web_request True q w = (Inl e, v)" "wl_db v = wl_db w" "signed_in rd c v" "same_server rd fm v"
proof -
  let ?h = "auth_header True w"
  obtain v where v: "fetch ?h q w = (None, v) \<or> fetch ?h q w = (Some (Inl Forbidden), v)"
    "wl_db v = wl_db w" "wl_token v = wl_token w" "same_server rd fm v"
    using wrong_role_fetched [OF assms] by blast
  have sv: "signed_in rd c v" "auth_header True v = ?h" using assms(1) v(3) by (simp_all add: signed_in_def auth_header_def)
  obtain u where u: "fetch ?h q v = (None, u) \<or> fetch ?h q v = (Some (Inl Forbidden), u)"
    "wl_db u = wl_db v" "wl_token u = wl_token v" "same_server rd fm u"
    using wrong_role_fetched [OF sv(1) v(4) assms(3-5)] sv(2) by metis
  have su: "signed_in rd c u" using sv(1) u(3) by (simp add: signed_in_def)
  show thesis
  proof (cases "fetch ?h q w = (None, v)")
    case False
    then show thesis using v sv(1) by (intro that [of "Api_Error 403" v]) (auto simp: web_request_def answered_def)
  next
    case lost: True
    show thesis
    proof (cases "method_of q \<in> set retryable_methods")
      case False
      then show thesis using lost v sv(1) by (intro that [of Network_Failure v]) (auto simp: web_request_def)
    next
      case True
      then show thesis
        using lost u v(2) su
        by (intro that [of "if fetch ?h q v = (None, u) then Network_Failure else Api_Error 403" u])
          (auto simp: web_request_def answered_def)
    qed
  qed
qed

lemma wrong_role_retried:
  assumes "signed_in rd c w" "same_server rd fm w" "\<not> is_public q" "route_roles q \<noteq> []" "cl_role c \<notin> set (route_roles q)"
  obtains e v where "with_retry (web_request True q) w = (Inl e, v)" "wl_db v = wl_db w"
proof -
  obtain e v where v: "web_request True q w = (Inl e, v)" "wl_db v = wl_db w" "signed_in rd c v" "same_server rd fm v"
    using wrong_role_refused [OF assms] by blast
  obtain e' u where u: "web_request True q v = (Inl e', u)" "wl_db u = wl_db v"
    using wrong_role_refused [OF v(3,4) assms(3-5)] by blast
  show thesis by (rule that [of e' u]) (use u v in \<open>simp_all add: with_retry_def\<close>)
qed

lemma online_less: "online (Suc n) rd fm w \<Longrightarrow> online n rd fm w"
  by (simp add: online_def)

lemma online_server: "online n rd fm w \<Longrightarrow> same_server rd fm w"
  by (simp add: online_def)

lemma online_answer:
  assumes "online (Suc n) rd fm w"
  obtains h :: hop where "ap_formats (hp_ctx h) = fm" "ap_read (hp_ctx h) = rd"
    "fst (web_request auth q w) = answered (fst (serve_api (hp_ctx h) (auth_header auth w) q (wl_db w)))"
proof -
  obtain h hs where h: "wl_hops w = h # hs" using assms by (cases "wl_hops w") (auto simp: online_def)
  then have a: "hp_fate h = Arrives" "ap_read (hp_ctx h) = rd" "ap_formats (hp_ctx h) = fm"
    using assms by (auto simp: online_def same_server_def)
  obtain r t where r: "serve_api (hp_ctx h) (auth_header auth w) q (wl_db w) = (r, t)" by fastforce
  show thesis
    by (rule that [OF a(3,2)]) (use h a r in \<open>simp add: web_request_def fetch_def\<close>)
qed

section \<open>Where a notification leads\<close>

lemma order_page_refused:
  assumes "signed_in rd c w" "same_server rd fm w" "cl_role c \<noteq> CUSTOMER"
  obtains e v where "load_order txt i w = (Inl e, v)" "wl_db v = wl_db w"
proof -
  obtain e v where "with_retry (web_request True (A_Orders (O_Get (txt i)))) w = (Inl e, v)" "wl_db v = wl_db w"
    using wrong_role_retried [OF assms(1,2), of "A_Orders (O_Get (txt i))"] assms(3) by auto
  then show thesis by (intro that [of e v]) (simp_all add: load_order_def)
qed

lemma notification_opened:
  assumes "online (Suc n) rd fm w" "signed_in rd c w" "fm_uuid fm (txt (n_id m)) = Some (n_id m)"
    "find_row (\<lambda>r. n_id r = n_id m) (notifications (wl_db w)) = Some m" "n_user m = cl_id c"
  obtains v where "open_notification txt (notification_to_dto m) w = (Inr (notification_target (notification_to_dto m)), v)"
    "online n rd fm v" "signed_in rd c v" "orders (wl_db v) = orders (wl_db w)"
proof (cases "n_read m = None")
  case True
  let ?q = "A_Inbox (N_Read (txt (n_id m)))"
  have "\<exists>r t. route_handler ctx ?q (Some c) (wl_db w) = ok r t \<and> quiet r \<and> orders t = orders (wl_db w)"
    if "ap_formats ctx = fm" for ctx
    using assms(3-5) that True
    by (auto simp: for_user_def piped_def answering_def mark_read_def quiet_def ok_def)
  note handled = this
  have "\<not> is_public ?q" "route_roles ?q = [] \<or> cl_role c \<in> set (route_roles ?q)" by simp_all
  note q = this
  obtain hs r t where h: "web_request True ?q w = (Inr r, w\<lparr>wl_hops := hs, wl_db := t\<rparr>)"
    "orders t = orders (wl_db w)" "online n rd fm (w\<lparr>wl_hops := hs, wl_db := t\<rparr>)" "signed_in rd c (w\<lparr>wl_hops := hs, wl_db := t\<rparr>)"
    by (rule ask_any [OF assms(1,2) q handled])
  have "nd_id (notification_to_dto m) = n_id m" "nd_read (notification_to_dto m) = None"
    using True by (simp_all add: notification_to_dto_def)
  note m = this
  have marked: "web_then (web_request True ?q) (\<lambda>_. web_ok ()) w = (Inr (), w\<lparr>wl_hops := hs, wl_db := t\<rparr>)"
    by (simp only: web_then_def h(1) prod.case sum.case web_ok_apply)
  have "open_notification txt (notification_to_dto m) w
      = (Inr (notification_target (notification_to_dto m)), w\<lparr>wl_hops := hs, wl_db := t\<rparr>)"
    unfolding open_notification_def m
    by (simp only: refl if_True web_then_def [where m = "web_then (web_request True ?q) (\<lambda>_. web_ok ())"] marked
        prod.case sum.case web_ok_apply)
  then show thesis by (rule that [OF _ h(3,4)]) (simp add: h(2))
next
  case False
  then have "open_notification txt (notification_to_dto m) w = (Inr (notification_target (notification_to_dto m)), w)"
    by (auto simp: open_notification_def notification_to_dto_def)
  then show thesis by (rule that [OF _ online_less [OF assms(1)] assms(2)]) simp
qed

section \<open>Lists show the first page\<close>

lemma orders_list_shows:
  assumes "online (Suc n) rd fm w" "signed_in rd c w" "cl_role c = CUSTOMER"
  defines "own \<equiv> newest_first o_created (filter (\<lambda>x. o_customer x = cl_id c) (orders (wl_db w)))"
  shows "fst (orders_list_page w)
    = Inr (if own = [] then Panel_Empty else Panel (map (\<lambda>x. to_dto x (wl_db w)) (take 20 own)))"
proof -
  let ?q = "A_Orders (O_List None None)" and ?l = "map (\<lambda>x. to_dto x (wl_db w)) (take 20 own)"
  have "\<exists>k. list_orders (cl_id c) None None (wl_db w) = (?l, k)"
    by (simp add: list_orders_def orders_page_def page_def find_page_def Let_def own_def)
  then obtain k where "list_orders (cl_id c) None None (wl_db w) = (?l, k)" by blast
  then have handled: "\<exists>r t. route_handler ctx ?q (Some c) (wl_db w) = ok r t \<and> quiet r \<and> r = R_Orders (?l, k)" for ctx
    by (simp add: for_user_def status_filter_def reading_def quiet_def ok_def)
  have "\<not> is_public ?q" "route_roles ?q = [] \<or> cl_role c \<in> set (route_roles ?q)" using assms(3) by simp_all
  note q = this
  obtain hs r t where "web_request True ?q w = (Inr r, w\<lparr>wl_hops := hs, wl_db := t\<rparr>)" "r = R_Orders (?l, k)"
    by (rule ask_any [OF assms(1,2) q handled])
  then show ?thesis
    by (simp add: orders_list_page_def list_panel_def fetched_panel_def web_then_def web_try_def)
qed

section \<open>Searching for a phone\<close>

lemma contained_letters: "contains_text x p \<Longrightarrow> set p \<subseteq> set x"
proof (induction x)
  case (Cons c cs)
  then show ?case by (auto simp: starts_with_def dest: in_set_takeD) (metis in_set_takeD set_ConsD)
qed simp

lemma search_lists_nobody:
  assumes "\<And>r. r \<in> set (users s) \<Longrightarrow> CHR '' '' \<notin> set (u_phone r)" "uf_phone f = Some p" "CHR '' '' \<in> set p"
  shows "admin_list_users f cursor s = ([], None)"
proof -
  have "\<not> user_matches f s r" if "r \<in> set (users s)" for r
    using assms(1) [OF that] assms(2,3) contained_letters [of "u_phone r" p] by (auto simp: user_matches_def)
  then have "filter (user_matches f s) (users s) = []" by (simp add: filter_empty_conv)
  then show ?thesis by (simp add: admin_list_users_def page_def find_page_def newest_first_def split: option.splits)
qed

end
