(* ===== verification/CodeInput.thy ===== *)
theory CodeInput
  imports Text
begin

text \<open>
  The field for a one-time code, \<open>components/ui/otp-input.tsx\<close>: a row of boxes for one digit each over one
  value, and the box that has the focus.  A text is a list of UTF-16 code units, the boxes are numbered
  from 0.
\<close>

section \<open>The field\<close>

record code_input =
  ci_value :: string
  ci_focus :: nat

definition only_digits :: "string \<Rightarrow> string" where
  "only_digits raw = filter is_digit raw"

definition pad_end :: "nat \<Rightarrow> string \<Rightarrow> string" where
  "pad_end n x = x @ replicate (n - length x) CHR '' ''"

text \<open>\<open>setChar\<close> with an empty character, the only one it is called with.\<close>

definition clear_char :: "nat \<Rightarrow> nat \<Rightarrow> string \<Rightarrow> string" where
  "clear_char n i x = take n (filter (\<lambda>c. c \<noteq> CHR '' '') ((pad_end n x)[i := CHR '' '']))"

definition boxes :: "nat \<Rightarrow> string \<Rightarrow> string list" where
  "boxes n x = map (\<lambda>j. if j < length x then [x ! j] else []) [0..<n]"

definition type_in :: "nat \<Rightarrow> nat \<Rightarrow> string \<Rightarrow> code_input \<Rightarrow> code_input" where
  "type_in n i raw st =
     (let digits = only_digits raw in
      if digits = [] then st
      else \<lparr>ci_value = take n (concat ((boxes n (ci_value st))[i := [last digits]])),
            ci_focus = (if i < n - 1 then i + 1 else ci_focus st)\<rparr>)"

definition backspace :: "nat \<Rightarrow> nat \<Rightarrow> code_input \<Rightarrow> code_input" where
  "backspace n i st =
     (if i < length (ci_value st) then st\<lparr>ci_value := clear_char n i (ci_value st)\<rparr>
      else if 0 < i then \<lparr>ci_value = clear_char n (i - 1) (ci_value st), ci_focus = i - 1\<rparr>
      else st)"

definition arrow_left :: "nat \<Rightarrow> code_input \<Rightarrow> code_input" where
  "arrow_left i st = (if 0 < i then st\<lparr>ci_focus := i - 1\<rparr> else st)"

definition arrow_right :: "nat \<Rightarrow> nat \<Rightarrow> code_input \<Rightarrow> code_input" where
  "arrow_right n i st = (if i < n - 1 then st\<lparr>ci_focus := i + 1\<rparr> else st)"

definition paste :: "nat \<Rightarrow> string \<Rightarrow> code_input \<Rightarrow> code_input" where
  "paste n text_data st =
     (let digits = take n (only_digits text_data) in
      if digits = [] then st else \<lparr>ci_value = digits, ci_focus = min (length digits) (n - 1)\<rparr>)"

datatype code_event = Types string | Backs | Lefts | Rights | Pastes string | Clicks nat

fun code_step :: "nat \<Rightarrow> code_event \<Rightarrow> code_input \<Rightarrow> code_input" where
  "code_step n (Types raw) st = type_in n (ci_focus st) raw st"
| "code_step n Backs st = backspace n (ci_focus st) st"
| "code_step n Lefts st = arrow_left (ci_focus st) st"
| "code_step n Rights st = arrow_right n (ci_focus st) st"
| "code_step n (Pastes raw) st = paste n raw st"
| "code_step n (Clicks i) st = (if i < n then st\<lparr>ci_focus := i\<rparr> else st)"

definition code_run :: "nat \<Rightarrow> code_event list \<Rightarrow> code_input \<Rightarrow> code_input" where
  "code_run n es st = foldl (\<lambda>st e. code_step n e st) st es"

section \<open>What the field can hold\<close>

definition code_inv :: "nat \<Rightarrow> code_input \<Rightarrow> bool" where
  "code_inv n st = (length (ci_value st) \<le> n \<and> list_all is_digit (ci_value st) \<and> ci_focus st < n)"

lemma boxes_concat: "length x \<le> n \<Longrightarrow> concat (boxes n x) = x"
proof -
  assume l: "length x \<le> n"
  let ?f = "\<lambda>j. if j < length x then [x ! j] else []"
  have a: "[0..<n] = [0..<length x] @ [length x..<n]" using l by (metis le_add_diff_inverse upt_add_eq_append zero_le)
  have b: "map ?f [0..<length x] = map (\<lambda>j. [x ! j]) [0..<length x]" by (rule map_cong) simp_all
  have c: "concat (map ?f [length x..<n]) = []" by simp
  show ?thesis
    by (simp only: boxes_def a map_append concat_append b c append_Nil2 concat_map_singleton map_nth)
qed

lemma boxes_nth [simp]: "length (boxes n x) = n" "j < n \<Longrightarrow> boxes n x ! j = (if j < length x then [x ! j] else [])"
  by (simp_all add: boxes_def)

lemma boxes_set: "ys \<in> set (boxes n x) \<Longrightarrow> set ys \<subseteq> set x"
  by (auto simp: boxes_def split: if_splits)

lemma typed_digits:
  "list_all is_digit x \<Longrightarrow> is_digit d \<Longrightarrow> list_all is_digit (concat ((boxes n x)[i := [d]]))"
  using boxes_set [of _ n x] set_update_subset_insert [of "boxes n x" i "[d]"]
  by (fastforce simp: list_all_iff)

lemma digits_kept: "list_all is_digit (take n (only_digits x))" "list_all is_digit (only_digits x)"
  by (auto simp: only_digits_def list_all_iff dest: in_set_takeD)

lemma last_digit: "only_digits raw \<noteq> [] \<Longrightarrow> is_digit (last (only_digits raw))"
  using digits_kept(2) [of raw] by (auto simp: list_all_iff)

lemma take_digits: "list_all is_digit x \<Longrightarrow> list_all is_digit (take n x)"
  by (auto simp: list_all_iff dest: in_set_takeD)

lemma clear_char_digits: "list_all is_digit x \<Longrightarrow> list_all is_digit (clear_char n i x)"
proof -
  assume x: "list_all is_digit x"
  have "is_digit c" if "c \<in> set ((pad_end n x)[i := CHR '' ''])" "c \<noteq> CHR '' ''" for c
    using that x set_update_subset_insert [of "pad_end n x" i "CHR '' ''"] by (auto simp: pad_end_def list_all_iff)
  then show ?thesis by (auto simp: clear_char_def list_all_iff dest: in_set_takeD)
qed

lemma clear_char_length: "length (clear_char n i x) \<le> n"
  by (simp add: clear_char_def)

lemma code_step_inv: "code_inv n st \<Longrightarrow> code_inv n (code_step n e st)"
  by (cases e)
    (auto simp: code_inv_def type_in_def backspace_def arrow_left_def arrow_right_def paste_def Let_def
      digits_kept typed_digits last_digit take_digits clear_char_digits clear_char_length)

lemma code_run_inv: "code_inv n st \<Longrightarrow> code_inv n (code_run n es st)"
  unfolding code_run_def by (induction es arbitrary: st) (auto intro: code_step_inv)

section \<open>Typing a code\<close>

text \<open>A digit typed in the first empty box is appended.\<close>

lemma type_next:
  assumes "length x < n" "is_digit d" "length x \<le> i" "i < n"
  shows "concat ((boxes n x)[i := [d]]) = x @ [d]"
proof -
  have "boxes n x = boxes (length x) x @ replicate (n - length x) []"
    by (rule nth_equalityI) (use assms in \<open>auto simp: nth_append\<close>)
  then have "(boxes n x)[i := [d]] = boxes (length x) x @ (replicate (n - length x) [])[i - length x := [d]]"
    using assms by (simp add: list_update_append)
  moreover have "concat ((replicate m [])[j := [d]]) = [d]" if "j < m" for j m
    using that by (induction m arbitrary: j) (auto split: nat.splits)
  ultimately show ?thesis using assms boxes_concat [of x "length x"] by simp
qed

lemma type_one:
  assumes "code_inv n st" "length (ci_value st) \<le> ci_focus st \<or> length (ci_value st) = n" "length (ci_value st) < n" "is_digit d"
  shows "ci_value (code_step n (Types [d]) st) = ci_value st @ [d]"
    "length (ci_value st @ [d]) \<le> ci_focus (code_step n (Types [d]) st) \<or> length (ci_value st @ [d]) = n"
  using assms type_next [of "ci_value st" n d "ci_focus st"]
  by (auto simp: type_in_def only_digits_def code_inv_def)

text \<open>From the first empty box or any later one, digits are taken over in the order they are typed.\<close>

lemma typing_appends:
  assumes "code_inv n st" "length (ci_value st) \<le> ci_focus st \<or> length (ci_value st) = n" "list_all is_digit ds"
    "length (ci_value st) + length ds \<le> n"
  shows "ci_value (code_run n (map (\<lambda>d. Types [d]) ds) st) = ci_value st @ ds"
  using assms
proof (induction ds arbitrary: st)
  case Nil
  then show ?case by (simp add: code_run_def)
next
  case (Cons d ds)
  let ?t = "code_step n (Types [d]) st"
  have "length (ci_value st) < n" "is_digit d" using Cons.prems by simp_all
  from type_one [OF Cons.prems(1,2) this] have t: "ci_value ?t = ci_value st @ [d]"
    "length (ci_value ?t) \<le> ci_focus ?t \<or> length (ci_value ?t) = n" by simp_all
  have "ci_value (code_run n (map (\<lambda>d. Types [d]) ds) ?t) = ci_value ?t @ ds"
    by (rule Cons.IH [OF code_step_inv [OF Cons.prems(1)] t(2)]) (use Cons.prems t(1) in simp_all)
  then show ?case using t(1) by (simp add: code_run_def)
qed

text \<open>Typing a code and pasting it give the same value, whatever stands between the pasted digits.\<close>

lemma typing_is_pasting:
  assumes "only_digits raw = ds" "length ds \<le> n" "0 < n"
  shows "ci_value (code_run n (map (\<lambda>d. Types [d]) ds) \<lparr>ci_value = [], ci_focus = 0\<rparr>)
    = ci_value (code_step n (Pastes raw) \<lparr>ci_value = [], ci_focus = 0\<rparr>)"
proof -
  have "ci_value (code_run n (map (\<lambda>d. Types [d]) ds) \<lparr>ci_value = [], ci_focus = 0\<rparr>) = ds"
    using typing_appends [of n "\<lparr>ci_value = [], ci_focus = 0\<rparr>" ds] assms digits_kept(2) [of raw]
    by (simp add: code_inv_def)
  then show ?thesis using assms by (simp add: paste_def Let_def)
qed

end
