(* ===== verification/VerifyPage.thy ===== *)
theory VerifyPage
  imports CodeInput WebClient
begin

text \<open>
  The page that asks for the code of a text message, \<open>app/(auth)/verify/page.tsx\<close>, as a machine: the field of
  the code, the request that is sent by itself once six digits are entered, the button, the answers of the
  server and the countdown to another code.  The reference \<open>submittingRef\<close> and the state \<open>loading\<close> are set
  and reset together and are one flag.  What a request does to the session is \<open>verify_page\<close> of WebClient.
\<close>

section \<open>The page\<close>

record verify_state =
  vs_field :: code_input
  vs_loading :: bool
  vs_error :: "client_error option"
  vs_seconds :: int
  vs_resending :: nat
  vs_sent :: "(string \<times> string \<times> otp_purpose) list"
  vs_left :: "destination option"

definition vs_code :: "verify_state \<Rightarrow> string" where
  "vs_code st = ci_value (vs_field st)"

definition set_code :: "string \<Rightarrow> verify_state \<Rightarrow> verify_state" where
  "set_code x st = st\<lparr>vs_field := (vs_field st)\<lparr>ci_value := x\<rparr>\<rparr>"

definition verify_open :: "string \<Rightarrow> int option \<Rightarrow> verify_state" where
  "verify_open phone resend_in =
     \<lparr>vs_field = \<lparr>ci_value = [], ci_focus = 0\<rparr>, vs_loading = False, vs_error = None,
      vs_seconds = (case resend_in of None \<Rightarrow> 45 | Some s \<Rightarrow> s), vs_resending = 0, vs_sent = [],
      vs_left = (if phone = [] then Some Goto_Login else None)\<rparr>"

definition verify_submit :: "string \<Rightarrow> otp_purpose \<Rightarrow> verify_state \<Rightarrow> verify_state" where
  "verify_submit phone purpose st =
     (if vs_loading st then st
      else case parse_otp_verify phone (vs_code st) purpose of
             None \<Rightarrow> st\<lparr>vs_error := Some Form_Error\<rparr>
           | Some d \<Rightarrow> st\<lparr>vs_loading := True, vs_error := None, vs_sent := vs_sent st @ [d]\<rparr>)"

definition auto_submit :: "string \<Rightarrow> otp_purpose \<Rightarrow> string \<Rightarrow> verify_state \<Rightarrow> verify_state" where
  "auto_submit phone purpose before st =
     (if vs_code st \<noteq> before \<and> length (vs_code st) = 6 \<and> \<not> vs_loading st
      then verify_submit phone purpose st else st)"

definition verify_answered :: "client_error + destination \<Rightarrow> verify_state \<Rightarrow> verify_state" where
  "verify_answered a st =
     (case a of
        Inr d \<Rightarrow> st\<lparr>vs_left := Some d, vs_loading := False\<rparr>
      | Inl e \<Rightarrow> set_code [] (st\<lparr>vs_error := Some e, vs_loading := False\<rparr>))"

definition resend_answered :: "client_error + int \<Rightarrow> verify_state \<Rightarrow> verify_state" where
  "resend_answered a st =
     (case a of
        Inr s \<Rightarrow> set_code [] (st\<lparr>vs_seconds := s\<rparr>)
      | Inl e \<Rightarrow> st\<lparr>vs_error := Some e\<rparr>)"

datatype verify_event =
    Enters code_event
  | Presses
  | Verified "client_error + destination"
  | Asks_Again
  | Sent_Again "client_error + int"
  | Ticks

text \<open>The boxes are disabled while a request is under way, and the button that asks for another code is shown once the
  countdown is over.\<close>

fun verify_step :: "string \<Rightarrow> otp_purpose \<Rightarrow> verify_event \<Rightarrow> verify_state \<Rightarrow> verify_state" where
  "verify_step phone purpose (Enters e) st =
     (if vs_loading st then st
      else auto_submit phone purpose (vs_code st) (st\<lparr>vs_field := code_step 6 e (vs_field st)\<rparr>))"
| "verify_step phone purpose Presses st = verify_submit phone purpose st"
| "verify_step phone purpose (Verified a) st = (if vs_loading st then verify_answered a st else st)"
| "verify_step phone purpose Asks_Again st =
     (if vs_seconds st > 0 then st else st\<lparr>vs_error := None, vs_resending := Suc (vs_resending st)\<rparr>)"
| "verify_step phone purpose (Sent_Again a) st =
     (if vs_resending st = 0 then st else resend_answered a (st\<lparr>vs_resending := vs_resending st - 1\<rparr>))"
| "verify_step phone purpose Ticks st =
     st\<lparr>vs_seconds := (if vs_seconds st > 0 then vs_seconds st - 1 else 0)\<rparr>"

definition verify_run :: "string \<Rightarrow> otp_purpose \<Rightarrow> verify_event list \<Rightarrow> verify_state \<Rightarrow> verify_state" where
  "verify_run phone purpose es st = foldl (\<lambda>st e. verify_step phone purpose e st) st es"


lemma verify_run_simps [simp]:
  "verify_run phone purpose [] st = st"
  "verify_run phone purpose (e # es) st = verify_run phone purpose es (verify_step phone purpose e st)"
  "verify_run phone purpose (es @ fs) st = verify_run phone purpose fs (verify_run phone purpose es st)"
  by (simp_all add: verify_run_def)

lemmas verify_defs = verify_submit_def auto_submit_def verify_answered_def resend_answered_def set_code_def vs_code_def

section \<open>What the page can send\<close>

definition verify_inv :: "string \<Rightarrow> otp_purpose \<Rightarrow> verify_state \<Rightarrow> bool" where
  "verify_inv phone purpose st =
     (code_inv 6 (vs_field st) \<and>
      (\<forall>d \<in> set (vs_sent st). \<exists>code. parse_otp_verify phone code purpose = Some d \<and> length code = 6))"

lemma parse_otp_verify_shape:
  "parse_otp_verify phone code purpose = Some d
     \<longleftrightarrow> (\<exists>p. parse_uz_phone phone = Some p \<and> length code = 6 \<and> list_all is_digit code \<and> d = (p, code, purpose))"
  by (auto simp: parse_otp_verify_def digits_exactly_def guarded_def split: bind_splits if_splits)

lemma verify_submit_frame [simp]:
  "vs_field (verify_submit phone purpose st) = vs_field st"
  "vs_field (auto_submit phone purpose x st) = vs_field st"
  by (auto simp: verify_submit_def auto_submit_def split: option.splits)

lemma verify_submit_sent:
  "d \<in> set (vs_sent (verify_submit phone purpose st)) \<Longrightarrow>
     d \<in> set (vs_sent st) \<or> parse_otp_verify phone (vs_code st) purpose = Some d"
  by (auto simp: verify_submit_def split: option.splits if_splits)

lemma submit_inv: "verify_inv phone purpose st \<Longrightarrow> verify_inv phone purpose (verify_submit phone purpose st)"
  unfolding verify_inv_def using verify_submit_sent [of _ phone purpose st]
  by (fastforce simp: parse_otp_verify_shape)

lemma verify_step_inv: "verify_inv phone purpose st \<Longrightarrow> verify_inv phone purpose (verify_step phone purpose e st)"
proof (cases e)
  case (Enters c)
  assume i: "verify_inv phone purpose st"
  have "verify_inv phone purpose (st\<lparr>vs_field := code_step 6 c (vs_field st)\<rparr>)"
    using i by (simp add: verify_inv_def code_step_inv)
  then show ?thesis using i Enters submit_inv by (simp add: auto_submit_def)
next
  case Presses
  assume "verify_inv phone purpose st"
  then show ?thesis using Presses by (simp add: submit_inv)
qed (auto simp: verify_inv_def verify_answered_def resend_answered_def set_code_def code_inv_def split: sum.splits)

lemma verify_run_inv: "verify_inv phone purpose st \<Longrightarrow> verify_inv phone purpose (verify_run phone purpose es st)"
  by (induction es arbitrary: st) (auto intro: verify_step_inv)

lemma verify_open_inv: "verify_inv phone purpose (verify_open phone r)"
  by (simp add: verify_inv_def verify_open_def code_inv_def)

text \<open>Whatever is typed, pasted and pressed, only codes of six digits are sent, for the number and purpose of the page.\<close>

lemma only_codes_are_sent:
  assumes "(p, c, q) \<in> set (vs_sent (verify_run phone purpose es (verify_open phone r)))"
  shows "parse_uz_phone phone = Some p \<and> length c = 6 \<and> list_all is_digit c \<and> q = purpose"
proof -
  have "verify_inv phone purpose (verify_run phone purpose es (verify_open phone r))"
    by (rule verify_run_inv [OF verify_open_inv])
  then show ?thesis using assms by (fastforce simp: verify_inv_def parse_otp_verify_shape)
qed

section \<open>One request at a time\<close>

fun is_verified :: "verify_event \<Rightarrow> bool" where
  "is_verified (Verified _) = True"
| "is_verified _ = False"

definition under_way :: "verify_state \<Rightarrow> nat" where
  "under_way st = (if vs_loading st then 1 else 0)"

lemma submit_counts:
  "length (vs_sent (verify_submit phone purpose st)) + under_way st
     = length (vs_sent st) + under_way (verify_submit phone purpose st)"
  by (auto simp: verify_submit_def under_way_def split: option.splits)

lemma step_counts:
  "length (vs_sent (verify_step phone purpose e st)) + under_way st
     \<le> length (vs_sent st) + under_way (verify_step phone purpose e st) + (if is_verified e then 1 else 0)"
proof (cases e)
  case (Enters c)
  let ?t = "st\<lparr>vs_field := code_step 6 c (vs_field st)\<rparr>"
  have "vs_sent ?t = vs_sent st" "under_way ?t = under_way st" by (simp_all add: under_way_def)
  then show ?thesis using Enters submit_counts [of phone purpose ?t] by (simp add: auto_submit_def)
next
  case Presses
  then show ?thesis using submit_counts [of phone purpose st] by simp
qed (auto simp: verify_answered_def resend_answered_def set_code_def under_way_def split: sum.splits)

lemma run_counts:
  "length (vs_sent (verify_run phone purpose es st)) + under_way st
     \<le> length (vs_sent st) + under_way (verify_run phone purpose es st) + length (filter is_verified es)"
proof (induction es arbitrary: st)
  case (Cons e es)
  show ?case using Cons.IH [of "verify_step phone purpose e st"] step_counts [of phone purpose e st] by (simp split: if_splits)
qed simp

text \<open>However often the button is pressed, a request is sent only after the one before was answered.\<close>

lemma one_verification_at_a_time:
  "length (vs_sent (verify_run phone purpose es (verify_open phone r))) \<le> Suc (length (filter is_verified es))"
  using run_counts [of phone purpose es "verify_open phone r"]
  by (simp add: verify_open_def under_way_def split: if_splits)

section \<open>Typing a code sends it\<close>

definition typing :: "string \<Rightarrow> verify_event list" where
  "typing ds = map (\<lambda>d. Enters (Types [d])) ds"

lemma short_code_waits:
  assumes "\<not> vs_loading st" "length (ci_value (code_step 6 e (vs_field st))) < 6"
  shows "verify_step phone purpose (Enters e) st = st\<lparr>vs_field := code_step 6 e (vs_field st)\<rparr>"
  using assms by (simp add: auto_submit_def vs_code_def)

lemma full_code_is_sent:
  assumes "\<not> vs_loading st" "parse_uz_phone phone = Some p" "length c = 6" "list_all is_digit c"
    "ci_value (code_step 6 e (vs_field st)) = c" "vs_code st \<noteq> c"
  shows "vs_sent (verify_step phone purpose (Enters e) st) = vs_sent st @ [(p, c, purpose)]"
    "vs_loading (verify_step phone purpose (Enters e) st)"
proof -
  have "parse_otp_verify phone c purpose = Some (p, c, purpose)"
    using assms(2-4) by (simp add: parse_otp_verify_shape)
  then show "vs_sent (verify_step phone purpose (Enters e) st) = vs_sent st @ [(p, c, purpose)]"
    "vs_loading (verify_step phone purpose (Enters e) st)"
    using assms(1,3,5,6) by (simp_all add: auto_submit_def verify_submit_def vs_code_def)
qed

lemma typing_sends:
  assumes "\<not> vs_loading st" "code_inv 6 (vs_field st)" "length (vs_code st) \<le> ci_focus (vs_field st)"
    "parse_uz_phone phone = Some p" "list_all is_digit ds" "ds \<noteq> []" "length (vs_code st) + length ds = 6"
  shows "vs_sent (verify_run phone purpose (typing ds) st) = vs_sent st @ [(p, vs_code st @ ds, purpose)]
    \<and> vs_loading (verify_run phone purpose (typing ds) st)"
  using assms
proof (induction ds arbitrary: st)
  case (Cons d ds)
  let ?f = "code_step 6 (Types [d]) (vs_field st)"
  let ?t = "verify_step phone purpose (Enters (Types [d])) st"
  have d: "is_digit d" and n: "length (ci_value (vs_field st)) < 6" using Cons.prems by (simp_all add: vs_code_def)
  have v: "ci_value ?f = vs_code st @ [d]"
    and g: "length (vs_code st @ [d]) \<le> ci_focus ?f \<or> length (vs_code st @ [d]) = 6"
    using type_one [OF Cons.prems(2) _ n d] Cons.prems(3) by (simp_all add: vs_code_def)
  have i: "code_inv 6 ?f" by (rule code_step_inv [OF Cons.prems(2)])
  show ?case
  proof (cases ds)
    case Nil
    have "length (vs_code st @ [d]) = 6" "list_all is_digit (vs_code st @ [d])" "vs_code st \<noteq> vs_code st @ [d]"
      using Cons.prems(2,5,7) Nil by (simp_all add: code_inv_def vs_code_def)
    from full_code_is_sent [OF Cons.prems(1,4) this(1,2) v this(3)] show ?thesis
      using Nil by (simp add: typing_def)
  next
    case (Cons d' ds')
    have t: "?t = st\<lparr>vs_field := ?f\<rparr>"
      by (rule short_code_waits) (use Cons.prems v Cons in simp_all)
    have "vs_sent (verify_run phone purpose (typing ds) ?t) = vs_sent ?t @ [(p, vs_code ?t @ ds, purpose)]
      \<and> vs_loading (verify_run phone purpose (typing ds) ?t)"
      by (rule Cons.IH) (use Cons.prems t v g i Cons in \<open>auto simp: vs_code_def\<close>)
    then show ?thesis using t v by (simp add: typing_def vs_code_def)
  qed
qed simp


text \<open>A page that was just opened sends the code as soon as its sixth digit is typed, without the button.\<close>

lemma typed_code_is_sent:
  assumes "parse_uz_phone phone = Some p" "length ds = 6" "list_all is_digit ds"
  shows "vs_sent (verify_run phone purpose (typing ds) (verify_open phone r)) = [(p, ds, purpose)]"
proof -
  let ?o = "verify_open phone r"
  have o: "\<not> vs_loading ?o" "code_inv 6 (vs_field ?o)" "vs_code ?o = []" "vs_sent ?o = []"
    by (simp_all add: verify_open_def code_inv_def vs_code_def)
  have "ds \<noteq> []" using assms(2) by auto
  then show ?thesis using typing_sends [OF o(1,2) _ assms(1,3), of purpose] o(3,4) assms(2) by simp
qed

text \<open>After a refusal the boxes are empty, and the next code can be typed from any box.\<close>

lemma refused_code_is_retyped:
  assumes "verify_inv phone purpose st" "vs_loading st" "i < 6"
    "parse_uz_phone phone = Some p" "length ds = 6" "list_all is_digit ds"
  shows "vs_sent (verify_run phone purpose (Verified (Inl e) # Enters (Clicks i) # typing ds) st)
    = vs_sent st @ [(p, ds, purpose)]"
proof -
  let ?t = "verify_run phone purpose [Verified (Inl e), Enters (Clicks i)] st"
  have t: "\<not> vs_loading ?t" "vs_code ?t = []" "vs_sent ?t = vs_sent st" "code_inv 6 (vs_field ?t)"
    using assms(1-3) by (simp_all add: verify_answered_def set_code_def auto_submit_def vs_code_def code_inv_def)
  have "ds \<noteq> []" using assms(5) by auto
  then have "vs_sent (verify_run phone purpose (typing ds) ?t) = vs_sent ?t @ [(p, vs_code ?t @ ds, purpose)]"
    using typing_sends [OF t(1,4) _ assms(4,6)] t(2) assms(5) by simp
  then show ?thesis using t by simp
qed

text \<open>What is sent is what the page's request asks for: the number in its canonical form is read as itself.\<close>

lemma sent_is_requested:
  assumes "parse_otp_verify phone code purpose = Some (p, c, q)"
  shows "verify_page p c q = verify_page phone code purpose"
proof -
  have "parse_otp_verify p c q = Some (p, c, q)"
    using assms phone_again by (auto simp: parse_otp_verify_shape)
  then show ?thesis using assms by (simp add: verify_page_def)
qed

text \<open>The countdown never rises by itself and reaches 0 after as many seconds.\<close>

lemma countdown_ends:
  "0 \<le> vs_seconds st \<Longrightarrow> vs_seconds (verify_run phone purpose (replicate k Ticks) st) = max 0 (vs_seconds st - int k)"
  by (induction k arbitrary: st) auto

end
