(* ===== verification/QueryLabels.thy ===== *)
theory QueryLabels
  imports Text
begin

text \<open>
  The label of a query in the histogram of the database, \<open>parseQueryTarget\<close> of
  \<open>infra/prisma/prisma.service.ts\<close>: the regular expressions written out as scanners.  Every repetition but
  the lazy one is over a class of characters that what follows it excludes, so the longest match is the
  only one that can succeed; the lazy one tries each position from the left.  A text has characters with
  codes below 256.
\<close>

section \<open>The scanners\<close>

definition is_word :: "char \<Rightarrow> bool" where
  "is_word c = (let n = (of_char c :: nat) in 48 \<le> n \<and> n \<le> 57 \<or> 65 \<le> n \<and> n \<le> 90 \<or> n = 95 \<or> 97 \<le> n \<and> n \<le> 122)"

definition line_end :: "char \<Rightarrow> bool" where
  "line_end c = ((of_char c :: nat) \<in> {10, 13})"

definition lower_char :: "char \<Rightarrow> char" where
  "lower_char c = (let n = (of_char c :: nat) in if 65 \<le> n \<and> n \<le> 90 then char_of (n + 32) else c)"

definition lower_word :: "string \<Rightarrow> string" where
  "lower_word x = map lower_char x"

definition after_keyword :: "string \<Rightarrow> string \<Rightarrow> string option" where
  "after_keyword k s = (if lower_word (take (length k) s) = k then Some (drop (length k) s) else None)"

fun skip_quote :: "string \<Rightarrow> string" where
  "skip_quote [] = []"
| "skip_quote (c # cs) = (if c = CHR 0x22 then cs else c # cs)"

definition extract_call :: "string \<Rightarrow> string option" where
  "extract_call s =
     (case after_keyword ''extract'' s of
        None \<Rightarrow> None
      | Some r \<Rightarrow>
          (case dropWhile is_space r of
             [] \<Rightarrow> None
           | c # t \<Rightarrow>
               if c \<noteq> CHR ''('' then None
               else (case dropWhile (\<lambda>x. x \<notin> {CHR ''('', CHR '')''}) t of
                       [] \<Rightarrow> None
                     | d # v \<Rightarrow> if d = CHR '')'' then Some v else None)))"

lemma after_keyword_length: "after_keyword k s = Some r \<Longrightarrow> length r \<le> length s"
  by (auto simp: after_keyword_def split: if_splits)

lemma extract_call_shorter: "extract_call s = Some r \<Longrightarrow> length r < length s"
proof -
  assume "extract_call s = Some r"
  then obtain q c t d v where k: "after_keyword ''extract'' s = Some q" "dropWhile is_space q = c # t"
    "dropWhile (\<lambda>x. x \<notin> {CHR ''('', CHR '')''}) t = d # v" "r = v"
    by (auto simp: extract_call_def split: option.splits list.splits if_splits)
  have "Suc (length t) \<le> length q" using length_dropWhile_le [of is_space q] k(2) by simp
  moreover have "Suc (length v) \<le> length t" using length_dropWhile_le [of "\<lambda>x. x \<notin> {CHR ''('', CHR '')''}" t] k(3) by simp
  ultimately show ?thesis using after_keyword_length [OF k(1)] k(4) by simp
qed

function strip_extract :: "string \<Rightarrow> string" where
  "strip_extract s =
     (case extract_call s of
        Some r \<Rightarrow> ''EXTRACT()'' @ strip_extract r
      | None \<Rightarrow> (case s of [] \<Rightarrow> [] | c # cs \<Rightarrow> c # strip_extract cs))"
  by pat_completeness auto
termination by (relation "measure length") (auto dest: extract_call_shorter)

declare strip_extract.simps [simp del]

definition statement_word :: "string \<Rightarrow> (string \<times> string) option" where
  "statement_word s =
     (let t = dropWhile is_space s; w = lower_word (take 6 t); r = drop 6 t
      in if w \<in> {''select'', ''insert'', ''update'', ''delete''} \<and> (r = [] \<or> \<not> is_word (hd r)) then Some (w, r) else None)"

definition table_name :: "string \<Rightarrow> string option" where
  "table_name s =
     (let a = skip_quote s; w = takeWhile is_word a in
      if w = [] then None
      else (case skip_quote (dropWhile is_word a) of
              [] \<Rightarrow> Some w
            | c # b \<Rightarrow>
                (let v = takeWhile is_word (skip_quote b)
                 in if c = CHR ''.'' \<and> v \<noteq> [] then Some v else Some w)))"

definition clause :: "string \<Rightarrow> string option" where
  "clause s =
     (case (case after_keyword ''from'' s of
              Some r \<Rightarrow> Some r
            | None \<Rightarrow> (case after_keyword ''into'' s of Some r \<Rightarrow> Some r | None \<Rightarrow> after_keyword ''update'' s)) of
        None \<Rightarrow> None
      | Some r \<Rightarrow> if r \<noteq> [] \<and> is_space (hd r) then table_name (dropWhile is_space r) else None)"

fun first_clause :: "char \<Rightarrow> string \<Rightarrow> string option" where
  "first_clause before [] = None"
| "first_clause before (c # cs) =
     (case (if is_word before then None else clause (c # cs)) of
        Some t \<Rightarrow> Some t
      | None \<Rightarrow> if line_end c then None else first_clause c cs)"

definition parse_query_target :: "string \<Rightarrow> string \<times> string" where
  "parse_query_target sql =
     (case statement_word (strip_extract sql) of
        None \<Rightarrow> (''unknown'', ''unknown'')
      | Some (w, r) \<Rightarrow>
          (case first_clause (CHR ''t'') r of
             None \<Rightarrow> (''unknown'', ''unknown'')
           | Some t \<Rightarrow> (lower_word t, w)))"


section \<open>Where a clause can begin\<close>

lemma char_kinds [simp]:
  "\<not> is_word (CHR 0x22)" "\<not> is_word (CHR '' '')" "is_word (CHR ''t'')" "\<not> is_space (CHR 0x22)" "is_space (CHR '' '')"
  "\<not> line_end (CHR 0x22)" "\<not> line_end (CHR '' '')" "\<not> is_word (CHR ''.'')" "lower_char (CHR 0x22) = CHR 0x22"
  by (simp_all add: is_word_def is_space_def line_end_def lower_char_def Let_def)

lemma space_no_word: "is_space c \<Longrightarrow> \<not> is_word c"
  by (auto simp: is_space_def is_word_def Let_def)

lemma word_no_line_end: "is_word c \<Longrightarrow> \<not> line_end c"
  by (auto simp: line_end_def is_word_def Let_def)

lemma lower_is_word: "is_word (lower_char c) \<Longrightarrow> is_word c"
proof -
  have "is_word c" if "65 \<le> (of_char c :: nat)" "(of_char c :: nat) \<le> 90" using that by (simp add: is_word_def Let_def)
  then show "is_word (lower_char c) \<Longrightarrow> is_word c" by (auto simp: lower_char_def Let_def split: if_splits)
qed

lemma after_keyword_split:
  assumes "after_keyword k s = Some r" "list_all is_word k"
  shows "\<exists>p. s = p @ r \<and> list_all is_word p \<and> length p = length k"
proof -
  let ?p = "take (length k) s"
  have l: "lower_word ?p = k" and r: "r = drop (length k) s" using assms(1) by (auto simp: after_keyword_def split: if_splits)
  have "list_all is_word (lower_word ?p)" using assms(2) by (simp only: l)
  then have "list_all is_word ?p" using lower_is_word by (auto simp: lower_word_def list_all_iff)
  moreover have "length ?p = length k" using arg_cong [OF l, of length] by (simp add: lower_word_def)
  moreover have "s = ?p @ r" using r by simp
  ultimately show ?thesis by blast
qed

text \<open>A clause begins with a word that is followed by white space.\<close>

lemma clause_words:
  assumes "clause s = Some t"
  shows "takeWhile is_word s \<noteq> [] \<and> dropWhile is_word s \<noteq> [] \<and> is_space (hd (dropWhile is_word s))"
proof -
  have kw: "list_all is_word ''from''" "list_all is_word ''into''" "list_all is_word ''update''"
    by (simp_all add: is_word_def Let_def)
  obtain k r where "k \<in> {''from'', ''into'', ''update''}" and k: "after_keyword k s = Some r" and r: "r \<noteq> []" "is_space (hd r)"
    using assms by (auto simp: clause_def split: option.splits if_splits)
  then have w: "list_all is_word k" "k \<noteq> []" using kw by auto
  obtain p where p: "s = p @ r" "list_all is_word p" "length p = length k"
    using after_keyword_split [OF k w(1)] by blast
  obtain c cs where c: "r = c # cs" using r(1) by (cases r) auto
  have "takeWhile is_word s = p" "dropWhile is_word s = r"
    using p(1,2) c r(2) space_no_word by (auto simp: list_all_iff)
  then show ?thesis using p(3) w(2) r by auto
qed

lemma no_clause_here: "\<not> is_word c \<Longrightarrow> clause (c # cs) = None"
  using clause_words [of "c # cs"] by (cases "clause (c # cs)") auto

lemma first_clause_simps [simp]:
  "\<not> is_word c \<Longrightarrow> \<not> line_end c \<Longrightarrow> first_clause b (c # cs) = first_clause c cs"
  "is_word b \<Longrightarrow> \<not> line_end c \<Longrightarrow> first_clause b (c # cs) = first_clause c cs"
  by (simp_all add: no_clause_here)

declare first_clause.simps(2) [simp del]

text \<open>A piece of a statement in which white space never follows a word, like a list of quoted columns.\<close>

fun spaced :: "char \<Rightarrow> string \<Rightarrow> bool" where
  "spaced b [] = True"
| "spaced b (c # cs) = ((is_space c \<longrightarrow> \<not> is_word b) \<and> \<not> line_end c \<and> spaced c cs)"

lemma spaced_run: "spaced b x \<Longrightarrow> is_word b \<Longrightarrow> dropWhile is_word x = [] \<or> \<not> is_space (hd (dropWhile is_word x))"
  by (induction x arbitrary: b) auto

lemma spaced_skipped: "spaced b x \<Longrightarrow> first_clause b (x @ CHR 0x22 # r) = first_clause (CHR 0x22) r"
proof (induction x arbitrary: b)
  case (Cons c cs)
  have "clause (c # cs @ CHR 0x22 # r) = None" if w: "is_word c"
  proof -
    have "\<not> is_space (hd (dropWhile is_word (cs @ CHR 0x22 # r)))"
      using spaced_run [of c cs] Cons.prems w by (cases "dropWhile is_word cs = []") (auto simp: dropWhile_append)
    then show ?thesis using clause_words [of "c # cs @ CHR 0x22 # r"] w by (cases "clause (c # cs @ CHR 0x22 # r)") auto
  qed
  then have "clause (c # cs @ CHR 0x22 # r) = None" using no_clause_here by (cases "is_word c") auto
  then show ?case using Cons by (simp add: first_clause.simps(2))
qed simp

lemma word_spaced: "list_all is_word x \<Longrightarrow> spaced b x"
  by (induction x arbitrary: b) (auto simp: space_no_word word_no_line_end)

lemma spaced_append: "spaced b (x @ y) \<longleftrightarrow> spaced b x \<and> spaced (last (b # x)) y"
  by (induction x arbitrary: b) auto

section \<open>Without calls of EXTRACT\<close>

lemma no_extract_call:
  assumes "CHR ''('' \<notin> set x"
  shows "extract_call (x @ CHR 0x22 # r) = None"
proof (cases "after_keyword ''extract'' (x @ CHR 0x22 # r)")
  case (Some q)
  have "list_all is_word ''extract''" by (simp add: is_word_def Let_def)
  from after_keyword_split [OF Some this] obtain p where p: "x @ CHR 0x22 # r = p @ q" "list_all is_word p" by blast
  have "\<exists>y. q = y @ CHR 0x22 # r \<and> set y \<subseteq> set x"
  proof -
    from p(1) obtain us where "x = p @ us \<and> us @ CHR 0x22 # r = q \<or> x @ us = p \<and> CHR 0x22 # r = us @ q"
      unfolding append_eq_append_conv2 by blast
    then show ?thesis
    proof
      assume "x @ us = p \<and> CHR 0x22 # r = us @ q"
      then show ?thesis using p(2) by (cases us) auto
    qed auto
  qed
  then obtain y where y: "q = y @ CHR 0x22 # r" "set y \<subseteq> set x" by blast
  have "dropWhile is_space q \<noteq> [] \<and> hd (dropWhile is_space q) \<noteq> CHR ''(''"
  proof (cases "dropWhile is_space y")
    case Nil
    then show ?thesis by (simp add: y(1) dropWhile_append)
  next
    case (Cons c cs)
    then have "c \<in> set y" using set_dropWhileD [of c is_space y] by simp
    then show ?thesis using Cons assms y by (auto simp: dropWhile_append)
  qed
  then show ?thesis using Some by (cases "dropWhile is_space q") (auto simp: extract_call_def)
qed (simp add: extract_call_def)

lemma strip_kept: "CHR ''('' \<notin> set x \<Longrightarrow> strip_extract (x @ CHR 0x22 # r) = x @ CHR 0x22 # strip_extract r"
proof (induction x)
  case Nil
  have "extract_call (CHR 0x22 # r) = None" using no_extract_call [of "[]" r] by simp
  then show ?case by (simp add: strip_extract.simps [of "CHR 0x22 # r"])
next
  case (Cons c cs)
  have "extract_call (c # cs @ CHR 0x22 # r) = None" using no_extract_call [OF Cons.prems, of r] by simp
  then show ?case using Cons by (simp add: strip_extract.simps [of "c # cs @ CHR 0x22 # r"])
qed

section \<open>The statements of the generated queries\<close>

text \<open>The table of a schema-qualified name.\<close>

definition quoted :: "string \<Rightarrow> string" where
  "quoted x = CHR 0x22 # x @ [CHR 0x22]"

definition relation :: "string \<Rightarrow> string" where
  "relation t = quoted ''public'' @ CHR ''.'' # quoted t"

lemma relation_shape: "relation t @ r = CHR 0x22 # ''public'' @ CHR 0x22 # CHR ''.'' # CHR 0x22 # t @ CHR 0x22 # r"
  by (simp add: relation_def quoted_def)

lemma table_of_relation:
  assumes "t \<noteq> []" "list_all is_word t"
  shows "table_name (relation t @ r) = Some t"
proof -
  have "takeWhile is_word (t @ CHR 0x22 # r) = t" using assms(2) by (simp add: list_all_iff)
  moreover have "is_word (CHR ''p'')" "is_word (CHR ''u'')" "is_word (CHR ''b'')" "is_word (CHR ''l'')" "is_word (CHR ''i'')" "is_word (CHR ''c'')"
    by (simp_all add: is_word_def Let_def)
  ultimately show ?thesis using assms(1) by (simp add: relation_shape table_name_def Let_def)
qed

lemma strip_relation:
  assumes "CHR ''('' \<notin> set x" "list_all is_word t"
  shows "strip_extract (x @ relation t @ r) = x @ relation t @ strip_extract r"
proof -
  have "CHR ''('' \<notin> set (x @ CHR 0x22 # ''public'' @ CHR 0x22 # CHR ''.'' # CHR 0x22 # t)"
    using assms by (auto simp: list_all_iff is_word_def Let_def)
  from strip_kept [OF this, of r] show ?thesis by (simp add: relation_shape)
qed


lemmas literal_defs = is_word_def is_space_def line_end_def after_keyword_def lower_word_def lower_char_def char_of_eq_iff Let_def

lemma lower_words:
  "lower_word ''FROM'' = ''from''" "lower_word ''INTO'' = ''into''" "lower_word ''SELECT'' = ''select''"
  "lower_word ''INSERT'' = ''insert''" "lower_word ''UPDATE'' = ''update''" "lower_word ''DELETE'' = ''delete''"
  by (simp_all add: literal_defs)

lemma clause_from: "t \<noteq> [] \<Longrightarrow> list_all is_word t \<Longrightarrow> clause (''FROM '' @ relation t @ r) = Some t"
  using table_of_relation [of t r] lower_words by (simp add: clause_def after_keyword_def relation_shape)

lemma clause_into: "t \<noteq> [] \<Longrightarrow> list_all is_word t \<Longrightarrow> clause (''INTO '' @ relation t @ r) = Some t"
  using table_of_relation [of t r] lower_words by (simp add: clause_def after_keyword_def relation_shape)

lemma clause_found: "clause (c # cs) = Some t \<Longrightarrow> first_clause (CHR '' '') (c # cs) = Some t"
  by (simp add: first_clause.simps(2))

lemma statement_words [simp]:
  "statement_word (''SELECT '' @ r) = Some (''select'', CHR '' '' # r)"
  "statement_word (''INSERT '' @ r) = Some (''insert'', CHR '' '' # r)"
  "statement_word (''UPDATE '' @ r) = Some (''update'', CHR '' '' # r)"
  "statement_word (''DELETE '' @ r) = Some (''delete'', CHR '' '' # r)"
  using lower_words by (simp_all add: statement_word_def is_space_def Let_def)

text \<open>A SELECT of quoted columns, an INSERT and a DELETE are counted for their table, whatever follows it.\<close>

lemma select_labelled:
  assumes "t \<noteq> []" "list_all is_word t" "spaced (CHR '' '') cols" "CHR ''('' \<notin> set cols"
  shows "parse_query_target (''SELECT '' @ cols @ CHR 0x22 # '' FROM '' @ relation t @ r) = (lower_word t, ''select'')"
proof -
  have s: "strip_extract (''SELECT '' @ cols @ CHR 0x22 # '' FROM '' @ relation t @ r)
    = ''SELECT '' @ (cols @ CHR 0x22 # '' FROM '' @ relation t @ strip_extract r)"
    using strip_relation [of "''SELECT '' @ cols @ CHR 0x22 # '' FROM ''" t r] assms(2,4) by simp
  have "first_clause (CHR '' '') (cols @ CHR 0x22 # '' FROM '' @ relation t @ strip_extract r)
    = first_clause (CHR '' '') (''FROM '' @ relation t @ strip_extract r)"
    using spaced_skipped [OF assms(3), of "'' FROM '' @ relation t @ strip_extract r"] by simp
  also have "\<dots> = Some t" using clause_from [OF assms(1,2)] clause_found by simp
  finally show ?thesis unfolding parse_query_target_def s statement_words by simp
qed

lemma insert_labelled:
  assumes "t \<noteq> []" "list_all is_word t"
  shows "parse_query_target (''INSERT INTO '' @ relation t @ r) = (lower_word t, ''insert'')"
proof -
  have s: "strip_extract (''INSERT INTO '' @ relation t @ r) = ''INSERT '' @ (''INTO '' @ relation t @ strip_extract r)"
    using strip_relation [of "''INSERT INTO ''" t r] assms(2) by simp
  have "first_clause (CHR '' '') (''INTO '' @ relation t @ strip_extract r) = Some t"
    using clause_into [OF assms] clause_found by simp
  then show ?thesis unfolding parse_query_target_def s statement_words by simp
qed

lemma delete_labelled:
  assumes "t \<noteq> []" "list_all is_word t"
  shows "parse_query_target (''DELETE FROM '' @ relation t @ r) = (lower_word t, ''delete'')"
proof -
  have s: "strip_extract (''DELETE FROM '' @ relation t @ r) = ''DELETE '' @ (''FROM '' @ relation t @ strip_extract r)"
    using strip_relation [of "''DELETE FROM ''" t r] assms(2) by simp
  have "first_clause (CHR '' '') (''FROM '' @ relation t @ strip_extract r) = Some t"
    using clause_from [OF assms] clause_found by simp
  then show ?thesis unfolding parse_query_target_def s statement_words by simp
qed

text \<open>An UPDATE is never counted for its table: the word UPDATE is taken as the statement, and the scan for a clause looks
  for another one after it.\<close>

lemma update_label:
  assumes "list_all is_word t"
  shows "parse_query_target (''UPDATE '' @ relation t @ r)
    = (case first_clause (CHR 0x22) (strip_extract r) of
         None \<Rightarrow> (''unknown'', ''unknown'')
       | Some u \<Rightarrow> (lower_word u, ''update''))"
proof -
  have s: "strip_extract (''UPDATE '' @ relation t @ r) = ''UPDATE '' @ (relation t @ strip_extract r)"
    using strip_relation [of "''UPDATE ''" t r] assms by simp
  have "spaced (CHR '' '') (CHR 0x22 # ''public'')" "spaced (CHR 0x22) t"
    using word_spaced [OF assms] by (simp_all add: is_space_def line_end_def)
  then have "first_clause (CHR '' '') (relation t @ strip_extract r) = first_clause (CHR 0x22) (strip_extract r)"
    using spaced_skipped [of "CHR '' ''" "CHR 0x22 # ''public''" "CHR ''.'' # CHR 0x22 # t @ CHR 0x22 # strip_extract r"]
      spaced_skipped [of "CHR 0x22" t "strip_extract r"]
    by (simp add: relation_shape line_end_def)
  then show ?thesis unfolding parse_query_target_def s statement_words by simp
qed

lemma update_unlabelled:
  assumes "list_all is_word t"
  shows "parse_query_target (''UPDATE '' @ relation t @ '' SET '' @ quoted ''status'' @ '' = $1 WHERE 1=1'')
    = (''unknown'', ''unknown'')"
proof -
  have "strip_extract ('' SET '' @ quoted ''status'' @ '' = $1 WHERE 1=1'') = '' SET '' @ quoted ''status'' @ '' = $1 WHERE 1=1''"
    by (simp add: literal_defs strip_extract.simps extract_call_def quoted_def)
  then have "first_clause (CHR 0x22) (strip_extract ('' SET '' @ quoted ''status'' @ '' = $1 WHERE 1=1'')) = None"
    by (simp add: literal_defs first_clause.simps(2) clause_def quoted_def)
  then show ?thesis using update_label [OF assms] by simp
qed

text \<open>The aggregates that made the queries of the analytics look like queries of a column are counted for their table.\<close>

lemma extract_ignored:
  "parse_query_target
     (''SELECT AVG(EXTRACT(EPOCH FROM '' @ quoted ''respondedAt'' @ '' - '' @ quoted ''offeredAt'' @ '')) FROM order_dispatches'')
   = (''order_dispatches'', ''select'')"
  by (simp add: literal_defs parse_query_target_def strip_extract.simps extract_call_def quoted_def statement_word_def
      first_clause.simps(2) clause_def table_name_def)

end
