(* ===== verification/Storage.thy ===== *)
theory Storage
  imports Contracts
begin

text \<open>
  Files on the disk, \<open>infra/storage/local-disk.storage.ts\<close>: a directory with one file per generated name.
  The services keep their files under keys in the table \<open>files\<close>; the disk implements it.
  \<open>basename\<close> and \<open>join\<close> are those of Node's POSIX paths, for a directory that is absolute and normal.
\<close>

section \<open>Paths\<close>

definition basename :: "string \<Rightarrow> string" where
  "basename p = rev (takeWhile (\<lambda>c. c \<noteq> CHR ''/'') (dropWhile (\<lambda>c. c = CHR ''/'') (rev p)))"

definition parent_of :: "string \<Rightarrow> string" where
  "parent_of dir =
     (let p = rev (tl (dropWhile (\<lambda>c. c \<noteq> CHR ''/'') (rev dir))) in if p = [] then ''/'' else p)"

definition join_name :: "string \<Rightarrow> string \<Rightarrow> string" where
  "join_name dir b =
     (if b = [] \<or> b = ''.'' then dir else if b = ''..'' then parent_of dir else dir @ ''/'' @ b)"

definition path_for :: "string \<Rightarrow> string \<Rightarrow> string" where
  "path_for dir key = join_name dir (basename key)"

section \<open>The operations\<close>

type_synonym disk = "(string \<times> byte list) list"

definition disk_save :: "string \<Rightarrow> string \<Rightarrow> byte list \<Rightarrow> string \<Rightarrow> disk \<Rightarrow> string \<times> disk" where
  "disk_save dir uuid data ext d =
     (let key = uuid @ ext in (key, (path_for dir key, data) # filter (\<lambda>(p, _). p \<noteq> path_for dir key) d))"

definition disk_read :: "string \<Rightarrow> string \<Rightarrow> disk \<Rightarrow> byte list result" where
  "disk_read dir key d = (case map_of d (path_for dir key) of None \<Rightarrow> Inl NotFound | Some b \<Rightarrow> Inr b)"

definition disk_stream :: "string \<Rightarrow> string \<Rightarrow> disk \<Rightarrow> byte list result" where
  "disk_stream dir key d = (case map_of d (path_for dir key) of None \<Rightarrow> Inl NotFound | Some b \<Rightarrow> Inr b)"

text \<open>Deleting a file that is not there is no error.\<close>

definition disk_delete :: "string \<Rightarrow> string \<Rightarrow> disk \<Rightarrow> disk" where
  "disk_delete dir key d = filter (\<lambda>(p, _). p \<noteq> path_for dir key) d"

section \<open>Generated names stay in the directory\<close>

definition plain_name :: "string \<Rightarrow> bool" where
  "plain_name x = (CHR ''/'' \<notin> set x \<and> x \<notin> {[], ''.'', ''..''})"

lemma basename_plain: "CHR ''/'' \<notin> set x \<Longrightarrow> basename x = x"
proof -
  assume n: "CHR ''/'' \<notin> set x"
  then have a: "\<forall>c \<in> set (rev x). c \<noteq> CHR ''/''" by auto
  then have "dropWhile (\<lambda>c. c = CHR ''/'') (rev x) = rev x" by (cases "rev x") auto
  moreover have "takeWhile (\<lambda>c. c \<noteq> CHR ''/'') (rev x) = rev x" using a by (simp only: takeWhile_eq_all_conv)
  ultimately show ?thesis by (simp only: basename_def rev_rev_ident)
qed

lemma basename_no_slash: "CHR ''/'' \<notin> set (basename p)"
  by (auto simp: basename_def dest: set_takeWhileD)

lemma path_for_plain: "plain_name x \<Longrightarrow> path_for dir x = dir @ ''/'' @ x"
  by (simp add: plain_name_def path_for_def basename_plain join_name_def)

text \<open>Whatever the key, the path is below the directory, unless its last part is one of the two dots names.\<close>

lemma path_for_below:
  assumes "basename key \<notin> {[], ''.'', ''..''}"
  shows "\<exists>x. path_for dir key = dir @ ''/'' @ x \<and> CHR ''/'' \<notin> set x"
  using assms basename_no_slash [of key] by (auto simp: path_for_def join_name_def)

lemma path_for_inj: "plain_name x \<Longrightarrow> plain_name y \<Longrightarrow> path_for dir x = path_for dir y \<longleftrightarrow> x = y"
  by (simp add: path_for_plain)

section \<open>The disk implements the table of files\<close>

lemma map_of_filter_key: "map_of (filter (\<lambda>(p, _). p \<noteq> k) d) q = (if q = k then None else map_of d q)"
  by (induction d) auto

lemma disk_read_saved:
  assumes "disk_save dir uuid data ext d = (key, d')"
  shows "disk_read dir key d' = Inr data"
  using assms by (auto simp: disk_save_def disk_read_def Let_def)

lemma disk_read_other:
  assumes "disk_save dir uuid data ext d = (key, d')" "path_for dir k \<noteq> path_for dir key"
  shows "disk_read dir k d' = disk_read dir k d"
  using assms by (auto simp: disk_save_def disk_read_def Let_def map_of_filter_key)

lemma disk_read_deleted:
  "disk_read dir k (disk_delete dir key d) = (if path_for dir k = path_for dir key then Inl NotFound else disk_read dir k d)"
  by (auto simp: disk_read_def disk_delete_def map_of_filter_key)

text \<open>\<open>uuid\<close> writes the number of a key as the generated identifier; an extension begins with a dot.\<close>

fun key_name :: "(id \<Rightarrow> string) \<Rightarrow> object_key \<Rightarrow> string" where
  "key_name uuid (Object_Key i ext) = uuid i @ ext"

fun with_extension :: "object_key \<Rightarrow> bool" where
  "with_extension (Object_Key i ext) = (\<exists>e. ext = CHR ''.'' # e \<and> CHR ''/'' \<notin> set e)"

definition on_disk :: "string \<Rightarrow> (id \<Rightarrow> string) \<Rightarrow> (object_key \<times> byte list) list \<Rightarrow> disk \<Rightarrow> bool" where
  "on_disk dir uuid fs d =
     (\<forall>k. with_extension k \<longrightarrow> disk_read dir (key_name uuid k) d = (case map_of fs k of None \<Rightarrow> Inl NotFound | Some b \<Rightarrow> Inr b))"

datatype storage_call = Save_File id string "byte list" | Delete_File object_key

fun call_key :: "storage_call \<Rightarrow> object_key" where
  "call_key (Save_File i ext data) = Object_Key i ext"
| "call_key (Delete_File k) = k"

fun table_step :: "storage_call \<Rightarrow> (object_key \<times> byte list) list \<Rightarrow> (object_key \<times> byte list) list" where
  "table_step (Save_File i ext data) fs = fs @ [(Object_Key i ext, data)]"
| "table_step (Delete_File k) fs = filter (\<lambda>(j, _). j \<noteq> k) fs"

fun disk_step :: "string \<Rightarrow> (id \<Rightarrow> string) \<Rightarrow> storage_call \<Rightarrow> disk \<Rightarrow> disk" where
  "disk_step dir uuid (Save_File i ext data) d = snd (disk_save dir (uuid i) data ext d)"
| "disk_step dir uuid (Delete_File k) d = disk_delete dir (key_name uuid k) d"

text \<open>No save takes a key that is in use; a random identifier never comes twice.\<close>

fun fresh_saves :: "object_key set \<Rightarrow> storage_call list \<Rightarrow> bool" where
  "fresh_saves used [] = True"
| "fresh_saves used (Save_File i ext data # cs) = (Object_Key i ext \<notin> used \<and> fresh_saves (insert (Object_Key i ext) used) cs)"
| "fresh_saves used (Delete_File k # cs) = fresh_saves used cs"

lemma fresh_saves_less: "fresh_saves used cs \<Longrightarrow> v \<subseteq> used \<Longrightarrow> fresh_saves v cs"
proof (induction used cs arbitrary: v rule: fresh_saves.induct)
  case (2 used i ext data cs)
  then show ?case by (auto dest: insert_mono [of v used "Object_Key i ext"])
qed simp_all

locale identifiers =
  fixes uuid :: "id \<Rightarrow> string"
  assumes letters: "CHR ''/'' \<notin> set (uuid i)" "CHR ''.'' \<notin> set (uuid i)" "uuid i \<noteq> []"
    and injective: "uuid i = uuid j \<Longrightarrow> i = j"
begin

lemma plain_key: "with_extension k \<Longrightarrow> plain_name (key_name uuid k)"
proof -
  assume w: "with_extension k"
  obtain i e where k: "k = Object_Key i (CHR ''.'' # e)" "CHR ''/'' \<notin> set e" using w by (cases k) auto
  obtain c cs where u: "uuid i = c # cs" using letters(3) [of i] by (cases "uuid i") auto
  have "c \<noteq> CHR ''.''" using letters(2) [of i] u by auto
  then show ?thesis using letters(1) [of i] u k(2) by (simp add: k(1) plain_name_def)
qed

lemma same_name: "with_extension k \<Longrightarrow> with_extension j \<Longrightarrow> key_name uuid k = key_name uuid j \<Longrightarrow> k = j"
proof -
  assume k: "with_extension k" and j: "with_extension j" and e: "key_name uuid k = key_name uuid j"
  obtain i a where kd: "k = Object_Key i (CHR ''.'' # a)" using k by (cases k) auto
  obtain l b where jd: "j = Object_Key l (CHR ''.'' # b)" using j by (cases j) auto
  have eq: "uuid i @ CHR ''.'' # a = uuid l @ CHR ''.'' # b" using e by (simp add: kd jd)
  have t: "takeWhile (\<lambda>c. c \<noteq> CHR ''.'') (uuid x @ CHR ''.'' # y) = uuid x" for x y
    using letters(2) [of x] by (subst takeWhile_append2) auto
  then have "uuid i = uuid l" using eq by metis
  then show "k = j" using injective eq by (simp add: kd jd)
qed

lemma same_path:
  "with_extension k \<Longrightarrow> with_extension j \<Longrightarrow> path_for dir (key_name uuid k) = path_for dir (key_name uuid j) \<longleftrightarrow> k = j"
  using path_for_inj [OF plain_key plain_key] same_name by auto

lemma save_implements:
  assumes "on_disk dir uuid fs d" "with_extension (Object_Key i ext)" "map_of fs (Object_Key i ext) = None"
  shows "on_disk dir uuid (fs @ [(Object_Key i ext, data)]) (snd (disk_save dir (uuid i) data ext d))"
proof -
  have "disk_read dir (key_name uuid k) (snd (disk_save dir (uuid i) data ext d))
      = (case map_of (fs @ [(Object_Key i ext, data)]) k of None \<Rightarrow> Inl NotFound | Some b \<Rightarrow> Inr b)"
    if k: "with_extension k" for k
  proof -
    have p: "path_for dir (key_name uuid k) = path_for dir (uuid i @ ext) \<longleftrightarrow> k = Object_Key i ext"
      using same_path [OF k assms(2)] by simp
    obtain v d' where v: "disk_save dir (uuid i) data ext d = (v, d')" by fastforce
    then have vk: "v = uuid i @ ext" by (simp add: disk_save_def Let_def)
    show ?thesis
    proof (cases "k = Object_Key i ext")
      case True
      then show ?thesis using disk_read_saved [OF v] v vk assms(3) by (simp add: map_add_def)
    next
      case False
      then have "disk_read dir (key_name uuid k) d' = disk_read dir (key_name uuid k) d"
        using disk_read_other [OF v] p vk by simp
      then show ?thesis using assms(1) k False v by (simp add: on_disk_def map_add_def split: option.splits)
    qed
  qed
  then show ?thesis by (simp add: on_disk_def)
qed

lemma delete_implements:
  assumes "on_disk dir uuid fs d" "with_extension key"
  shows "on_disk dir uuid (filter (\<lambda>(k, _). k \<noteq> key) fs) (disk_delete dir (key_name uuid key) d)"
  using assms by (auto simp: on_disk_def disk_read_deleted same_path map_of_filter_key)

text \<open>Any sequence of saves under fresh keys and of deletions.\<close>

lemma run_implements:
  assumes "on_disk dir uuid fs d" "list_all (\<lambda>c. with_extension (call_key c)) cs"
    "fresh_saves (fst ` set fs) cs"
  shows "on_disk dir uuid (foldl (\<lambda>fs c. table_step c fs) fs cs) (foldl (\<lambda>d c. disk_step dir uuid c d) d cs)"
  using assms
proof (induction cs arbitrary: fs d)
  case Nil
  then show ?case by simp
next
  case (Cons c cs)
  have k: "with_extension (call_key c)" "list_all (\<lambda>c. with_extension (call_key c)) cs" using Cons.prems(2) by simp_all
  show ?case
  proof (cases c)
    case (Save_File i ext data)
    then have "Object_Key i ext \<notin> fst ` set fs" and fresh: "fresh_saves (insert (Object_Key i ext) (fst ` set fs)) cs"
      using Cons.prems(3) by simp_all
    then have "on_disk dir uuid (table_step c fs) (disk_step dir uuid c d)"
      using save_implements [OF Cons.prems(1)] k(1) Save_File by (simp add: map_of_eq_None_iff)
    moreover have "fst ` set (table_step c fs) = insert (Object_Key i ext) (fst ` set fs)" by (simp add: Save_File)
    ultimately show ?thesis using Cons.IH [OF _ k(2)] fresh by simp
  next
    case (Delete_File j)
    have "on_disk dir uuid (table_step c fs) (disk_step dir uuid c d)"
      using delete_implements [OF Cons.prems(1)] k(1) by (simp add: Delete_File)
    moreover have "fst ` set (table_step c fs) \<subseteq> fst ` set fs" by (auto simp: Delete_File)
    then have "fresh_saves (fst ` set (table_step c fs)) cs"
      using Cons.prems(3) fresh_saves_less by (simp add: Delete_File)
    ultimately show ?thesis using Cons.IH [OF _ k(2)] by simp
  qed
qed

end

section \<open>The ids of the model\<close>

text \<open>The texts of the model's own ids are such identifiers, so a database and a disk that start empty and
  take the same keys keep agreeing.\<close>

lemma base36_digit_letter: "d < 36 \<Longrightarrow> base36_digit d \<noteq> CHR ''/'' \<and> base36_digit d \<noteq> CHR ''.''"
proof -
  assume d: "d < 36"
  have n: "(of_char (base36_digit d) :: nat) = (if d < 10 then 48 + d else 55 + d)" using d by (simp add: base36_digit_def)
  have "(of_char (CHR ''/'') :: nat) = 47" "(of_char (CHR ''.'') :: nat) = 46" by simp_all
  then have "47 < (of_char (base36_digit d) :: nat)" using n by (simp split: if_splits)
  then show ?thesis by auto
qed

lemma base36_letters: "CHR ''/'' \<notin> set (base36 n) \<and> CHR ''.'' \<notin> set (base36 n) \<and> base36 n \<noteq> []"
proof (induction n rule: base36.induct)
  case (1 n)
  have r: "n mod 36 < 36" by simp
  show ?case
  proof (cases "n < 36")
    case True
    then have "base36 n = [base36_digit n]" by (simp add: base36.simps)
    then show ?thesis using base36_digit_letter [OF True] by auto
  next
    case False
    then have "base36 n = base36 (n div 36) @ [base36_digit (n mod 36)]" by (subst base36.simps) simp
    then show ?thesis using base36_digit_letter [OF r] 1 [OF False] by auto
  qed
qed

interpretation id_names: identifiers id_text
proof unfold_locales
  fix i j :: id
  show "CHR ''/'' \<notin> set (id_text i)" "CHR ''.'' \<notin> set (id_text i)" "id_text i \<noteq> []"
    unfolding id_text_def using base36_letters [of i] by blast+
  show "i = j" if "id_text i = id_text j"
    using that unfolding id_text_def by (metis base36_back)
qed

lemma empty_on_disk: "on_disk dir uuid [] []"
  by (simp add: on_disk_def disk_read_def)

end
