(* ===== verification/Realtime.thy ===== *)
theory Realtime
  imports Analytics
begin

text \<open>
  The sockets of \<open>modules/realtime/realtime.gateway.ts\<close>: a connection brings an access token, an accepted one
  joins the room of its user, an event for a user goes to every socket of the room.  The connections to
  the gateway are the state; that a socket which goes away leaves its rooms, and that the framework then
  calls \<open>handleDisconnect\<close>, is documented behaviour of Socket.IO and Nest.
\<close>

section \<open>The gateway\<close>

record gateway =
  gw_rooms :: "(id \<times> id) list"
  gw_connections :: int
  gw_closed :: "id list"
  gw_heard :: "(id \<times> socket_event) list"

definition no_sockets :: gateway where
  "no_sockets = \<lparr>gw_rooms = [], gw_connections = 0, gw_closed = [], gw_heard = []\<rparr>"

text \<open>\<open>client.disconnect(true)\<close>: the socket is closed; the framework reports it later, or not at all when the
  handler refused it before the report was set up.\<close>

definition socket_connected :: "gateway_ctx \<Rightarrow> id \<Rightarrow> string option \<Rightarrow> gateway \<Rightarrow> gateway" where
  "socket_connected ctx sock token g =
     (case handle_connection ctx token of
        None \<Rightarrow> g\<lparr>gw_closed := gw_closed g @ [sock]\<rparr>
      | Some u \<Rightarrow> g\<lparr>gw_rooms := gw_rooms g @ [(sock, u)], gw_connections := gw_connections g + 1\<rparr>)"

definition handle_disconnect :: "id \<Rightarrow> gateway \<Rightarrow> gateway" where
  "handle_disconnect sock g =
     g\<lparr>gw_rooms := filter (\<lambda>(k, _). k \<noteq> sock) (gw_rooms g), gw_connections := gw_connections g - 1\<rparr>"

definition room_of :: "id \<Rightarrow> gateway \<Rightarrow> id list" where
  "room_of u g = map fst (filter (\<lambda>(_, v). v = u) (gw_rooms g))"

definition send_to_room :: "id \<times> socket_event \<Rightarrow> gateway \<Rightarrow> gateway" where
  "send_to_room m g = g\<lparr>gw_heard := gw_heard g @ map (\<lambda>k. (k, snd m)) (room_of (fst m) g)\<rparr>"

text \<open>What the services emitted since \<open>n\<close> events reaches the rooms.\<close>

definition deliver_emitted :: "nat \<Rightarrow> db \<Rightarrow> gateway \<Rightarrow> gateway" where
  "deliver_emitted n s g = foldl (\<lambda>g m. send_to_room m g) g (drop n (emitted s))"

definition socket_user :: "id \<Rightarrow> gateway \<Rightarrow> id option" where
  "socket_user sock g = map_of (gw_rooms g) sock"

definition location_message :: "id \<Rightarrow> rat \<Rightarrow> rat \<Rightarrow> gateway \<times> db \<Rightarrow> gateway \<times> db" where
  "location_message sock lat lng c =
     (case c of (g, s) \<Rightarrow>
        let t = handle_location_update (socket_user sock g) lat lng s
        in (deliver_emitted (length (emitted s)) t g, t))"

datatype socket_call =
    Opens id "string option"
  | Goes id
  | Moves id rat rat

fun socket_serve :: "gateway_ctx \<Rightarrow> socket_call \<Rightarrow> gateway \<times> db \<Rightarrow> gateway \<times> db" where
  "socket_serve ctx (Opens sock token) (g, s) = (socket_connected ctx sock token g, s)"
| "socket_serve ctx (Goes sock) (g, s) = (handle_disconnect sock g, s)"
| "socket_serve ctx (Moves sock lat lng) (g, s) = location_message sock lat lng (g, s)"

definition socket_serve_all :: "gateway_ctx \<Rightarrow> socket_call list \<Rightarrow> gateway \<times> db \<Rightarrow> gateway \<times> db" where
  "socket_serve_all ctx es c = foldl (\<lambda>c e. socket_serve ctx e c) c es"

section \<open>Who is in a room\<close>

text \<open>A socket is in a room only if it came with a token the gateway accepts for the user of the room.\<close>

definition admitted :: "gateway_ctx \<Rightarrow> socket_call list \<Rightarrow> id \<times> id \<Rightarrow> bool" where
  "admitted ctx es p = (\<exists>t. Opens (fst p) t \<in> set es \<and> handle_connection ctx t = Some (snd p))"

lemma send_to_room_frame [simp]:
  "gw_rooms (send_to_room m g) = gw_rooms g" "gw_connections (send_to_room m g) = gw_connections g"
  by (simp_all add: send_to_room_def)

lemma delivered_frame [simp]:
  "gw_rooms (foldl (\<lambda>g m. send_to_room m g) g ms) = gw_rooms g"
  "gw_connections (foldl (\<lambda>g m. send_to_room m g) g ms) = gw_connections g"
  by (induction ms arbitrary: g) simp_all

lemma room_of_send [simp]: "room_of u (send_to_room m g) = room_of u g"
  by (simp add: room_of_def)

lemma heard_delivered:
  "gw_heard (foldl (\<lambda>g m. send_to_room m g) g ms)
     = gw_heard g @ concat (map (\<lambda>m. map (\<lambda>k. (k, snd m)) (room_of (fst m) g)) ms)"
  by (induction ms arbitrary: g) (simp_all add: send_to_room_def room_of_def)

lemma rooms_step:
  "set (gw_rooms (fst (socket_serve ctx e c))) \<subseteq> set (gw_rooms (fst c)) \<union> Collect (admitted ctx [e])"
  by (cases e; cases c)
    (auto simp: socket_connected_def handle_disconnect_def location_message_def deliver_emitted_def Let_def admitted_def
      split: option.splits if_splits)

lemma admitted_more: "admitted ctx es p \<Longrightarrow> set es \<subseteq> set fs \<Longrightarrow> admitted ctx fs p"
  by (auto simp: admitted_def)

lemma rooms_admitted:
  "set (gw_rooms (fst (socket_serve_all ctx es c))) \<subseteq> set (gw_rooms (fst c)) \<union> Collect (admitted ctx es)"
proof (induction es rule: rev_induct)
  case Nil
  then show ?case by (simp add: socket_serve_all_def)
next
  case (snoc e es)
  let ?c = "socket_serve_all ctx es c"
  have "socket_serve_all ctx (es @ [e]) c = socket_serve ctx e ?c" by (simp add: socket_serve_all_def)
  then have "set (gw_rooms (fst (socket_serve_all ctx (es @ [e]) c)))
      \<subseteq> set (gw_rooms (fst ?c)) \<union> Collect (admitted ctx [e])"
    using rooms_step by simp
  moreover have "Collect (admitted ctx [e]) \<subseteq> Collect (admitted ctx (es @ [e]))"
    "Collect (admitted ctx es) \<subseteq> Collect (admitted ctx (es @ [e]))"
    by (auto intro: admitted_more)
  ultimately show ?case using snoc.IH by blast
qed

section \<open>The gauge of open connections\<close>

definition accepts :: "gateway_ctx \<Rightarrow> socket_call \<Rightarrow> bool" where
  "accepts ctx e = (\<exists>k t. e = Opens k t \<and> handle_connection ctx t \<noteq> None)"

definition is_gone :: "socket_call \<Rightarrow> bool" where
  "is_gone e = (\<exists>k. e = Goes k)"

lemma gauge_counts:
  "gw_connections (fst (socket_serve_all ctx es c))
     = gw_connections (fst c) + int (length (filter (accepts ctx) es)) - int (length (filter is_gone es))"
proof (induction es rule: rev_induct)
  case Nil
  then show ?case by (simp add: socket_serve_all_def)
next
  case (snoc e es)
  let ?c = "socket_serve_all ctx es c"
  have "socket_serve_all ctx (es @ [e]) c = socket_serve ctx e ?c" by (simp add: socket_serve_all_def)
  moreover have "gw_connections (fst (socket_serve ctx e ?c))
      = gw_connections (fst ?c) + (if accepts ctx e then 1 else 0) - (if is_gone e then 1 else 0)"
    by (cases e; cases ?c)
      (auto simp: socket_connected_def handle_disconnect_def location_message_def deliver_emitted_def Let_def accepts_def
        is_gone_def split: option.splits)
  ultimately show ?case using snoc.IH by simp
qed

text \<open>A refused socket that is reported gone leaves the gauge one too low.\<close>

lemma refused_socket_lowers_the_gauge:
  assumes "handle_connection ctx t = None"
  shows "gw_connections (fst (socket_serve_all ctx [Opens k t, Goes k] (no_sockets, s))) = - 1"
  using assms by (simp add: gauge_counts no_sockets_def accepts_def is_gone_def)

section \<open>Positions\<close>

lemma position_heard:
  assumes "location_message sock lat lng (g, s) = (g', t)"
    "(k, e) \<in> set (gw_heard g')" "(k, e) \<notin> set (gw_heard g)"
  obtains u x other where "socket_user sock g = Some u" "(k, other) \<in> set (gw_rooms g)" "x \<in> set (orders s)"
    "o_status x \<in> set location_tracking_statuses"
    "o_customer x = u \<and> o_master x = Some other \<or> o_customer x = other \<and> o_master x = Some u"
    "e = Ev_Location (o_id x) lat lng"
proof -
  let ?t = "handle_location_update (socket_user sock g) lat lng s"
  have g': "g' = deliver_emitted (length (emitted s)) ?t g" using assms(1) by (auto simp: location_message_def Let_def)
  show thesis
  proof (cases "?t = s")
    case True
    then show thesis using g' assms(2,3) by (simp add: deliver_emitted_def)
  next
    case False
    then show thesis
    proof (cases rule: location_cases)
      case (1 u x other)
      then have "g' = send_to_room (other, Ev_Location (o_id x) lat lng) g" by (simp add: g' deliver_emitted_def)
      then have "k \<in> set (room_of other g)" "e = Ev_Location (o_id x) lat lng"
        using assms(2,3) by (auto simp: send_to_room_def)
      then show thesis using 1 by (intro that) (auto simp: room_of_def)
    qed
  qed
qed

section \<open>All sockets together\<close>

text \<open>The gateway after a sequence of calls; the database each of them meets is whatever the services have made
  of it by then.\<close>

definition gateway_run :: "gateway_ctx \<Rightarrow> (socket_call \<times> db) list \<Rightarrow> gateway" where
  "gateway_run ctx es = foldl (\<lambda>g (e, s). fst (socket_serve ctx e (g, s))) no_sockets es"

lemma gateway_run_snoc: "gateway_run ctx (es @ [(e, s)]) = fst (socket_serve ctx e (gateway_run ctx es, s))"
  by (simp add: gateway_run_def)

lemma run_rooms: "set (gw_rooms (gateway_run ctx es)) \<subseteq> Collect (admitted ctx (map fst es))"
proof (induction es rule: rev_induct)
  case Nil
  then show ?case by (simp add: gateway_run_def no_sockets_def)
next
  case (snoc p es)
  obtain e s where p: "p = (e, s)" by fastforce
  have "set (gw_rooms (gateway_run ctx (es @ [p]))) \<subseteq> set (gw_rooms (gateway_run ctx es)) \<union> Collect (admitted ctx [e])"
    using rooms_step [of ctx e "(gateway_run ctx es, s)"] by (simp add: p gateway_run_snoc)
  moreover have "Collect (admitted ctx [e]) \<subseteq> Collect (admitted ctx (map fst (es @ [p])))"
    "Collect (admitted ctx (map fst es)) \<subseteq> Collect (admitted ctx (map fst (es @ [p])))"
    by (auto simp: p intro: admitted_more)
  ultimately show ?case using snoc.IH by blast
qed

text \<open>\<open>between_parties\<close>: a position of one party of an order on its way, heard on a socket of the other.\<close>

definition between_parties :: "gateway_ctx \<Rightarrow> (socket_call \<times> db) list \<Rightarrow> id \<times> socket_event \<Rightarrow> bool" where
  "between_parties ctx es h =
     (\<exists>sock lat lng s x u v. (Moves sock lat lng, s) \<in> set es \<and> admitted ctx (map fst es) (sock, u) \<and> x \<in> set (orders s)
        \<and> o_status x \<in> set location_tracking_statuses \<and> admitted ctx (map fst es) (fst h, v)
        \<and> (o_customer x = u \<and> o_master x = Some v \<or> o_customer x = v \<and> o_master x = Some u)
        \<and> snd h = Ev_Location (o_id x) lat lng)"

lemma between_more:
  assumes "between_parties ctx es h" "set es \<subseteq> set fs"
  shows "between_parties ctx fs h"
proof -
  have m: "admitted ctx (map fst fs) p" if "admitted ctx (map fst es) p" for p
    by (rule admitted_more [OF that]) (use assms(2) in auto)
  then show ?thesis using assms unfolding between_parties_def by blast
qed

lemma run_heard: "h \<in> set (gw_heard (gateway_run ctx es)) \<Longrightarrow> between_parties ctx es h"
proof (induction es rule: rev_induct)
  case Nil
  then show ?case by (simp add: gateway_run_def no_sockets_def)
next
  case (snoc p es)
  obtain e s where p: "p = (e, s)" by fastforce
  let ?g = "gateway_run ctx es"
  show ?case
  proof (cases "h \<in> set (gw_heard ?g)")
    case True
    then show ?thesis using snoc.IH between_more by (metis (no_types, opaque_lifting) set_append Un_upper1)
  next
    case False
    have h: "h \<in> set (gw_heard (fst (socket_serve ctx e (?g, s))))" using snoc.prems by (simp add: p gateway_run_snoc)
    obtain sock lat lng where e: "e = Moves sock lat lng"
      using h False by (cases e) (auto simp: socket_connected_def handle_disconnect_def split: option.splits)
    obtain g' t where l: "location_message sock lat lng (?g, s) = (g', t)" by fastforce
    have hk: "(fst h, snd h) \<in> set (gw_heard g')" "(fst h, snd h) \<notin> set (gw_heard ?g)" using h False by (simp_all add: e l)
    obtain u x v where x: "socket_user sock ?g = Some u" "(fst h, v) \<in> set (gw_rooms ?g)" "x \<in> set (orders s)"
      "o_status x \<in> set location_tracking_statuses"
      "o_customer x = u \<and> o_master x = Some v \<or> o_customer x = v \<and> o_master x = Some u" "snd h = Ev_Location (o_id x) lat lng"
      using position_heard [OF l hk] by blast
    have "(sock, u) \<in> set (gw_rooms ?g)" using x(1) by (auto simp: socket_user_def dest: map_of_SomeD)
    then have a: "admitted ctx (map fst (es @ [p])) (sock, u)" "admitted ctx (map fst (es @ [p])) (fst h, v)"
      using run_rooms [of ctx es] x(2) by (auto intro: admitted_more)
    have "(Moves sock lat lng, s) \<in> set (es @ [p])" by (simp add: p e)
    then show ?thesis unfolding between_parties_def using a x(3-6) by blast
  qed
qed

end
