(* ===== verification/Tracking.thy ===== *)
theory Tracking
  imports Realtime WebOrders
begin

text \<open>
  The live map of the pages, \<open>components/map/live-tracking-map.tsx\<close> with \<open>lib/geo.ts\<close> and \<open>lib/socket.ts\<close>: the
  own position is sent while the order is on its way, and every position that arrives on the socket is
  shown as that of the other party.  The drawing of the map is left out.
\<close>

section \<open>The map of one page\<close>

type_synonym position = "rat \<times> rat"

record tracking =
  tk_active :: bool
  tk_self :: "position option"
  tk_other :: "position option"
  tk_failed :: bool

definition tracking_open :: "order_status \<Rightarrow> position option \<Rightarrow> tracking" where
  "tracking_open st initial =
     \<lparr>tk_active = (st \<in> set live_tracking_statuses), tk_self = None, tk_other = initial, tk_failed = False\<rparr>"

text \<open>The browser reports a position, or that it has none; only a map that is active listens to it, and then
  sends the position on.\<close>

definition own_position :: "position \<Rightarrow> tracking \<Rightarrow> tracking \<times> position list" where
  "own_position p t =
     (if tk_active t then (t\<lparr>tk_self := Some p, tk_failed := False\<rparr>, [p]) else (t, []))"

definition position_failed :: "tracking \<Rightarrow> tracking" where
  "position_failed t = (if tk_active t then t\<lparr>tk_failed := True\<rparr> else t)"

fun tracking_hears :: "socket_event \<Rightarrow> tracking \<Rightarrow> tracking" where
  "tracking_hears (Ev_Location i lat lng) t = t\<lparr>tk_other := Some (lat, lng)\<rparr>"
| "tracking_hears _ t = t"

text \<open>Where the map is centred first, and the corner points it is fitted to.\<close>

definition map_center :: "tracking \<Rightarrow> position option" where
  "map_center t = (case tk_self t of Some p \<Rightarrow> Some p | None \<Rightarrow> tk_other t)"

definition map_bounds :: "tracking \<Rightarrow> (position \<times> position) option" where
  "map_bounds t =
     (case (tk_self t, tk_other t) of
        (Some (a, b), Some (c, d)) \<Rightarrow> Some ((min a c, min b d), (max a c, max b d))
      | _ \<Rightarrow> None)"

text \<open>The map of a page whose socket is \<open>sock\<close>, after all that the socket heard.\<close>

definition tracking_page :: "order_row \<Rightarrow> id \<Rightarrow> gateway \<Rightarrow> tracking" where
  "tracking_page x sock g =
     fold tracking_hears (map snd (filter (\<lambda>m. fst m = sock) (gw_heard g))) (tracking_open (o_status x) None)"

lemma map_bounds_contain:
  assumes "map_bounds t = Some ((a, b), (c, d))" "tk_self t = Some p \<or> tk_other t = Some p"
  shows "a \<le> fst p \<and> fst p \<le> c \<and> b \<le> snd p \<and> snd p \<le> d"
  using assms by (auto simp: map_bounds_def split: option.splits prod.splits)

section \<open>Two orders at once\<close>

lemma location_relayed:
  assumes "socket_user sock g = Some m" "location_valid lat lng" "tracked_order m s = Some y" "o_customer y \<noteq> m"
    "location_message sock lat lng (g, s) = (g', t)"
  shows "g' = send_to_room (o_customer y, Ev_Location (o_id y) lat lng) g"
  using assms by (auto simp: location_message_def handle_location_update_def deliver_emitted_def emit_to_user_def Let_def)

lemma page_hears_last:
  assumes "g' = send_to_room (u, Ev_Location i lat lng) g" "(k, u) \<in> set (gw_rooms g)"
  shows "tk_other (tracking_page x k g') = Some (lat, lng)"
proof -
  define e where "e = Ev_Location i lat lng"
  have "k \<in> set (room_of u g)" using assms(2) by (force simp: room_of_def)
  then obtain n where "filter (\<lambda>m. fst m = k) (map (\<lambda>k. (k, e)) (room_of u g)) = replicate (Suc n) (k, e)"
  proof -
    assume k: "k \<in> set (room_of u g)"
      and that: "\<And>n. filter (\<lambda>m. fst m = k) (map (\<lambda>k. (k, e)) (room_of u g)) = replicate (Suc n) (k, e) \<Longrightarrow> thesis"
    have f: "filter (\<lambda>m. fst m = k) (map (\<lambda>k. (k, e)) xs) = replicate (length (filter (\<lambda>j. j = k) xs)) (k, e)" for xs
      by (induction xs) auto
    have "length (filter (\<lambda>j. j = k) (room_of u g)) \<noteq> 0" using k by (auto simp: filter_empty_conv)
    then obtain n where "length (filter (\<lambda>j. j = k) (room_of u g)) = Suc n" using not0_implies_Suc by blast
    then show thesis using that f by metis
  qed
  moreover have "tk_other (fold tracking_hears (replicate (Suc n) e) t) = Some (lat, lng)" for n t
    by (induction n arbitrary: t) (simp_all add: e_def)
  ultimately show ?thesis
    by (simp add: tracking_page_def assms(1) send_to_room_def e_def [symmetric] del: replicate.simps)
qed

end
