(* ===== verification/Operations.thy ===== *)
theory Operations
  imports Api
begin

text \<open>
  What the program shows its operators: the health endpoints (\<open>health/health.controller.ts\<close>), the histogram of
  requests (\<open>infra/metrics\<close>), the level a request is logged at (\<open>infra/logging\<close>) and the report of errors
  (\<open>infra/monitoring\<close>).  The probes are what the outside services answer.  That Nest sets the status of a
  route before its handler runs, and that the exception filter runs after the interceptors, is documented
  behaviour of the framework.
\<close>

section \<open>Health\<close>

record probes =
  pr_query :: bool
  pr_ping :: "string option"
  pr_jobs :: bool
  pr_uploads :: bool

datatype check_status = Up | Down

definition check_db :: "probes \<Rightarrow> check_status" where
  "check_db p = (if pr_query p then Up else Down)"

definition check_redis :: "probes \<Rightarrow> check_status" where
  "check_redis p = (if pr_ping p = Some ''PONG'' then Up else Down)"

definition check_queue :: "probes \<Rightarrow> check_status" where
  "check_queue p = (if pr_jobs p then Up else Down)"

definition check_storage :: "probes \<Rightarrow> check_status" where
  "check_storage p = (if pr_uploads p then Up else Down)"

record health_reply =
  hr_code :: int
  hr_status :: string
  hr_checks :: "(string \<times> check_status) list"

definition health_check :: "probes \<Rightarrow> health_reply" where
  "health_check p =
     \<lparr>hr_code = 200, hr_status = (if check_db p = Up then ''ok'' else ''degraded''),
      hr_checks = [(''db'', check_db p), (''redis'', check_redis p)]\<rparr>"

definition health_live :: "probes \<Rightarrow> health_reply" where
  "health_live p = \<lparr>hr_code = 200, hr_status = ''ok'', hr_checks = []\<rparr>"

definition health_ready :: "probes \<Rightarrow> health_reply" where
  "health_ready p =
     (let checks = [(''db'', check_db p), (''redis'', check_redis p), (''queue'', check_queue p), (''storage'', check_storage p)]
      in \<lparr>hr_code = 200, hr_status = (if list_all (\<lambda>c. snd c = Up) checks then ''ok'' else ''not_ready''),
          hr_checks = checks\<rparr>)"

text \<open>The container's health check asks for the status code 200 of \<open>health/ready\<close>.\<close>

definition container_healthy :: "probes \<Rightarrow> bool" where
  "container_healthy p = (hr_code (health_ready p) = 200)"

lemma ready_iff_all_up:
  "hr_status (health_ready p) = ''ok'' \<longleftrightarrow> pr_query p \<and> pr_ping p = Some ''PONG'' \<and> pr_jobs p \<and> pr_uploads p"
  by (auto simp: health_ready_def Let_def check_db_def check_redis_def check_queue_def check_storage_def)

text \<open>The body tells what is down, the code does not: an instance that cannot serve anything is healthy.\<close>

lemma unready_instance_is_healthy: "container_healthy p"
  by (simp add: container_healthy_def health_ready_def Let_def)

section \<open>The histogram of requests\<close>

text \<open>The routes that answer 201: what posts without \<open>HttpCode(200)\<close>.\<close>

fun answers_created :: "api_request \<Rightarrow> bool" where
  "answers_created (A_Auth q) = (case q of U_Register _ \<Rightarrow> True | _ \<Rightarrow> False)"
| "answers_created (A_Public q) = False"
| "answers_created (A_Orders q) =
     (case q of O_Create _ _ \<Rightarrow> True | O_Add_Media _ _ \<Rightarrow> True | O_Pay _ _ \<Rightarrow> True | O_Review _ _ _ _ \<Rightarrow> True
      | O_Claim _ _ \<Rightarrow> True | _ \<Rightarrow> False)"
| "answers_created (A_Me q) = (case q of M_Add_Address _ \<Rightarrow> True | M_Set_Default _ \<Rightarrow> True | _ \<Rightarrow> False)"
| "answers_created (A_Master q) =
     (case q of W_Add_Media _ _ _ \<Rightarrow> True | W_Accept _ \<Rightarrow> True | W_Decline _ \<Rightarrow> True | _ \<Rightarrow> False)"
| "answers_created (A_Master_More q) = (case q of W_Job_Media _ _ \<Rightarrow> True | W_Submit _ \<Rightarrow> True | _ \<Rightarrow> False)"
| "answers_created (A_Inbox q) = False"
| "answers_created (A_Admin q) =
     (case q of Z_Suspend _ _ \<Rightarrow> True | Z_Restore _ \<Rightarrow> True | Z_Set_Flag _ _ _ \<Rightarrow> True | _ \<Rightarrow> False)"

definition success_code :: "api_request \<Rightarrow> int" where
  "success_code q = (if answers_created q then 201 else 200)"

text \<open>The code the client gets, and the code the interceptor records: it reads the reply when the handler is
  done, which for an error is before the filter writes its status.  A request a guard turns away does not
  reach the interceptor.\<close>

definition sent_code :: "api_ctx \<Rightarrow> string option \<Rightarrow> api_request \<Rightarrow> db \<Rightarrow> int" where
  "sent_code ctx header q s =
     (case fst (serve_api ctx header q s) of Inl e \<Rightarrow> error_status e | Inr _ \<Rightarrow> success_code q)"

definition recorded_code :: "int \<Rightarrow> reply result \<Rightarrow> int" where
  "recorded_code reply_code r =
     (case r of Inr _ \<Rightarrow> reply_code | Inl _ \<Rightarrow> if reply_code = 0 then 500 else reply_code)"

definition observed :: "api_ctx \<Rightarrow> string option \<Rightarrow> api_request \<Rightarrow> db \<Rightarrow> int option" where
  "observed ctx header q s =
     (case jwt_auth_guard (ap_read ctx) (is_public q) header of
        Inl e \<Rightarrow> None
      | Inr user \<Rightarrow>
          (case roles_guard (route_roles q) user of
             Inl e \<Rightarrow> None
           | Inr _ \<Rightarrow> Some (recorded_code (success_code q) (fst (route_handler ctx q user s)))))"

lemma error_status_range: "400 \<le> error_status e \<and> error_status e \<le> 500"
  by (cases e) simp_all

text \<open>What is answered with an error is recorded as a success or not at all.\<close>

lemma failures_look_successful:
  assumes "fst (serve_api ctx header q s) = Inl e"
  shows "400 \<le> sent_code ctx header q s" "observed ctx header q s \<in> {None, Some (success_code q)}"
proof -
  show "400 \<le> sent_code ctx header q s" using assms error_status_range [of e] by (simp add: sent_code_def)
  show "observed ctx header q s \<in> {None, Some (success_code q)}"
    by (auto simp: observed_def recorded_code_def success_code_def split: sum.splits)
qed

lemma successes_are_observed:
  assumes "fst (serve_api ctx header q s) = Inr r"
  shows "observed ctx header q s = Some (sent_code ctx header q s)"
  using assms
  by (auto simp: observed_def sent_code_def recorded_code_def serve_api_def guarded_by_def raise_def split: sum.splits)

section \<open>Logs and reports\<close>

datatype log_level = Log_Info | Log_Warn | Log_Error

definition custom_log_level :: "bool \<Rightarrow> int \<Rightarrow> log_level" where
  "custom_log_level failed code =
     (if failed \<or> 500 \<le> code then Log_Error else if 400 \<le> code then Log_Warn else Log_Info)"

definition quiet_urls :: "string list" where
  "quiet_urls = [''/api/v1/health'', ''/api/v1/health/live'', ''/api/v1/health/ready'', ''/api/v1/metrics'']"

definition request_id :: "string option \<Rightarrow> string option \<Rightarrow> string \<Rightarrow> string" where
  "request_id x_request_id x_correlation_id uuid =
     (let existing = (case x_request_id of Some v \<Rightarrow> v | None \<Rightarrow> (case x_correlation_id of Some v \<Rightarrow> v | None \<Rightarrow> []))
      in if existing = [] then uuid else existing)"

lemma request_id_given: "request_id a b uuid = [] \<longleftrightarrow> uuid = [] \<and> (case a of Some v \<Rightarrow> v = [] | None \<Rightarrow> b \<in> {None, Some []})"
  by (auto simp: request_id_def Let_def split: option.splits)

text \<open>Errors are reported when a key is configured; the filter reports those of the server.\<close>

definition monitoring_enabled :: "env \<Rightarrow> bool" where
  "monitoring_enabled e = (SENTRY_DSN e \<noteq> [])"

definition traces_sample_rate :: "env \<Rightarrow> rat" where
  "traces_sample_rate e = (if NODE_ENV e = Production then fl64 (1 / 10) else 0)"

definition capture_error :: "env \<Rightarrow> 'a \<Rightarrow> 'a list \<Rightarrow> 'a list" where
  "capture_error e x reports = (if monitoring_enabled e then reports @ [x] else reports)"

end
