(* ===== verification/Outbound.thy ===== *)
theory Outbound
  imports Config Notifications
begin

text \<open>
  What leaves through services of others: text messages through Eskiz (\<open>modules/auth/sms\<close>) and push messages
  through Firebase (\<open>infra/push\<close>).  The answers of the services are parameters: a call may not be answered
  at all, be answered with a status that is no success, or with a body.  What is written to the log in
  place of a message is \<open>Printed\<close>.
\<close>

datatype 'a fetched = No_Answer | Refused int | Fetched 'a

section \<open>Text messages\<close>

record eskiz =
  ek_token :: "string option"
  ek_expires :: time

definition no_eskiz_token :: eskiz where
  "no_eskiz_token = \<lparr>ek_token = None, ek_expires = 0\<rparr>"

definition eskiz_token_lifetime :: int where
  "eskiz_token_lifetime = 25 * 24 * 60 * 60 * 1000"

definition eskiz_cached :: "time \<Rightarrow> eskiz \<Rightarrow> string option" where
  "eskiz_cached now e =
     (case ek_token e of None \<Rightarrow> None | Some t \<Rightarrow> if t \<noteq> [] \<and> now < ek_expires e then Some t else None)"

text \<open>\<open>login\<close> is the answer to the log-in, a token or none in its body.\<close>

definition eskiz_authenticate :: "time \<Rightarrow> string option fetched \<Rightarrow> eskiz \<Rightarrow> (string, eskiz) outcome" where
  "eskiz_authenticate now login e =
     (case eskiz_cached now e of
        Some t \<Rightarrow> ok t e
      | None \<Rightarrow>
          (case login of
             Fetched (Some t) \<Rightarrow>
               if t = [] then raise InternalError e
               else ok t \<lparr>ek_token = Some t, ek_expires = now + eskiz_token_lifetime\<rparr>
           | _ \<Rightarrow> raise InternalError e))"

definition eskiz_send ::
  "time \<Rightarrow> string option fetched \<Rightarrow> (string \<Rightarrow> string \<Rightarrow> string \<Rightarrow> unit fetched) \<Rightarrow> string \<Rightarrow> string
     \<Rightarrow> eskiz \<Rightarrow> (unit, eskiz) outcome" where
  "eskiz_send now login gateway phone message e =
     and_then (eskiz_authenticate now login e)
       (\<lambda>t e. case gateway t (remove1 CHR ''+'' phone) message of
          Fetched _ \<Rightarrow> ok () e
        | _ \<Rightarrow> raise InternalError e)"

datatype sms_route = By_Eskiz | By_Log

definition sms_provider :: "env \<Rightarrow> sms_route" where
  "sms_provider e = (if SMS_PROVIDER e = Sms_Eskiz then By_Eskiz else By_Log)"

text \<open>After a log-in the next messages of 25 days ask for no other.\<close>

lemma authenticated_once:
  assumes "eskiz_authenticate now login e = (Inr t, f)" "eskiz_cached now e = None"
    "later < now + eskiz_token_lifetime"
  shows "eskiz_authenticate later other f = (Inr t, f)"
  using assms
  by (auto simp: eskiz_authenticate_def eskiz_cached_def ok_def raise_def split: option.splits fetched.splits if_splits)

text \<open>A token the gateway stops accepting stays in use: until it is 25 days old every message fails, without
  another log-in.\<close>

lemma refused_token_is_kept:
  assumes "eskiz_cached now e = Some t" "\<And>p m. gateway t p m = Refused 401"
  shows "eskiz_send now login gateway phone message e = raise InternalError e"
  using assms by (simp add: eskiz_send_def eskiz_authenticate_def and_then.simps raise_def ok_def)

lemma eskiz_send_accepted:
  assumes "eskiz_send now login gateway phone message e = (Inr (), f)"
  shows "\<exists>t. eskiz_cached now f = Some t \<and> gateway t (remove1 CHR ''+'' phone) message = Fetched ()"
  using assms
  by (auto simp: eskiz_send_def eskiz_authenticate_def eskiz_cached_def and_then.simps raise_def ok_def
      eskiz_token_lifetime_def split: option.splits fetched.splits if_splits)

section \<open>Push messages\<close>

definition fcm_configured :: "env \<Rightarrow> bool" where
  "fcm_configured e =
     (0 < length (FCM_PROJECT_ID e) \<and> 0 < length (FCM_CLIENT_EMAIL e) \<and> 0 < length (FCM_PRIVATE_KEY e))"

text \<open>The key is stored with the two characters backslash and n in place of each line break.\<close>

fun real_newlines :: "string \<Rightarrow> string" where
  "real_newlines (a # b # x) =
     (if a = CHR 0x5C \<and> b = CHR ''n'' then CHR 0x0A # real_newlines x else a # real_newlines (b # x))"
| "real_newlines x = x"

definition fcm_enabled :: "env \<Rightarrow> bool" where
  "fcm_enabled e = (PUSH_PROVIDER e = Push_Fcm \<and> fcm_configured e)"

text \<open>\<open>multicast\<close> is Firebase's answer: an error, or the number of tokens it could not reach.\<close>

datatype push_result = Pushed "string list" nat | Printed "string list" | Nothing_To_Push

definition fcm_send :: "(string list \<Rightarrow> nat option) \<Rightarrow> string list \<Rightarrow> push_result option" where
  "fcm_send multicast tokens =
     (if tokens = [] then Some Nothing_To_Push else map_option (Pushed tokens) (multicast tokens))"

definition mock_push_send :: "string list \<Rightarrow> push_result" where
  "mock_push_send tokens = (if tokens = [] then Nothing_To_Push else Printed tokens)"

definition push_send :: "env \<Rightarrow> (string list \<Rightarrow> nat option) \<Rightarrow> string list \<Rightarrow> push_result" where
  "push_send e multicast tokens =
     (if fcm_enabled e
      then (case fcm_send multicast tokens of Some r \<Rightarrow> r | None \<Rightarrow> mock_push_send tokens)
      else mock_push_send tokens)"

text \<open>Firebase gets a message iff it is configured, there is a device and it answers; nothing is lost
  silently otherwise.\<close>

lemma pushed_iff:
  "push_send e multicast tokens = Pushed ts n
     \<longleftrightarrow> fcm_enabled e \<and> tokens \<noteq> [] \<and> ts = tokens \<and> multicast tokens = Some n"
  by (auto simp: push_send_def fcm_send_def mock_push_send_def split: option.splits)

lemma printed_otherwise:
  "tokens \<noteq> [] \<Longrightarrow> push_send e multicast tokens = Printed tokens \<longleftrightarrow> \<not> fcm_enabled e \<or> multicast tokens = None"
  by (auto simp: push_send_def fcm_send_def mock_push_send_def split: option.splits)

lemma real_newlines_shorter: "length (real_newlines x) \<le> length x"
  by (induction x rule: real_newlines.induct) auto

end
