(* ===== verification/Pages_Properties.thy ===== *)
theory Pages_Properties
  imports Web_Properties WebPages VerifyPage QueryLabels Storage Tracking Operations Outbound
begin

text \<open>
  Properties of what surrounds the services: the files on the disk, the sockets, the inbox, the searches
  of the administrator, and the lists of the pages.
\<close>

section \<open>Files\<close>

text \<open>C32: the directory of uploads implements the table of files: after any saves under fresh identifiers and
  any deletions, in any order, a name reads the bytes the table has under its key, and is not found when
  the table has none.\<close>

theorem disk_refines_files:
  assumes "list_all (\<lambda>c. with_extension (call_key c)) cs" "fresh_saves {} cs" "with_extension k"
  shows "disk_read dir (key_name id_text k) (foldl (\<lambda>d c. disk_step dir id_text c d) [] cs)
    = (case map_of (foldl (\<lambda>fs c. table_step c fs) [] cs) k of None \<Rightarrow> Inl NotFound | Some b \<Rightarrow> Inr b)"
  using id_names.run_implements [OF empty_on_disk assms(1), of dir] assms(2,3) by (simp add: on_disk_def)

theorem disk_refines_files_witness:
  "disk_read ''/uploads'' (key_name id_text (Object_Key 7 ''.png''))
     (foldl (\<lambda>d c. disk_step ''/uploads'' id_text c d) []
        [Save_File 7 ''.png'' [1, 2], Save_File 8 ''.mp4'' [3], Delete_File (Object_Key 8 ''.mp4'')]) = Inr [1, 2]"
  by (subst disk_refines_files) simp_all

section \<open>Sockets\<close>

text \<open>C27: whatever sockets connect, leave and send, and whatever the services do meanwhile, a socket hears a
  position only if it came with an accepted token of one party of an order that is then on its way, and a
  socket with an accepted token of the other party sent it.\<close>

theorem positions_reach_only_the_parties:
  assumes "h \<in> set (gw_heard (gateway_run ctx es))"
  shows "between_parties ctx es h"
  using assms by (rule run_heard)

definition demo_gateway :: gateway_ctx where
  "demo_gateway = \<lparr>gc_read = (\<lambda>t. if t = ''c'' then Some demo_claims
     else if t = ''m'' then Some (demo_claims\<lparr>cl_id := 2, cl_role := MASTER\<rparr>) else None)\<rparr>"

definition demo_tracked :: db where
  "demo_tracked = demo_db\<lparr>orders := [demo_draft\<lparr>o_customer := 1, o_master := Some 2, o_status := EN_ROUTE\<rparr>]\<rparr>"

definition demo_sockets :: "(socket_call \<times> db) list" where
  "demo_sockets = [(Opens 11 (Some ''c''), demo_db), (Opens 12 (Some ''m''), demo_db), (Opens 13 (Some ''x''), demo_db),
     (Moves 12 41 69, demo_tracked)]"

lemma demo_heard: "gw_heard (gateway_run demo_gateway demo_sockets) = [(11, Ev_Location (o_id demo_draft) 41 69)]"
  by (simp add: gateway_run_def demo_sockets_def demo_gateway_def no_sockets_def socket_connected_def handle_connection_def
      demo_claims_def location_message_def socket_user_def handle_location_update_def location_valid_def tracked_order_def
      demo_tracked_def location_tracking_statuses_def emit_to_user_def deliver_emitted_def send_to_room_def room_of_def Let_def)

theorem positions_reach_only_the_parties_witness:
  "between_parties demo_gateway demo_sockets (11, Ev_Location (o_id demo_draft) 41 69)"
  by (rule positions_reach_only_the_parties) (simp add: demo_heard)

text \<open>A customer with two orders on their way: when the master of one of them moves, the page of the other order
  shows that position as the position of its own master.\<close>

lemma other_order_moves_the_pin:
  assumes "tracked_order m s = Some y" "o_customer y = u" "u \<noteq> m" "location_valid lat lng"
    "socket_user sock g = Some m" "(k, u) \<in> set (gw_rooms g)" "location_message sock lat lng (g, s) = (g', t)"
    "x \<in> set (orders s)" "o_customer x = u" "o_id x \<noteq> o_id y" "o_master x = Some n" "n \<noteq> m"
  shows "tk_other (tracking_page x k g') = Some (lat, lng)"
proof -
  have "g' = send_to_room (u, Ev_Location (o_id y) lat lng) g"
    using location_relayed [OF assms(5,4,1) _ assms(7)] assms(2,3) by simp
  then show ?thesis using page_hears_last assms(6) by blast
qed

section \<open>The inbox\<close>

text \<open>C35: opening a notification about an order shows the order exactly to its customer.  For its master the
  press ends in an error although the order is his, because it leads to the page of the customer.\<close>

theorem notifications_open_for_customers:
  assumes "online (n + 5) rd fm w" "signed_in rd c w" "\<And>i. fm_uuid fm (txt i) = Some i"
    "find_row (\<lambda>r. n_id r = n_id m) (notifications (wl_db w)) = Some m" "n_user m = cl_id c"
    "map_of (n_data m) ''orderId'' = Some (JInt (int (o_id x)))" "find_order (o_id x) (wl_db w) = Some x"
    "cl_role c = CUSTOMER \<and> o_customer x = cl_id c \<or> cl_role c = MASTER \<and> o_master x = Some (cl_id c)"
  shows "(\<exists>v u. follow_notification txt (notification_to_dto m) w = (Inr v, u)) \<longleftrightarrow> cl_role c = CUSTOMER"
proof -
  have "online (Suc (n + 4)) rd fm w" using assms(1) by (simp add: numeral_eq_Suc)
  then obtain v where v: "open_notification txt (notification_to_dto m) w = (Inr (notification_target (notification_to_dto m)), v)"
    "online (n + 4) rd fm v" "signed_in rd c v" "orders (wl_db v) = orders (wl_db w)"
    using notification_opened assms(2-5) by blast
  have "notification_target (notification_to_dto m) = Some (o_id x)"
    using assms(6) by (simp add: notification_target_def notification_to_dto_def)
  then have f: "follow_notification txt (notification_to_dto m) w = load_order txt (o_id x) v"
    using v(1) by (simp add: follow_notification_def)
  show ?thesis
  proof (cases "cl_role c = CUSTOMER")
    case True
    have "find_order (o_id x) (wl_db v) = Some x" using assms(7) v(4) by (simp add: find_order_def)
    moreover have "o_customer x = cl_id c" using assms(8) True by auto
    ultimately show ?thesis using load_order_shows [of n rd fm v c "txt" "o_id x" x, OF v(2,3) True assms(3)] f True by metis
  next
    case False
    then obtain e u where "load_order txt (o_id x) v = (Inl e, u)"
      using order_page_refused [OF v(3) online_server [OF v(2)]] by blast
    then show ?thesis using f False by simp
  qed
qed

definition demo_notice :: notification_row where
  "demo_notice = \<lparr>n_id = 300, n_user = 1, n_type = ORDER_ASSIGNED, n_data = [(''orderId'', JInt (int (o_id demo_draft)))],
     n_read = None, n_at = 2000\<rparr>"

theorem notifications_open_for_customers_witness:
  "\<exists>v u. follow_notification id_text (notification_to_dto demo_notice)
     (demo_world 6 (demo_db\<lparr>orders := [demo_draft], notifications := [demo_notice]\<rparr>)) = (Inr v, u)"
  using notifications_open_for_customers [of 0 _ _ "demo_world 6 (demo_db\<lparr>orders := [demo_draft], notifications := [demo_notice]\<rparr>)"
      demo_claims id_text demo_notice demo_draft, OF demo_world_online demo_world_signed]
  by (simp add: demo_world_def demo_claims_def demo_notice_def own_ids.read_back find_order_def demo_draft_def)

section \<open>The searches of the administrator\<close>

text \<open>Phones are stored without spaces, so a phone typed the way the field shows it is found on no page.\<close>

lemma spaced_search_finds_nobody:
  assumes "online (Suc n) rd fm w" "signed_in rd c w" "cl_role c = ADMIN"
    "\<And>r. r \<in> set (users (wl_db w)) \<Longrightarrow> CHR '' '' \<notin> set (u_phone r)" "CHR '' '' \<in> set (trim typed)" "length (trim typed) \<le> 20"
  shows "fst (masters_page typed plan w) = Inr Panel_Empty"
    "fst (support_page typed w) = Inr Panel_Error"
proof -
  have typed: "typed \<noteq> []" using assms(5) by (auto simp: trim_def)
  let ?q = "A_Admin (masters_query typed plan)"
  have q: "\<not> is_public ?q" "route_roles ?q = [] \<or> cl_role c \<in> set (route_roles ?q)" using assms(3) by simp_all
  have none: "admin_list_users f cursor (wl_db w) = ([], None)" if "uf_phone f = Some (trim typed)" for f cursor
    by (rule search_lists_nobody [OF assms(4) that assms(5)])
  have p: "trimmed 0 20 typed = Some (trim typed)" using assms(6) by (simp add: trimmed_def)
  have handled: "\<exists>r t. route_handler ctx ?q (Some c) (wl_db w) = ok r t \<and> quiet r \<and> r = R_Users ([], None)" for ctx
    using typed p none
    by (simp add: for_user_def masters_query_def users_controller_list_def piped_def parse_user_query_def all_users_def
        to_query_def reading_def quiet_def ok_def)
  obtain hs r t where "web_request True ?q w = (Inr r, w\<lparr>wl_hops := hs, wl_db := t\<rparr>)" "r = R_Users ([], None)"
    by (rule ask_any [OF assms(1,2) q handled])
  then have found: "with_retry (web_request True ?q) w = (Inr (R_Users ([], None)), w\<lparr>wl_hops := hs, wl_db := t\<rparr>)"
    using with_retry_ok by metis
  show "fst (masters_page typed plan w) = Inr Panel_Empty"
    unfolding masters_page_def list_panel_def fetched_panel_def
    by (simp only: if_True web_then_def web_try_def found prod.case sum.case web_ok_apply)
      (simp add: read_users_def)
next
  let ?q = "A_Admin (Z_Support (trim typed))"
  have typed: "trim typed \<noteq> []" using assms(5) by auto
  obtain h :: hop where h: "ap_formats (hp_ctx h) = fm" "ap_read (hp_ctx h) = rd"
    "fst (web_request True ?q w) = answered (fst (serve_api (hp_ctx h) (auth_header True w) ?q (wl_db w)))"
    by (rule online_answer [OF assms(1)])
  have "user_by_phone (trim typed) (wl_db w) = None"
    unfolding user_by_phone_def find_row_None using assms(4,5) by metis
  then have "\<exists>e. fst (route_handler (hp_ctx h) ?q (Some c) (wl_db w)) = Inl e"
    by (auto simp: for_user_def piped_def looking_up_def lookup_by_phone_def raise_def split: option.splits)
     (auto simp: parse_lookup_phone_def trimmed_def)
  then obtain e where "fst (web_request True ?q w) = Inl e"
    using signed_serve [OF assms(2) h(2), of ?q "wl_db w"] assms(3) h(3) by (auto simp: answered_def)
  then obtain v where "web_request True ?q w = (Inl e, v)" by (metis prod.collapse)
  then show "fst (support_page typed w) = Inr Panel_Error"
    using typed by (simp add: support_page_def support_query_def fetched_panel_def web_then_def web_try_def)
qed

end
